(* ===== verification/Prelude.thy ===== *)
theory Prelude
  imports Main "HOL-Library.Word"
begin

text \<open>
  Generic vocabulary of the development: the widths of the C++ integers, the collections of
  simplification rules the components fill, byte buffers with checked stores, the
  \<open>std::string\<close> searches the daemon uses, and first-match search in a sequence of pointers.
  Nothing here is specific to the daemon.
\<close>

unbundle bit_operations_syntax

type_synonym u8 = "8 word"
type_synonym u16 = "16 word"
type_synonym u32 = "32 word"
type_synonym u64 = "64 word"

named_theorems dev_simps \<open>unfolding of the device operations\<close>
named_theorems cfg_simps \<open>unfolding of the configuration reader\<close>
named_theorems frame_simps \<open>fields an operation leaves unchanged\<close>
named_theorems lib_simps \<open>documented behaviour of the outside libraries, at the concrete instances\<close>

subsection \<open>Byte buffers\<close>

text \<open>
  \<open>memcpy (buf + off, src, n)\<close> on a fixed-size buffer. A store that does not fit is undefined
  behaviour in the code and \<open>None\<close> here.
\<close>

definition store_at :: "'a list \<Rightarrow> nat \<Rightarrow> 'a list \<Rightarrow> 'a list option" where
  "store_at buf off src =
     (if off + length src \<le> length buf
      then Some (take off buf @ src @ drop (off + length src) buf) else None)"

lemma store_at_defined [simp]:
  "store_at buf off src = None \<longleftrightarrow> length buf < off + length src"
  by (auto simp: store_at_def)

lemma store_at_Some:
  "off + length src \<le> length buf \<Longrightarrow>
     store_at buf off src = Some (take off buf @ src @ drop (off + length src) buf)"
  by (simp add: store_at_def)

lemma store_at_length: "store_at buf off src = Some b \<Longrightarrow> length b = length buf"
  by (auto simp: store_at_def split: if_splits)

lemma store_at_nth:
  assumes "store_at buf off src = Some b" and "i < length buf"
  shows "b ! i = (if off \<le> i \<and> i < off + length src then src ! (i - off) else buf ! i)"
proof -
  from assms(1) have le: "off + length src \<le> length buf"
    and b: "b = take off buf @ src @ drop (off + length src) buf"
    by (auto simp: store_at_def split: if_splits)
  consider "i < off" | "off \<le> i" "i < off + length src" | "off + length src \<le> i" by linarith
  then show ?thesis
    by cases (use le b assms(2) in \<open>auto simp: nth_append min_def\<close>)
qed

lemma store_at_slice:
  "store_at buf off src = Some b \<Longrightarrow> take (length src) (drop off b) = src"
  by (auto simp: store_at_def min_def split: if_splits)

subsection \<open>Strings\<close>

text \<open>What \<open>strlen\<close> and \<open>memcpy\<close> see of a \<open>std::string\<close> through \<open>c_str\<close>: the bytes up to the
  first NUL.\<close>

definition c_str :: "string \<Rightarrow> string" where
  "c_str s = takeWhile (\<lambda>c. c \<noteq> CHR 0x00) s"

definition bytes_of :: "string \<Rightarrow> u8 list" where
  "bytes_of s = map of_char s"

lemma length_bytes_of [simp]: "length (bytes_of s) = length s"
  by (simp add: bytes_of_def)

text \<open>\<open>std::string::find (const char *)\<close>: the position of the first occurrence, \<open>None\<close> for
  \<open>npos\<close>.\<close>

fun starts_with :: "'a list \<Rightarrow> 'a list \<Rightarrow> bool" where
  "starts_with [] ys = True"
| "starts_with (x # xs) [] = False"
| "starts_with (x # xs) (y # ys) = (x = y \<and> starts_with xs ys)"

fun str_find :: "'a list \<Rightarrow> 'a list \<Rightarrow> nat option" where
  "str_find hay needle =
     (if starts_with needle hay then Some 0
      else case hay of [] \<Rightarrow> None | _ # t \<Rightarrow> map_option Suc (str_find t needle))"

declare str_find.simps [simp del]

lemma starts_with_iff: "starts_with xs ys \<longleftrightarrow> (\<exists>zs. ys = xs @ zs)"
  by (induction xs ys rule: starts_with.induct) auto

text \<open>\<open>find\<close> reports something other than \<open>npos\<close> exactly when the needle occurs.\<close>

lemma str_find_None_iff: "str_find hay needle = None \<longleftrightarrow> (\<nexists>us vs. hay = us @ needle @ vs)"
proof (induction hay)
  case Nil
  then show ?case by (subst str_find.simps) (auto simp: starts_with_iff)
next
  case (Cons h t)
  show ?case
  proof (cases "starts_with needle (h # t)")
    case True
    then have "str_find (h # t) needle \<noteq> None" by (subst str_find.simps) simp
    moreover from True have "\<exists>us vs. h # t = us @ needle @ vs"
      unfolding starts_with_iff by (metis append_Nil)
    ultimately show ?thesis by blast
  next
    case False
    then have "str_find (h # t) needle = None \<longleftrightarrow> str_find t needle = None"
      by (subst str_find.simps) simp
    also have "\<dots> \<longleftrightarrow> (\<nexists>us vs. t = us @ needle @ vs)" by (rule Cons.IH)
    also have "\<dots> \<longleftrightarrow> (\<nexists>us vs. h # t = us @ needle @ vs)"
    proof -
      have "(\<exists>us vs. h # t = us @ needle @ vs) \<longleftrightarrow> (\<exists>us vs. t = us @ needle @ vs)"
      proof
        assume "\<exists>us vs. h # t = us @ needle @ vs"
        then obtain us vs where eq: "h # t = us @ needle @ vs" by blast
        with False have "us \<noteq> []" by (auto simp: starts_with_iff)
        then obtain u us' where "us = u # us'" by (cases us) auto
        with eq show "\<exists>us vs. t = us @ needle @ vs" by auto
      next
        assume "\<exists>us vs. t = us @ needle @ vs"
        then show "\<exists>us vs. h # t = us @ needle @ vs" by (metis append_Cons)
      qed
      then show ?thesis by blast
    qed
    finally show ?thesis .
  qed
qed

text \<open>\<open>std::string::find (char, size_t)\<close> and \<open>std::string::find_last_of (char)\<close>.\<close>

fun find_char :: "'a \<Rightarrow> 'a list \<Rightarrow> nat option" where
  "find_char c [] = None"
| "find_char c (x # xs) = (if x = c then Some 0 else map_option Suc (find_char c xs))"

definition find_char_from :: "'a list \<Rightarrow> 'a \<Rightarrow> nat \<Rightarrow> nat option" where
  "find_char_from s c pos = map_option (\<lambda>i. pos + i) (find_char c (drop pos s))"

definition find_last_of :: "'a list \<Rightarrow> 'a \<Rightarrow> nat option" where
  "find_last_of s c = map_option (\<lambda>i. length s - 1 - i) (find_char c (rev s))"

lemma find_char_Some:
  "find_char c xs = Some i \<Longrightarrow> i < length xs \<and> xs ! i = c \<and> (\<forall>j<i. xs ! j \<noteq> c)"
proof (induction xs arbitrary: i)
  case (Cons x xs)
  show ?case
  proof (cases "x = c")
    case False
    with Cons.prems obtain k where k: "find_char c xs = Some k" and i: "i = Suc k" by auto
    from Cons.IH [OF k] i False show ?thesis
      by (auto simp: nth_Cons split: nat.splits)
  qed (use Cons.prems in auto)
qed simp

lemma find_char_None: "find_char c xs = None \<longleftrightarrow> c \<notin> set xs"
  by (induction xs) auto

lemma find_char_from_Some:
  assumes "find_char_from s c pos = Some i"
  shows "pos \<le> i \<and> i < length s \<and> s ! i = c \<and> (\<forall>j. pos \<le> j \<longrightarrow> j < i \<longrightarrow> s ! j \<noteq> c)"
proof -
  from assms obtain k where k: "find_char c (drop pos s) = Some k" and i: "i = pos + k"
    by (auto simp: find_char_from_def)
  from find_char_Some [OF k] have k': "k < length (drop pos s)" "drop pos s ! k = c"
    "\<forall>j<k. drop pos s ! j \<noteq> c" by auto
  have "s ! j \<noteq> c" if "pos \<le> j" "j < i" for j
  proof -
    from that i have "j - pos < k" by linarith
    with k'(3) have "drop pos s ! (j - pos) \<noteq> c" by blast
    with that k'(1) i show ?thesis by simp
  qed
  with k' i show ?thesis by auto
qed

subsection \<open>First match\<close>

text \<open>A loop with \<open>break\<close> at the first element that satisfies a test; the result is the position,
  which stands for the pointer the code returns.\<close>

fun first_index :: "('a \<Rightarrow> bool) \<Rightarrow> 'a list \<Rightarrow> nat option" where
  "first_index P [] = None"
| "first_index P (x # xs) = (if P x then Some 0 else map_option Suc (first_index P xs))"

lemma first_index_None: "first_index P xs = None \<longleftrightarrow> (\<forall>x\<in>set xs. \<not> P x)"
  by (induction xs) auto

lemma first_index_Some:
  "first_index P xs = Some i \<longleftrightarrow> i < length xs \<and> P (xs ! i) \<and> (\<forall>j<i. \<not> P (xs ! j))"
proof (induction xs arbitrary: i)
  case (Cons x xs)
  show ?case
  proof (cases i)
    case 0
    then show ?thesis by auto
  next
    case (Suc k)
    then show ?thesis using Cons.IH [of k]
      by (auto simp: All_less_Suc2)
  qed
qed simp

text \<open>Case analysis on a first-match search: nothing matches, or the first match splits the list.\<close>

lemma first_index_case:
  assumes "(\<And>x. x \<in> set xs \<Longrightarrow> \<not> P x) \<Longrightarrow> Q None"
    and "\<And>i. i < length xs \<Longrightarrow> P (xs ! i) \<Longrightarrow> (\<And>x. x \<in> set (take i xs) \<Longrightarrow> \<not> P x) \<Longrightarrow> Q (Some i)"
  shows "Q (first_index P xs)"
proof (cases "first_index P xs")
  case None
  then have "\<not> P x" if "x \<in> set xs" for x using that by (auto simp: first_index_None)
  with assms(1) None show ?thesis by simp
next
  case (Some i)
  then have i: "i < length xs" "P (xs ! i)" "\<forall>j<i. \<not> P (xs ! j)" by (auto simp: first_index_Some)
  then have "\<not> P x" if "x \<in> set (take i xs)" for x
    using that by (auto simp: in_set_conv_nth)
  with assms(2) i Some show ?thesis by simp
qed

lemma first_index_append:
  "first_index P (xs @ ys) =
     (case first_index P xs of Some i \<Rightarrow> Some i
      | None \<Rightarrow> map_option (\<lambda>i. length xs + i) (first_index P ys))"
  by (induction xs) (auto split: option.splits simp: map_option_case)

subsection \<open>Big-endian bytes\<close>

text \<open>The four shifts with which the code lays a 32-bit value out, most significant byte first.\<close>

definition be_bytes :: "u32 \<Rightarrow> u8 list" where
  "be_bytes w =
     [ucast (drop_bit 24 w AND 0xff), ucast (drop_bit 16 w AND 0xff),
      ucast (drop_bit 8 w AND 0xff), ucast (w AND 0xff)]"

definition be_value :: "u8 list \<Rightarrow> u32" where
  "be_value bs = foldl (\<lambda>acc b. push_bit 8 acc OR ucast b) 0 bs"

lemma length_be_bytes [simp]: "length (be_bytes w) = 4"
  by (simp add: be_bytes_def)

lemma be_bytes_mask:
  "be_bytes w =
     [ucast (drop_bit 24 w AND mask 8), ucast (drop_bit 16 w AND mask 8),
      ucast (drop_bit 8 w AND mask 8), ucast (w AND mask 8)]"
  by (simp add: be_bytes_def mask_eq_exp_minus_1)

lemma be_value_be_bytes: "be_value (be_bytes w) = w"
proof (rule bit_word_eqI)
  fix n
  assume "n < LENGTH(32)"
  then have "n < 8 \<or> 8 \<le> n \<and> n < 16 \<or> 16 \<le> n \<and> n < 24 \<or> 24 \<le> n \<and> n < 32" by auto
  then show "bit (be_value (be_bytes w)) n = bit w n"
    by (elim disjE) (auto simp: be_value_def be_bytes_mask bit_simps)
qed

end
