(* ===== verification/Externals.thy ===== *)
theory Externals
  imports Prelude
begin

text \<open>
  The libraries the daemon links against are not part of the repository (the \<open>vscp\<close> submodule
  with \<open>cguid\<close>, \<open>vscpClientMqtt\<close> and the \<open>vscp_\<close> helper functions, \<open>nlohmann::json\<close>, \<open>mustache\<close>,
  \<open>mosquitto\<close>, \<open>sqlite3\<close>). Each is a record of the operations the daemon calls, over a type
  variable for the library's own data, and every definition takes the records it needs as
  arguments. What the daemon relies on is stated by the law predicates of this theory; a theorem
  that needs a law names it as a hypothesis.
\<close>

subsection \<open>VSCP events\<close>

text \<open>
  The fields of \<open>vscpEvent\<close> and \<open>vscpEventEx\<close> that the daemon reads or writes, at their widths.
  \<open>ev_pdata\<close> is the heap block \<open>pdata\<close> points to, \<open>ex_data\<close> the embedded data array. Nothing in
  the development depends on whether the header overlays the date block with the nanosecond stamp:
  after \<open>timestamp_ns\<close> is written no statement reads the day, the time or the microsecond stamp.
\<close>

record vscp_event =
  ev_obid :: u32
  ev_head :: u16
  ev_year :: u16
  ev_month :: u8
  ev_day :: u8
  ev_hour :: u8
  ev_minute :: u8
  ev_second :: u8
  ev_timestamp :: u32
  ev_timestamp_ns :: u64
  ev_vscp_class :: u16
  ev_vscp_type :: u16
  ev_GUID :: "u8 list"
  ev_sizeData :: u16
  ev_pdata :: "u8 list"

record vscp_event_ex =
  ex_obid :: u32
  ex_head :: u16
  ex_year :: u16
  ex_month :: u8
  ex_day :: u8
  ex_hour :: u8
  ex_minute :: u8
  ex_second :: u8
  ex_timestamp :: u32
  ex_vscp_class :: u16
  ex_vscp_type :: u16
  ex_GUID :: "u8 list"
  ex_sizeData :: u16
  ex_data :: "u8 list"

text \<open>The date block of an event, and what \<open>vscp_setEventExToNow\<close> may do: it is given the whole event and
  sets the date block to the current time, the same whatever the event holds, and nothing else.\<close>

definition ex_date :: "vscp_event_ex \<Rightarrow> u16 \<times> u8 \<times> u8 \<times> u8 \<times> u8 \<times> u8" where
  "ex_date ex = (ex_year ex, ex_month ex, ex_day ex, ex_hour ex, ex_minute ex, ex_second ex)"

definition sets_now :: "(vscp_event_ex \<Rightarrow> vscp_event_ex) \<Rightarrow> bool" where
  "sets_now f \<longleftrightarrow>
     (\<exists>y mo d h mi s. \<forall>ex. f ex = ex\<lparr>ex_year := y, ex_month := mo, ex_day := d, ex_hour := h,
        ex_minute := mi, ex_second := s\<rparr>)"

lemma sets_nowD:
  assumes "sets_now f"
  shows "ex_obid (f ex) = ex_obid ex" and "ex_head (f ex) = ex_head ex"
    and "ex_timestamp (f ex) = ex_timestamp ex" and "ex_vscp_class (f ex) = ex_vscp_class ex"
    and "ex_vscp_type (f ex) = ex_vscp_type ex" and "ex_GUID (f ex) = ex_GUID ex"
    and "ex_sizeData (f ex) = ex_sizeData ex" and "ex_data (f ex) = ex_data ex"
    and "ex_date (f ex) = ex_date (f ex')"
  using assms by (auto simp: sets_now_def ex_date_def)

text \<open>\<open>memset (&ev, 0, sizeof (vscpEvent))\<close>: every field zero, the data pointer null.\<close>

definition zero_event :: vscp_event where
  "zero_event =
     \<lparr>ev_obid = 0, ev_head = 0, ev_year = 0, ev_month = 0, ev_day = 0, ev_hour = 0,
      ev_minute = 0, ev_second = 0, ev_timestamp = 0, ev_timestamp_ns = 0, ev_vscp_class = 0,
      ev_vscp_type = 0, ev_GUID = replicate 16 0, ev_sizeData = 0, ev_pdata = []\<rparr>"

text \<open>The data block is as long as the size field says, and the GUID has its 16 bytes.\<close>

definition event_ok :: "vscp_event \<Rightarrow> bool" where
  "event_ok ev \<longleftrightarrow> length (ev_pdata ev) = unat (ev_sizeData ev) \<and> length (ev_GUID ev) = 16"

lemma event_ok_zero: "event_ok zero_event"
  by (simp add: event_ok_def zero_event_def)

subsection \<open>\<open>cguid\<close>\<close>

record 'g guid_api =
  g_default :: "'g"
  g_clear :: "'g \<Rightarrow> 'g"
  g_set_at :: "'g \<Rightarrow> u8 \<Rightarrow> u8 \<Rightarrow> 'g"
  g_get_at :: "'g \<Rightarrow> u8 \<Rightarrow> u8"
  g_is_null :: "'g \<Rightarrow> bool"
  g_eq :: "'g \<Rightarrow> 'g \<Rightarrow> bool"
  g_from_string :: "'g \<Rightarrow> string \<Rightarrow> 'g"
  g_of_string :: "string \<Rightarrow> 'g"
  g_of_bytes :: "u8 list \<Rightarrow> 'g"
  g_to_string :: "'g \<Rightarrow> string"
  g_bytes :: "'g \<Rightarrow> u8 list"

text \<open>
  What the class reference (\<open>docs/cguid_class.md\<close>) documents: a GUID is an array of 16 bytes,
  positions are masked with \<open>0x0F\<close>, \<open>clear\<close> zeroes it, \<open>isNULL\<close> tests for all zeroes, equality
  compares the bytes, and the string form shows every byte, so equal strings come from equal bytes.
\<close>

definition guid_laws :: "'g guid_api \<Rightarrow> bool" where
  "guid_laws G \<longleftrightarrow>
     (\<forall>g. length (g_bytes G g) = 16) \<and>
     (\<forall>g. g_bytes G (g_clear G g) = replicate 16 0) \<and>
     (\<forall>g i v. g_bytes G (g_set_at G g i v) = (g_bytes G g)[unat (i AND 0x0F) := v]) \<and>
     (\<forall>g i. g_get_at G g i = g_bytes G g ! unat (i AND 0x0F)) \<and>
     (\<forall>g. g_is_null G g \<longleftrightarrow> g_bytes G g = replicate 16 0) \<and>
     (\<forall>g h. g_eq G g h \<longleftrightarrow> g_bytes G g = g_bytes G h) \<and>
     (\<forall>bs. length bs = 16 \<longrightarrow> g_bytes G (g_of_bytes G bs) = bs) \<and>
     (\<forall>g h. g_to_string G g = g_to_string G h \<longleftrightarrow> g_bytes G g = g_bytes G h)"

lemma guid_lawsD:
  assumes "guid_laws G"
  shows "length (g_bytes G g) = 16"
    and "g_bytes G (g_clear G g) = replicate 16 0"
    and "g_bytes G (g_set_at G g i v) = (g_bytes G g)[unat (i AND 0x0F) := v]"
    and "g_get_at G g i = g_bytes G g ! unat (i AND 0x0F)"
    and "g_is_null G g \<longleftrightarrow> g_bytes G g = replicate 16 0"
    and "g_eq G g h \<longleftrightarrow> g_bytes G g = g_bytes G h"
    and "length bs = 16 \<Longrightarrow> g_bytes G (g_of_bytes G bs) = bs"
    and "g_to_string G g = g_to_string G h \<longleftrightarrow> g_bytes G g = g_bytes G h"
  using assms by (auto simp: guid_laws_def)

subsection \<open>\<open>nlohmann::json\<close>\<close>

text \<open>
  \<open>JsonTypeError\<close> is an exception the library throws (a \<open>catch (...)\<close> of the daemon stops it);
  \<open>JsonUndefined\<close> is the undefined behaviour of \<open>operator[]\<close> on a constant object without the key
  (an assertion failure in a debug build), which no \<open>catch\<close> sees.
\<close>

datatype json_exn = JsonTypeError | JsonUndefined

record 'j json_api =
  js_null :: "'j"
  js_contains :: "'j \<Rightarrow> string \<Rightarrow> bool"
  js_at :: "'j \<Rightarrow> string \<Rightarrow> json_exn + 'j"        \<comment> \<open>\<open>operator[]\<close> on a constant value\<close>
  js_index :: "'j \<Rightarrow> string \<Rightarrow> json_exn + 'j"     \<comment> \<open>\<open>operator[]\<close> on a mutable value\<close>
  js_is_object :: "'j \<Rightarrow> bool"
  js_is_string :: "'j \<Rightarrow> bool"
  js_is_number :: "'j \<Rightarrow> bool"
  js_value_bool :: "'j \<Rightarrow> string \<Rightarrow> bool \<Rightarrow> json_exn + bool"
  js_get_string :: "'j \<Rightarrow> json_exn + string"
  js_get_bool :: "'j \<Rightarrow> json_exn + bool"
  js_get_u32 :: "'j \<Rightarrow> json_exn + u32"
  js_get_u16 :: "'j \<Rightarrow> json_exn + u16"
  js_get_u8 :: "'j \<Rightarrow> json_exn + u8"
  js_elems :: "'j \<Rightarrow> 'j list"                     \<comment> \<open>\<open>begin () .. end ()\<close>\<close>
  js_dump :: "'j \<Rightarrow> string"
  js_dump_pairs :: "(string \<times> string) list \<Rightarrow> string"  \<comment> \<open>\<open>dump\<close> of an object built by assignments\<close>

text \<open>
  Documented behaviour: \<open>contains\<close> is true only for a present key, where both forms of
  \<open>operator[]\<close> return the value; on an object without the key the constant form is undefined and
  the mutable form yields null; on a value that is no object both throw (the mutable form turns
  null into an object); getters succeed on the type the matching test accepts and throw otherwise.
\<close>

definition json_laws :: "'j json_api \<Rightarrow> bool" where
  "json_laws J \<longleftrightarrow>
     (\<forall>j k. js_contains J j k \<longrightarrow>
        js_is_object J j \<and> (\<exists>v. js_at J j k = Inr v \<and> js_index J j k = Inr v)) \<and>
     (\<forall>j k. \<not> js_contains J j k \<longrightarrow> js_is_object J j \<longrightarrow>
        js_at J j k = Inl JsonUndefined \<and> js_index J j k = Inr (js_null J)) \<and>
     (\<forall>j k. \<not> js_is_object J j \<longrightarrow> js_at J j k = Inl JsonTypeError) \<and>
     (\<forall>j. js_is_string J j \<longrightarrow> (\<exists>s. js_get_string J j = Inr s)) \<and>
     (\<forall>j. \<not> js_is_string J j \<longrightarrow> js_get_string J j = Inl JsonTypeError) \<and>
     (\<forall>j e. js_get_bool J j = Inl e \<longrightarrow> e = JsonTypeError) \<and>
     (\<forall>j e. js_get_u32 J j = Inl e \<longrightarrow> e = JsonTypeError) \<and>
     (\<forall>j e. js_get_u16 J j = Inl e \<longrightarrow> e = JsonTypeError) \<and>
     (\<forall>j e. js_get_u8 J j = Inl e \<longrightarrow> e = JsonTypeError)"

lemma json_lawsD:
  assumes "json_laws J"
  shows "js_contains J j k \<Longrightarrow> \<exists>v. js_at J j k = Inr v \<and> js_index J j k = Inr v"
    and "js_contains J j k \<Longrightarrow> js_is_object J j"
    and "\<not> js_contains J j k \<Longrightarrow> js_is_object J j \<Longrightarrow> js_at J j k = Inl JsonUndefined"
    and "\<not> js_contains J j k \<Longrightarrow> js_is_object J j \<Longrightarrow> js_index J j k = Inr (js_null J)"
    and "js_is_string J j \<Longrightarrow> \<exists>s. js_get_string J j = Inr s"
    and "\<not> js_is_string J j \<Longrightarrow> js_get_string J j = Inl JsonTypeError"
    and "js_get_string J j \<noteq> Inl JsonUndefined"
    and "js_get_bool J j \<noteq> Inl JsonUndefined"
    and "js_get_u32 J j \<noteq> Inl JsonUndefined"
    and "js_get_u16 J j \<noteq> Inl JsonUndefined"
    and "js_get_u8 J j \<noteq> Inl JsonUndefined"
  using assms unfolding json_laws_def
  by (blast, blast, blast, blast, blast, blast, (cases "js_is_string J j"; fastforce),
      fastforce, fastforce, fastforce, fastforce)

subsection \<open>The MQTT client, mosquitto, sqlite and the VSCP helpers\<close>

text \<open>One \<open>mosquitto_publish\<close> call: topic, payload, quality of service, retain flag.\<close>

record publish =
  pub_topic :: string
  pub_payload :: string
  pub_qos :: nat
  pub_retain :: bool

text \<open>A boolean result is \<open>True\<close> for the library's success code.\<close>

record ('g, 'm) mqtt_api =
  mc_default :: "'m"
  mc_init_json :: "'m \<Rightarrow> string \<Rightarrow> bool \<times> 'm"
  mc_set_srv_guid :: "'m \<Rightarrow> 'g \<Rightarrow> 'm"
  mc_set_if_guid :: "'m \<Rightarrow> 'g \<Rightarrow> 'm"
  mc_set_user_escape :: "'m \<Rightarrow> string \<Rightarrow> string \<Rightarrow> 'm"
  mc_set_token_maps :: "'m \<Rightarrow> (u16 \<rightharpoonup> string) \<Rightarrow> (u32 \<rightharpoonup> string) \<Rightarrow> 'm"
  mc_set_callback_ev :: "'m \<Rightarrow> 'm"
  mc_connect :: "'m \<Rightarrow> bool \<times> 'm"
  mc_disconnect :: "'m \<Rightarrow> 'm"
  mc_send :: "'m \<Rightarrow> vscp_event \<Rightarrow> bool \<times> 'm"
  mc_send_ex :: "'m \<Rightarrow> vscp_event_ex \<Rightarrow> bool \<times> 'm"
  mosq_publish :: "'m \<Rightarrow> publish \<Rightarrow> bool \<times> 'm"

record 'c vscp_api =
  vs_canal_to_event :: "vscp_event \<Rightarrow> 'c \<Rightarrow> u8 list \<Rightarrow> bool \<times> vscp_event"
  vs_event_to_canal :: "vscp_event \<Rightarrow> 'c option"
  vs_meas_to_double :: "vscp_event \<Rightarrow> vscp_event"
  vs_meas_to_string :: "vscp_event \<Rightarrow> vscp_event"
  vs_to_unix_ns :: "u16 \<Rightarrow> u8 \<Rightarrow> u8 \<Rightarrow> u8 \<Rightarrow> u8 \<Rightarrow> u8 \<Rightarrow> u32 \<Rightarrow> int"
  vs_frame_mask :: u16     \<comment> \<open>\<open>VSCP_HEADER16_FRAME_VERSION_MASK\<close>\<close>
  vs_frame_unix_ns :: u16  \<comment> \<open>\<open>VSCP_HEADER16_FRAME_VERSION_UNIX_NS\<close>\<close>

text \<open>The frame version is a field of the header: the value lies inside the mask.\<close>

definition frame_laws :: "'c vscp_api \<Rightarrow> bool" where
  "frame_laws V \<longleftrightarrow> vs_frame_unix_ns V AND vs_frame_mask V = vs_frame_unix_ns V"

text \<open>Arguments of the \<open>printf\<close>-style helper \<open>vscp_str_format\<close>, and of the template engine.\<close>

datatype fmt_arg = FStr string | FInt int | FUInt u32

type_synonym str_format = "string \<Rightarrow> fmt_arg list \<Rightarrow> string"
type_synonym render = "string \<Rightarrow> (string \<times> string) list \<Rightarrow> string"

end
