(* ===== verification/Instances.thy ===== *)
theory Instances
  imports Externals
begin

text \<open>
  Concrete libraries that satisfy the law predicates of \<open>Externals\<close>: 16-byte GUIDs as byte lists, a
  JSON data type, an MQTT client that records what it is told, a driver interface whose CANAL
  message is a byte list. They show that the laws can hold together and are what the witnesses of
  the properties evaluate; no definition of the daemon depends on them.
\<close>

subsection \<open>GUIDs\<close>

definition guid0_norm :: "u8 list \<Rightarrow> u8 list" where
  "guid0_norm bs = take 16 (bs @ replicate 16 0)"

definition guid0 :: "u8 list guid_api" where
  "guid0 =
     \<lparr>g_default = replicate 16 0,
      g_clear = (\<lambda>_. replicate 16 0),
      g_set_at = (\<lambda>g i v. (guid0_norm g)[unat (i AND 0x0F) := v]),
      g_get_at = (\<lambda>g i. guid0_norm g ! unat (i AND 0x0F)),
      g_is_null = (\<lambda>g. guid0_norm g = replicate 16 0),
      g_eq = (\<lambda>g h. guid0_norm g = guid0_norm h),
      g_from_string = (\<lambda>_ s. guid0_norm (bytes_of s)),
      g_of_string = (\<lambda>s. guid0_norm (bytes_of s)),
      g_of_bytes = guid0_norm,
      g_to_string = (\<lambda>g. map (\<lambda>b. char_of (unat b)) (guid0_norm g)),
      g_bytes = guid0_norm\<rparr>"

lemma length_guid0_norm [simp]: "length (guid0_norm g) = 16"
  by (simp add: guid0_norm_def)

lemma guid0_norm_id [simp]: "length g = 16 \<Longrightarrow> guid0_norm g = g"
  by (simp add: guid0_norm_def)

lemma char_of_u8_inj: "char_of (unat a) = char_of (unat b) \<longleftrightarrow> a = b" for a b :: u8
proof
  have lt: "unat x < 256" for x :: u8 using unsigned_less [of x, where 'a = nat] by simp
  assume "char_of (unat a) = (char_of (unat b) :: char)"
  then have "(of_char (char_of (unat a)) :: nat) = of_char (char_of (unat b) :: char)" by simp
  with lt [of a] lt [of b] show "a = b" by (simp add: word_unat_eq_iff)
qed simp

lemma guid0_string_inj:
  "map (\<lambda>b :: u8. char_of (unat b) :: char) xs = map (\<lambda>b. char_of (unat b)) ys \<longleftrightarrow> xs = ys"
  by (intro inj_map_eq_map injI) (simp only: char_of_u8_inj)

lemma guid0_laws: "guid_laws guid0"
  unfolding guid_laws_def guid0_def guid_api.simps guid0_string_inj by simp

subsection \<open>JSON\<close>

datatype jv = JNull | JBool bool | JNum int | JStr string | JArr "jv list" | JObj "(string \<times> jv) list"

fun jv_lookup :: "jv \<Rightarrow> string \<Rightarrow> jv option" where
  "jv_lookup (JObj kvs) k = map_of kvs k"
| "jv_lookup _ k = None"

fun jv_is_object :: "jv \<Rightarrow> bool" where
  "jv_is_object (JObj kvs) = True"
| "jv_is_object _ = False"

fun jv_is_null :: "jv \<Rightarrow> bool" where
  "jv_is_null JNull = True"
| "jv_is_null _ = False"

fun jv_string :: "jv \<Rightarrow> json_exn + string" where
  "jv_string (JStr s) = Inr s"
| "jv_string _ = Inl JsonTypeError"

fun jv_num :: "jv \<Rightarrow> json_exn + int" where
  "jv_num (JNum n) = Inr n"
| "jv_num _ = Inl JsonTypeError"

fun jv_bool :: "jv \<Rightarrow> json_exn + bool" where
  "jv_bool (JBool b) = Inr b"
| "jv_bool _ = Inl JsonTypeError"

fun jv_elems :: "jv \<Rightarrow> jv list" where
  "jv_elems (JArr xs) = xs"
| "jv_elems (JObj kvs) = map snd kvs"
| "jv_elems JNull = []"
| "jv_elems v = [v]"

definition num_as :: "jv \<Rightarrow> json_exn + 'a::len word" where
  "num_as v = (case jv_num v of Inl e \<Rightarrow> Inl e | Inr n \<Rightarrow> Inr (word_of_int n))"

definition json0 :: "jv json_api" where
  "json0 =
     \<lparr>js_null = JNull,
      js_contains = (\<lambda>j k. jv_lookup j k \<noteq> None),
      js_at = (\<lambda>j k. case jv_lookup j k of Some v \<Rightarrow> Inr v
                     | None \<Rightarrow> Inl (if jv_is_object j then JsonUndefined else JsonTypeError)),
      js_index = (\<lambda>j k. case jv_lookup j k of Some v \<Rightarrow> Inr v
                     | None \<Rightarrow> if jv_is_object j \<or> jv_is_null j then Inr JNull else Inl JsonTypeError),
      js_is_object = jv_is_object,
      js_is_string = (\<lambda>v. case jv_string v of Inl _ \<Rightarrow> False | Inr _ \<Rightarrow> True),
      js_is_number = (\<lambda>v. case jv_num v of Inl _ \<Rightarrow> False | Inr _ \<Rightarrow> True),
      js_value_bool = (\<lambda>j k d. if \<not> jv_is_object j then Inl JsonTypeError
                     else case jv_lookup j k of None \<Rightarrow> Inr d | Some v \<Rightarrow> jv_bool v),
      js_get_string = jv_string, js_get_bool = jv_bool,
      js_get_u32 = num_as, js_get_u16 = num_as, js_get_u8 = num_as,
      js_elems = jv_elems, js_dump = (\<lambda>_. ''{}''),
      js_dump_pairs = (\<lambda>kvs. concat (map (\<lambda>(k, v). k @ ''='' @ v @ '';'') kvs))\<rparr>"

lemma jv_lookup_object: "jv_lookup j k = Some v \<Longrightarrow> jv_is_object j"
  by (cases j) auto

lemma jv_lookup_no_object [simp]: "\<not> jv_is_object j \<Longrightarrow> jv_lookup j k = None"
  by (cases j) auto

lemma jv_string_exn: "jv_string v = Inl e \<Longrightarrow> e = JsonTypeError"
  by (cases v) auto

lemma jv_num_exn: "jv_num v = Inl e \<Longrightarrow> e = JsonTypeError"
  by (cases v) auto

lemma jv_bool_exn: "jv_bool v = Inl e \<Longrightarrow> e = JsonTypeError"
  by (cases v) auto

lemma num_as_exn: "num_as v = Inl e \<Longrightarrow> e = JsonTypeError"
  by (auto simp: num_as_def dest: jv_num_exn split: sum.splits)

lemma json0_laws: "json_laws json0"
  unfolding json_laws_def json0_def json_api.simps
  by (intro conjI allI impI;
      auto dest: jv_lookup_object jv_string_exn jv_num_exn jv_bool_exn num_as_exn
           split: option.splits sum.splits)

subsection \<open>The MQTT client and the VSCP helpers\<close>

text \<open>The client's state is the number of calls it has received; every call succeeds.\<close>

definition mqtt0 :: "('g, nat) mqtt_api" where
  "mqtt0 =
     \<lparr>mc_default = 0, mc_init_json = (\<lambda>m _. (True, Suc m)), mc_set_srv_guid = (\<lambda>m _. Suc m),
      mc_set_if_guid = (\<lambda>m _. Suc m), mc_set_user_escape = (\<lambda>m _ _. Suc m),
      mc_set_token_maps = (\<lambda>m _ _. Suc m), mc_set_callback_ev = Suc,
      mc_connect = (\<lambda>m. (True, Suc m)), mc_disconnect = Suc, mc_send = (\<lambda>m _. (True, Suc m)),
      mc_send_ex = (\<lambda>m _. (True, Suc m)), mosq_publish = (\<lambda>m _. (True, Suc m))\<rparr>"

definition vscp0 :: "u8 list vscp_api" where
  "vscp0 =
     \<lparr>vs_canal_to_event =
        (\<lambda>ev msg guid. (True, ev\<lparr>ev_GUID := guid, ev_sizeData := of_nat (length msg), ev_pdata := msg\<rparr>)),
      vs_event_to_canal = (\<lambda>ev. Some (ev_pdata ev)),
      vs_meas_to_double = (\<lambda>ev. ev\<lparr>ev_vscp_class := 1040\<rparr>),
      vs_meas_to_string = (\<lambda>ev. ev\<lparr>ev_vscp_class := 1040\<rparr>),
      vs_to_unix_ns = (\<lambda>y mo d h mi s us. uint y * 1000 + uint us),
      vs_frame_mask = 0x700, vs_frame_unix_ns = 0x100\<rparr>"

lemma vscp0_laws: "frame_laws vscp0"
  by (simp add: frame_laws_def vscp0_def)

text \<open>A formatter that prints the template and then its arguments, a template engine that leaves the
  template as it is.\<close>

fun show_arg :: "fmt_arg \<Rightarrow> string" where
  "show_arg (FStr s) = s"
| "show_arg (FInt i) = (if i = 0 then ''0'' else ''#'')"
| "show_arg (FUInt w) = (if w = 0 then ''0'' else ''#'')"

definition fmt0 :: str_format where
  "fmt0 t args = t @ concat (map show_arg args)"

definition render0 :: render where
  "render0 t keys = t"

lemmas [lib_simps] = fmt0_def render0_def num_as_def

lemma guid0_sel [lib_simps]:
  "g_default guid0 = replicate 16 0" "g_clear guid0 g = replicate 16 0"
  "g_set_at guid0 g i v = (guid0_norm g)[unat (i AND 0x0F) := v]"
  "g_get_at guid0 g i = guid0_norm g ! unat (i AND 0x0F)"
  "g_is_null guid0 g \<longleftrightarrow> guid0_norm g = replicate 16 0"
  "g_of_string guid0 s = guid0_norm (bytes_of s)"
  "g_of_bytes guid0 bs = guid0_norm bs" "g_bytes guid0 g = guid0_norm g"
  "g_to_string guid0 g = map (\<lambda>b. char_of (unat b)) (guid0_norm g)"
  by (simp_all add: guid0_def)

lemma json0_sel [lib_simps]:
  "js_null json0 = JNull"
  "js_contains json0 j k \<longleftrightarrow> jv_lookup j k \<noteq> None"
  "js_at json0 j k = (case jv_lookup j k of Some v \<Rightarrow> Inr v
     | None \<Rightarrow> Inl (if jv_is_object j then JsonUndefined else JsonTypeError))"
  "js_index json0 j k = (case jv_lookup j k of Some v \<Rightarrow> Inr v
     | None \<Rightarrow> if jv_is_object j \<or> jv_is_null j then Inr JNull else Inl JsonTypeError)"
  "js_is_object json0 = jv_is_object"
  "js_is_string json0 v = (case jv_string v of Inl _ \<Rightarrow> False | Inr _ \<Rightarrow> True)"
  "js_is_number json0 v = (case jv_num v of Inl _ \<Rightarrow> False | Inr _ \<Rightarrow> True)"
  "js_value_bool json0 j k d = (if \<not> jv_is_object j then Inl JsonTypeError
     else case jv_lookup j k of None \<Rightarrow> Inr d | Some v \<Rightarrow> jv_bool v)"
  "js_get_string json0 = jv_string" "js_get_bool json0 = jv_bool"
  "js_get_u32 json0 = num_as" "js_get_u16 json0 = num_as" "js_get_u8 json0 = num_as"
  "js_elems json0 = jv_elems" "js_dump json0 v = ''{}''"
  by (simp_all add: json0_def)

lemma mqtt0_sel [lib_simps]:
  "mc_default mqtt0 = 0" "mc_init_json mqtt0 m s = (True, Suc m)"
  "mc_set_srv_guid mqtt0 m g = Suc m" "mc_set_if_guid mqtt0 m g = Suc m"
  "mc_set_user_escape mqtt0 m k v = Suc m" "mc_set_token_maps mqtt0 m a b = Suc m"
  "mc_set_callback_ev mqtt0 = Suc" "mc_connect mqtt0 m = (True, Suc m)"
  "mc_disconnect mqtt0 = Suc" "mc_send mqtt0 m ev = (True, Suc m)"
  "mc_send_ex mqtt0 m ex = (True, Suc m)" "mosq_publish mqtt0 m p = (True, Suc m)"
  by (simp_all add: mqtt0_def)

lemma vscp0_sel [lib_simps]:
  "vs_canal_to_event vscp0 ev msg g =
     (True, ev\<lparr>ev_GUID := g, ev_sizeData := of_nat (length msg), ev_pdata := msg\<rparr>)"
  "vs_event_to_canal vscp0 ev = Some (ev_pdata ev)"
  "vs_meas_to_double vscp0 ev = ev\<lparr>ev_vscp_class := 1040\<rparr>"
  "vs_meas_to_string vscp0 ev = ev\<lparr>ev_vscp_class := 1040\<rparr>"
  "vs_to_unix_ns vscp0 y mo d h mi s us = uint y * 1000 + uint us"
  "vs_frame_mask vscp0 = 0x700" "vs_frame_unix_ns vscp0 = 0x100"
  by (simp_all add: vscp0_def)

end
