(* ===== verification/DeviceItem.thy ===== *)
theory DeviceItem
  imports Instances
begin

text \<open>
  \<open>CDeviceItem\<close> (\<open>devicelist.h\<close>, \<open>devicelist.cpp\<close>): the state of one driver, its constructor, the
  two textual forms, and the calls that start, stop, pause and resume it. The locale
  \<open>driver_control\<close> is the contract the control object relies on when it starts and stops all
  drivers; it is interpreted on the operations of this theory.
\<close>

subsection \<open>State\<close>

text \<open>The function pointers a driver library is bound to; address 0 is the null pointer.\<close>

datatype driver_proc =
    P_CanalOpen | P_CanalClose | P_CanalGetLevel | P_CanalSend | P_CanalReceive
  | P_CanalDataAvailable | P_CanalGetStatus | P_CanalGetStatistics | P_CanalSetFilter
  | P_CanalSetMask | P_CanalSetBaudrate | P_CanalGetVersion | P_CanalGetDllVersion
  | P_CanalGetVendorString | P_CanalBlockingSend | P_CanalBlockingReceive | P_CanalGetdriverInfo
  | P_VSCPOpen | P_VSCPClose | P_VSCPWrite | P_VSCPRead | P_VSCPGetVersion

definition NO_TRANSLATION :: u32 where "NO_TRANSLATION = 0"
definition VSCP_DRIVER_OUT_TR_M1_M2F :: u32 where "VSCP_DRIVER_OUT_TR_M1_M2F = 0x01"
definition VSCP_DRIVER_OUT_TR_M1_M2S :: u32 where "VSCP_DRIVER_OUT_TR_M1_M2S = 0x02"
definition VSCP_DRIVER_OUT_TR_ALL_L2 :: u32 where "VSCP_DRIVER_OUT_TR_ALL_L2 = 0x04"
definition VSCP_DRIVER_LEVEL1 :: u8 where "VSCP_DRIVER_LEVEL1 = 1"
definition VSCP_DRIVER_LEVEL2 :: u8 where "VSCP_DRIVER_LEVEL2 = 2"

lemmas driver_consts =
  NO_TRANSLATION_def VSCP_DRIVER_OUT_TR_M1_M2F_def VSCP_DRIVER_OUT_TR_M1_M2S_def
  VSCP_DRIVER_OUT_TR_ALL_L2_def VSCP_DRIVER_LEVEL1_def VSCP_DRIVER_LEVEL2_def

text \<open>
  The fields of \<open>CDeviceItem\<close>. The input queue with its semaphore and mutex is declared in the
  class but used by no code, so it is left out; the mutexes and the thread handle live in the
  theory of the concurrent life cycle. \<open>di_sent\<close> is a history variable: the events handed to
  \<open>m_mqttClient.send\<close>, oldest first.
\<close>

record ('g, 'm, 'j) device =
  di_bEnable :: bool
  di_bActive :: bool
  di_bQuit :: bool
  di_bThreadStarted :: bool
  di_openHandle :: int
  di_strName :: string
  di_strParameter :: string
  di_strPath :: string
  di_driverLevel :: u8
  di_DeviceFlags :: u32
  di_translation :: u32
  di_bJsonMeasurementAdd :: bool
  di_guid :: 'g
  di_procs :: "driver_proc \<Rightarrow> nat"
  di_mqttClient :: 'm
  di_mqttConfig :: 'j
  di_sent :: "vscp_event list"

definition CDeviceItem_new ::
    "'g guid_api \<Rightarrow> ('g, 'm) mqtt_api \<Rightarrow> 'j json_api \<Rightarrow> ('g, 'm, 'j) device" where
  "CDeviceItem_new G M J =
     \<lparr>di_bEnable = False, di_bActive = True, di_bQuit = False, di_bThreadStarted = False,
      di_openHandle = 0, di_strName = [], di_strParameter = [], di_strPath = [],
      di_driverLevel = 0, di_DeviceFlags = 0, di_translation = NO_TRANSLATION,
      di_bJsonMeasurementAdd = False, di_guid = g_default G, di_procs = (\<lambda>_. 0),
      di_mqttClient = mc_default M, di_mqttConfig = js_null J, di_sent = []\<rparr>"

subsection \<open>Textual forms\<close>

definition CDeviceItem_getAsString ::
    "str_format \<Rightarrow> 'g guid_api \<Rightarrow> ('g, 'm, 'j) device \<Rightarrow> string" where
  "CDeviceItem_getAsString fmt G d =
     (let s0 = (if di_bEnable d then ''true,'' else ''false,'');
          s1 = s0 @ (if di_bActive d then ''true,'' else ''false,'');
          s2 = s1 @ di_strName d @ '','';
          s3 = s2 @ di_strPath d @ '','';
          s4 = s3 @ di_strParameter d @ '','';
          s5 = s4 @ fmt ''%d,%ul,'' [FInt (uint (di_driverLevel d)), FUInt (di_DeviceFlags d)];
          s6 = s5 @ g_to_string G (di_guid d) @ '',''
      in s6 @ fmt ''%04X'' [FUInt (di_translation d)])"

definition JSON_DRV_TEMPLATE :: string where
  \<open>JSON_DRV_TEMPLATE =
     ''{    '' @
     ''            "enable"      : %s,     '' @
     ''            "active"      : %s,     '' @
     ''            "name"        : "%s", '' @
     ''            "path"        : "%s", '' @
     ''            "param"       : "%s", '' @
     ''            "level"       : %d,     '' @
     ''            "flags"       : %lu,    '' @
     ''            "guid"        : "%s", '' @
     ''            "translation" : %lu     '' @
     ''        }''\<close>

definition CDeviceItem_getAsJSON ::
    "str_format \<Rightarrow> 'g guid_api \<Rightarrow> ('g, 'm, 'j) device \<Rightarrow> string" where
  "CDeviceItem_getAsJSON fmt G d =
     fmt JSON_DRV_TEMPLATE
       [FStr (if di_bEnable d then ''true'' else ''false''),
        FStr (if di_bActive d then ''true'' else ''false''),
        FStr (c_str (di_strName d)), FStr (c_str (di_strPath d)), FStr (c_str (di_strParameter d)),
        FInt (uint (di_driverLevel d)), FUInt (di_DeviceFlags d),
        FStr (c_str (g_to_string G (di_guid d))), FUInt (di_translation d)]"

subsection \<open>Starting and stopping\<close>

text \<open>\<open>created\<close> is the outcome of \<open>pthread_create\<close>.\<close>

definition startDriver ::
    "bool \<Rightarrow> ('g, 'm, 'j) device \<Rightarrow> bool \<times> ('g, 'm, 'j) device" where
  "startDriver created d =
     (if \<not> di_bEnable d then (True, d)
      else if \<not> created then (False, d)
      else (True, d\<lparr>di_bThreadStarted := True\<rparr>))"

text \<open>
  \<open>join\<close> is what \<open>pthread_join\<close> leaves: the device as the worker thread has left it when it ended,
  from the state in which it was asked to quit.
\<close>

definition stopDriver ::
    "(('g, 'm, 'j) device \<Rightarrow> ('g, 'm, 'j) device) \<Rightarrow> ('g, 'm, 'j) device
       \<Rightarrow> bool \<times> ('g, 'm, 'j) device" where
  "stopDriver join d =
     (if di_bEnable d then
        (let d1 = d\<lparr>di_bQuit := True\<rparr>;
             d2 = (if di_bThreadStarted d1 then (join d1)\<lparr>di_bThreadStarted := False\<rparr> else d1)
         in (True, d2))
      else (True, d))"

definition pauseDriver :: "('g, 'm, 'j) device \<Rightarrow> bool \<times> ('g, 'm, 'j) device" where
  "pauseDriver d = (True, d\<lparr>di_bActive := False\<rparr>)"

definition resumeDriver :: "('g, 'm, 'j) device \<Rightarrow> bool \<times> ('g, 'm, 'j) device" where
  "resumeDriver d = (True, d\<lparr>di_bActive := True\<rparr>)"

lemmas [dev_simps] = startDriver_def stopDriver_def pauseDriver_def resumeDriver_def

text \<open>What a worker thread may change of its device: never whether the driver is enabled, what it
  is called or where it lives, and never back from quitting.\<close>

definition worker_frame :: "('g, 'm, 'j) device \<Rightarrow> ('g, 'm, 'j) device \<Rightarrow> bool" where
  "worker_frame d d' \<longleftrightarrow>
     di_bEnable d' = di_bEnable d \<and> di_strName d' = di_strName d \<and> di_strPath d' = di_strPath d
     \<and> di_strParameter d' = di_strParameter d \<and> di_guid d' = di_guid d
     \<and> di_DeviceFlags d' = di_DeviceFlags d \<and> di_translation d' = di_translation d
     \<and> di_bActive d' = di_bActive d \<and> di_bThreadStarted d' = di_bThreadStarted d
     \<and> (di_bQuit d \<longrightarrow> di_bQuit d')"

lemma worker_frame_refl [simp, intro]: "worker_frame d d"
  by (simp add: worker_frame_def)

lemma worker_frame_trans [trans]: "worker_frame a b \<Longrightarrow> worker_frame b c \<Longrightarrow> worker_frame a c"
  by (auto simp: worker_frame_def)

definition join_ok :: "(('g, 'm, 'j) device \<Rightarrow> ('g, 'm, 'j) device) \<Rightarrow> bool" where
  "join_ok join \<longleftrightarrow> (\<forall>d. worker_frame d (join d))"

subsection \<open>The contract of driver control\<close>

text \<open>
  What \<open>startDeviceWorkerThreads\<close> and \<open>stopDeviceWorkerThreads\<close> need of a driver: starting keeps
  the enabled flag and runs a thread only for an enabled driver; stopping leaves no thread
  running, keeps the enabled flag and does nothing more when it is repeated.
\<close>

locale driver_control =
  fixes start :: "'d \<Rightarrow> bool \<times> 'd"
    and stop :: "'d \<Rightarrow> bool \<times> 'd"
    and enabled :: "'d \<Rightarrow> bool"
    and running :: "'d \<Rightarrow> bool"
  assumes start_enabled: "enabled (snd (start d)) = enabled d"
    and start_disabled: "\<not> enabled d \<Longrightarrow> snd (start d) = d"
    and start_fails: "\<not> fst (start d) \<Longrightarrow> snd (start d) = d"
    and stop_succeeds: "fst (stop d)"
    and stop_enabled: "enabled (snd (stop d)) = enabled d"
    and stop_running: "enabled d \<Longrightarrow> \<not> running (snd (stop d))"
    and stop_disabled: "\<not> enabled d \<Longrightarrow> snd (stop d) = d"
    and stop_again: "snd (stop (snd (stop d))) = snd (stop d)"
begin

definition only_enabled_run :: "'d list \<Rightarrow> bool" where
  "only_enabled_run ds \<longleftrightarrow> (\<forall>d\<in>set ds. running d \<longrightarrow> enabled d)"

lemma start_all_only_enabled:
  "only_enabled_run ds \<Longrightarrow> only_enabled_run (map (\<lambda>d. snd (start d)) ds)"
  unfolding only_enabled_run_def
  by (auto simp: start_enabled) (metis start_disabled start_enabled)

lemma stop_all_none_running:
  "only_enabled_run ds \<Longrightarrow> \<forall>d\<in>set (map (\<lambda>d. snd (stop d)) ds). \<not> running d"
  unfolding only_enabled_run_def by (auto dest: stop_running) (metis stop_disabled stop_running)

lemma stop_all_enabled: "map enabled (map (\<lambda>d. snd (stop d)) ds) = map enabled ds"
  by (simp add: stop_enabled)

lemma stop_all_again:
  "map (\<lambda>d. snd (stop d)) (map (\<lambda>d. snd (stop d)) ds) = map (\<lambda>d. snd (stop d)) ds"
  by (simp add: stop_again)

end

lemma startDriver_frame:
  "di_bEnable (snd (startDriver created d)) = di_bEnable d"
  "\<not> di_bEnable d \<Longrightarrow> snd (startDriver created d) = d"
  "\<not> fst (startDriver created d) \<Longrightarrow> snd (startDriver created d) = d"
  by (auto simp: startDriver_def split: if_splits)

lemma stopDriver_frame:
  assumes "join_ok join"
  shows "fst (stopDriver join d)"
    and "di_bEnable (snd (stopDriver join d)) = di_bEnable d"
    and "di_bEnable d \<Longrightarrow> \<not> di_bThreadStarted (snd (stopDriver join d))"
    and "di_bEnable d \<Longrightarrow> di_bQuit (snd (stopDriver join d))"
    and "\<not> di_bEnable d \<Longrightarrow> snd (stopDriver join d) = d"
proof -
  have "worker_frame (d\<lparr>di_bQuit := True\<rparr>) (join (d\<lparr>di_bQuit := True\<rparr>))"
    using assms by (simp add: join_ok_def)
  then show "fst (stopDriver join d)"
    and "di_bEnable (snd (stopDriver join d)) = di_bEnable d"
    and "di_bEnable d \<Longrightarrow> \<not> di_bThreadStarted (snd (stopDriver join d))"
    and "di_bEnable d \<Longrightarrow> di_bQuit (snd (stopDriver join d))"
    and "\<not> di_bEnable d \<Longrightarrow> snd (stopDriver join d) = d"
    by (simp_all add: stopDriver_def Let_def worker_frame_def)
qed

lemma stopDriver_again:
  assumes "join_ok join"
  shows "snd (stopDriver join (snd (stopDriver join d))) = snd (stopDriver join d)"
proof (cases "di_bEnable d")
  case True
  let ?e = "snd (stopDriver join d)"
  from True assms have "di_bEnable ?e" "di_bQuit ?e" "\<not> di_bThreadStarted ?e"
    by (simp_all add: stopDriver_frame)
  then show ?thesis by (simp add: stopDriver_def [of join ?e] Let_def)
qed (simp add: stopDriver_def)

text \<open>The code's own start and stop meet the contract, whatever \<open>pthread_create\<close> answers and
  whatever the worker thread did before it ended, as long as it kept to its frame.\<close>

lemma driver_control_code:
  assumes "join_ok join"
  shows "driver_control (startDriver created) (stopDriver join) di_bEnable di_bThreadStarted"
  by unfold_locales
     (use assms in \<open>simp_all add: startDriver_frame stopDriver_frame stopDriver_again\<close>)

end
