(* ===== verification/DeviceList.thy ===== *)
theory DeviceList
  imports DeviceItem
begin

text \<open>
  \<open>CDeviceList\<close> (\<open>devicelist.h\<close>, \<open>devicelist.cpp\<close>): the deque of drivers. Items are allocated by
  \<open>addItem\<close> alone and never removed while the daemon runs, so a \<open>CDeviceItem *\<close> is the item's
  position in the list and the null pointer is \<open>None\<close>. The locale \<open>driver_registry\<close> is what the
  configuration reader needs of the list, interpreted on \<open>addItem\<close> and
  \<open>getDeviceItemFromName\<close>.
\<close>

type_synonym ('g, 'm, 'j) devices = "('g, 'm, 'j) device list"

subsection \<open>Adding and removing\<close>

text \<open>\<open>exists\<close> is \<open>vscp_fileExists\<close>; \<open>srvguid\<close> is \<open>pCtrlObj->m_guid\<close>.\<close>

definition new_item ::
    "'g guid_api \<Rightarrow> ('g, 'm) mqtt_api \<Rightarrow> 'j json_api \<Rightarrow> 'g \<Rightarrow> string \<Rightarrow> string \<Rightarrow> string
       \<Rightarrow> u32 \<Rightarrow> 'g \<Rightarrow> u8 \<Rightarrow> u32 \<Rightarrow> ('g, 'm, 'j) device" where
  "new_item G M J srvguid strName strParameter strPath flags guid level translation =
     (let d = CDeviceItem_new G M J
      in d\<lparr>di_bEnable := True,
           di_driverLevel := level,
           di_strName := strName,
           di_strParameter := strParameter,
           di_strPath := strPath,
           di_guid := guid,
           di_mqttClient := mc_set_srv_guid M (mc_set_if_guid M (di_mqttClient d) guid) srvguid,
           di_translation := translation,
           di_DeviceFlags := flags\<rparr>)"

definition addItem ::
    "(string \<Rightarrow> bool) \<Rightarrow> 'g guid_api \<Rightarrow> ('g, 'm) mqtt_api \<Rightarrow> 'j json_api \<Rightarrow> 'g
       \<Rightarrow> ('g, 'm, 'j) devices \<Rightarrow> string \<Rightarrow> string \<Rightarrow> string \<Rightarrow> u32 \<Rightarrow> 'g \<Rightarrow> u8 \<Rightarrow> u32
       \<Rightarrow> bool \<times> ('g, 'm, 'j) devices" where
  "addItem exists G M J srvguid ds strName strParameter strPath flags guid level translation =
     (if exists strPath
      then (True, ds @ [new_item G M J srvguid strName strParameter strPath flags guid level
                          translation])
      else (False, ds))"

definition removeItem :: "('g, 'm, 'j) devices \<Rightarrow> u16 \<Rightarrow> bool \<times> ('g, 'm, 'j) devices" where
  "removeItem ds clientid = (True, ds)"

subsection \<open>Lookup\<close>

definition getDeviceItemFromGUID :: "'g guid_api \<Rightarrow> ('g, 'm, 'j) devices \<Rightarrow> 'g \<Rightarrow> nat option" where
  "getDeviceItemFromGUID G ds guid = first_index (\<lambda>d. g_eq G (di_guid d) guid) ds"

definition getDeviceItemFromName :: "('g, 'm, 'j) devices \<Rightarrow> string \<Rightarrow> nat option" where
  "getDeviceItemFromName ds name = first_index (\<lambda>d. di_strName d = name) ds"

subsection \<open>Listings\<close>

text \<open>The carriage return and newline after each line.\<close>

definition crlf :: string where "crlf = [CHR 0x0D, CHR 0x0A]"

definition getAllAsString :: "str_format \<Rightarrow> 'g guid_api \<Rightarrow> ('g, 'm, 'j) devices \<Rightarrow> string" where
  "getAllAsString fmt G ds = foldl (\<lambda>str d. str @ CDeviceItem_getAsString fmt G d @ crlf) [] ds"

definition driver_template :: string where
  \<open>driver_template = ''{    "drivers" : [%s]}''\<close>

definition getAllAsJSON :: "str_format \<Rightarrow> 'g guid_api \<Rightarrow> ('g, 'm, 'j) devices \<Rightarrow> string" where
  "getAllAsJSON fmt G ds =
     (let str = foldl (\<lambda>str d. (if length str \<noteq> 0 then str @ '','' else str)
                               @ CDeviceItem_getAsJSON fmt G d) [] ds
      in fmt driver_template [FStr (c_str str)])"

subsection \<open>Counting\<close>

text \<open>The \<open>switch\<close> on the type, and the loop with its two branches on \<open>bOnlyActive\<close>.\<close>

definition count_matches :: "u8 \<Rightarrow> ('g, 'm, 'j) device \<Rightarrow> bool" where
  "count_matches type d =
     (if type = 0 then True
      else if type = VSCP_DRIVER_LEVEL1 then di_driverLevel d \<noteq> 0
      else if type = VSCP_DRIVER_LEVEL2 then di_driverLevel d \<noteq> 0
      else False)"

fun count_loop :: "u16 \<Rightarrow> u8 \<Rightarrow> bool \<Rightarrow> ('g, 'm, 'j) devices \<Rightarrow> u16" where
  "count_loop count type bOnlyActive [] = count"
| "count_loop count type bOnlyActive (d # ds) =
     count_loop
       (if bOnlyActive
        then (if di_bEnable d then (if count_matches type d then count + 1 else count) else count)
        else (if di_bEnable d then (if count_matches type d then count + 1 else count) else count))
       type bOnlyActive ds"

definition getCountDrivers :: "('g, 'm, 'j) devices \<Rightarrow> u8 \<Rightarrow> bool \<Rightarrow> u16" where
  "getCountDrivers ds type bOnlyActive = count_loop 0 type bOnlyActive ds"

lemma count_loop_eq:
  "count_loop c t b ds = c + of_nat (length (filter (\<lambda>d. di_bEnable d \<and> count_matches t d) ds))"
  by (induction ds arbitrary: c) (auto simp: algebra_simps)

subsection \<open>The contract of the registry\<close>

text \<open>
  \<open>items\<close> is the abstract content, oldest first, and \<open>made\<close> the item an addition builds from its
  arguments. Adding appends or leaves everything as it was; looking a name up finds the oldest item
  of that name.
\<close>

locale driver_registry =
  fixes items :: "'r \<Rightarrow> 'd list"
    and name_of :: "'d \<Rightarrow> string"
    and made :: "'a \<Rightarrow> 'd"
    and add :: "'r \<Rightarrow> 'a \<Rightarrow> bool \<times> 'r"
    and find_name :: "'r \<Rightarrow> string \<Rightarrow> nat option"
  assumes add_ok: "fst (add r a) \<Longrightarrow> items (snd (add r a)) = items r @ [made a]"
    and add_fails: "\<not> fst (add r a) \<Longrightarrow> snd (add r a) = r"
    and find_first: "find_name r n = first_index (\<lambda>d. name_of d = n) (items r)"
begin

lemma find_sound: "find_name r n = Some i \<Longrightarrow> i < length (items r) \<and> name_of (items r ! i) = n"
  by (simp add: find_first first_index_Some)

lemma find_complete: "find_name r n = None \<longleftrightarrow> n \<notin> name_of ` set (items r)"
  by (auto simp: find_first first_index_None)

lemma find_least: "find_name r n = Some i \<Longrightarrow> j < i \<Longrightarrow> name_of (items r ! j) \<noteq> n"
  by (simp add: find_first first_index_Some)

text \<open>After an addition the name leads to the new item exactly when it was free.\<close>

lemma find_after_add:
  "fst (add r a) \<Longrightarrow>
     find_name (snd (add r a)) (name_of (made a)) =
       (case find_name r (name_of (made a)) of None \<Rightarrow> Some (length (items r)) | Some i \<Rightarrow> Some i)"
  by (auto simp: find_first add_ok first_index_append split: option.splits)

lemma find_other_after_add:
  "fst (add r a) \<Longrightarrow> n \<noteq> name_of (made a) \<Longrightarrow> find_name (snd (add r a)) n = find_name r n"
  by (auto simp: find_first add_ok first_index_append split: option.splits)

end

text \<open>\<open>addItem\<close> on the tuple of its arguments: name, parameter, path, flags, GUID, level and
  translation.\<close>

type_synonym 'g item_args = "string \<times> string \<times> string \<times> u32 \<times> 'g \<times> u8 \<times> u32"

definition made_item ::
    "'g guid_api \<Rightarrow> ('g, 'm) mqtt_api \<Rightarrow> 'j json_api \<Rightarrow> 'g \<Rightarrow> 'g item_args \<Rightarrow> ('g, 'm, 'j) device" where
  "made_item G M J srvguid =
     (\<lambda>(name, param, path, flags, guid, level, tr).
        new_item G M J srvguid name param path flags guid level tr)"

definition add_args ::
    "(string \<Rightarrow> bool) \<Rightarrow> 'g guid_api \<Rightarrow> ('g, 'm) mqtt_api \<Rightarrow> 'j json_api \<Rightarrow> 'g
       \<Rightarrow> ('g, 'm, 'j) devices \<Rightarrow> 'g item_args \<Rightarrow> bool \<times> ('g, 'm, 'j) devices" where
  "add_args exists G M J srvguid ds =
     (\<lambda>(name, param, path, flags, guid, level, tr).
        addItem exists G M J srvguid ds name param path flags guid level tr)"

interpretation reg: driver_registry
    "\<lambda>ds. ds" di_strName "made_item G M J srvguid" "add_args exists G M J srvguid"
    getDeviceItemFromName
  for exists :: "string \<Rightarrow> bool" and G :: "'g guid_api" and M :: "('g, 'm) mqtt_api"
    and J :: "'j json_api" and srvguid :: 'g
  by unfold_locales
     (auto simp: add_args_def made_item_def addItem_def getDeviceItemFromName_def
           split: prod.splits if_splits)

lemma new_item_fields [dev_simps]:
  "di_strName (new_item G M J sg n p path fl g l tr) = n"
  "di_strParameter (new_item G M J sg n p path fl g l tr) = p"
  "di_strPath (new_item G M J sg n p path fl g l tr) = path"
  "di_DeviceFlags (new_item G M J sg n p path fl g l tr) = fl"
  "di_guid (new_item G M J sg n p path fl g l tr) = g"
  "di_driverLevel (new_item G M J sg n p path fl g l tr) = l"
  "di_translation (new_item G M J sg n p path fl g l tr) = tr"
  "di_bEnable (new_item G M J sg n p path fl g l tr)"
  "\<not> di_bQuit (new_item G M J sg n p path fl g l tr)"
  "\<not> di_bThreadStarted (new_item G M J sg n p path fl g l tr)"
  "di_openHandle (new_item G M J sg n p path fl g l tr) = 0"
  by (simp_all add: new_item_def CDeviceItem_new_def Let_def)

text \<open>After a driver has been added to the device list, looking its name up returns the new
  item, unless an older driver already has that name (then it returns the older one), and every
  other name is found where it was; an addition whose driver file does not exist leaves the list
  as it was.\<close>

lemma addItem_then_find:
  "(let (ok, ds') = addItem exists G M J sg ds n p path fl g l tr
    in ok = exists path \<and>
       (if ok
        then ds' = ds @ [new_item G M J sg n p path fl g l tr] \<and>
             getDeviceItemFromName ds' n =
               (case getDeviceItemFromName ds n of None \<Rightarrow> Some (length ds) | Some i \<Rightarrow> Some i) \<and>
             (\<forall>m. m = n \<or> getDeviceItemFromName ds' m = getDeviceItemFromName ds m)
        else ds' = ds))"
proof (cases "exists path")
  case True
  let ?a = "(n, p, path, fl, g, l, tr)" and ?new = "new_item G M J sg n p path fl g l tr"
  have add: "add_args exists G M J sg ds ?a = (True, ds @ [?new])"
    using True by (simp add: add_args_def addItem_def)
  have made: "made_item G M J sg ?a = ?new" by (simp add: made_item_def)
  have "getDeviceItemFromName (ds @ [?new]) n =
          (case getDeviceItemFromName ds n of None \<Rightarrow> Some (length ds) | Some i \<Rightarrow> Some i)"
    using reg.find_after_add [where r = ds and a = ?a and exists = exists and G = G and M = M
      and J = J and srvguid = sg] by (simp add: add made dev_simps)
  moreover have "m = n \<or> getDeviceItemFromName (ds @ [?new]) m = getDeviceItemFromName ds m" for m
    using reg.find_other_after_add [where r = ds and a = ?a and exists = exists and G = G and M = M
      and J = J and srvguid = sg and n = m] by (auto simp: add made dev_simps)
  ultimately show ?thesis using True by (simp add: addItem_def)
qed (simp add: addItem_def)

text \<open>The list is searched in the order of the configuration: by name and by GUID a search
  answers with the first match, and with the null pointer exactly when no driver matches.\<close>

lemma lookup_first_match:
  "(case getDeviceItemFromName ds n of
      None \<Rightarrow> n \<notin> di_strName ` set ds
    | Some i \<Rightarrow> i < length ds \<and> di_strName (ds ! i) = n \<and> n \<notin> di_strName ` set (take i ds)) \<and>
   (case getDeviceItemFromGUID G ds g of
      None \<Rightarrow> \<not> (\<exists>d. d \<in> set ds \<and> g_eq G (di_guid d) g)
    | Some i \<Rightarrow> i < length ds \<and> g_eq G (di_guid (ds ! i)) g
                \<and> \<not> (\<exists>d. d \<in> set (take i ds) \<and> g_eq G (di_guid d) g))"
  unfolding getDeviceItemFromName_def getDeviceItemFromGUID_def
  by (intro conjI; rule first_index_case) (fastforce+)

text \<open>\<open>getCountDrivers\<close> counts enabled drivers only, whatever \<open>bOnlyActive\<close> says, modulo
  \<open>2^16\<close>; for type 0 all of them, and for type 1 and for type 2 alike those whose level is not
  zero, so that the count of level I drivers includes the level II drivers.\<close>

lemma getCountDrivers_counts:
  "getCountDrivers ds type b =
     of_nat (length (filter
       (\<lambda>d. di_bEnable d \<and> (type = 0 \<or> (type = 1 \<or> type = 2) \<and> di_driverLevel d \<noteq> 0)) ds))"
proof -
  have "count_matches type = (\<lambda>d :: ('a, 'b, 'c) device.
          type = 0 \<or> (type = 1 \<or> type = 2) \<and> di_driverLevel d \<noteq> 0)"
    by (auto simp: count_matches_def driver_consts fun_eq_iff)
  then show ?thesis by (simp add: getCountDrivers_def count_loop_eq)
qed

text \<open>The comma between two entries, and the string the loop builds.\<close>

fun join_comma :: "string list \<Rightarrow> string" where
  "join_comma [] = []"
| "join_comma [s] = s"
| "join_comma (s # t # ss) = s @ '','' @ join_comma (t # ss)"

lemma json_loop_join:
  assumes "\<forall>d\<in>set ds. f d \<noteq> ([] :: string)" and "acc \<noteq> []"
  shows "foldl (\<lambda>str d. (if length str \<noteq> 0 then str @ '','' else str) @ f d) acc ds
           = join_comma (acc # map f ds)"
  using assms
proof (induction ds arbitrary: acc)
  case (Cons d ds)
  then have "foldl (\<lambda>str d. (if length str \<noteq> 0 then str @ '','' else str) @ f d)
                (acc @ '','' @ f d) ds = join_comma ((acc @ '','' @ f d) # map f ds)"
    by simp
  also have "\<dots> = join_comma (acc # f d # map f ds)" by (cases ds) simp_all
  finally show ?case using Cons.prems by simp
qed simp

text \<open>The drivers payload published over MQTT is the template filled with the drivers' JSON
  objects in list order, separated by single commas with none before the first or after the last.\<close>

lemma getAllAsJSON_join:
  assumes "\<forall>d\<in>set ds. CDeviceItem_getAsJSON fmt G d \<noteq> []"
  shows "getAllAsJSON fmt G ds =
           fmt driver_template [FStr (c_str (join_comma (map (CDeviceItem_getAsJSON fmt G) ds)))]"
proof (cases ds)
  case (Cons d rest)
  with assms json_loop_join [of rest "CDeviceItem_getAsJSON fmt G" "CDeviceItem_getAsJSON fmt G d"]
  show ?thesis by (simp add: getAllAsJSON_def Let_def)
qed (simp add: getAllAsJSON_def)

end
