(* ===== verification/ControlObject.thy ===== *)
theory ControlObject
  imports DeviceList Instances "HOL-Library.Sublist"
begin

text \<open>
  The state of \<open>CControlObject\<close> (\<open>controlobject.h\<close>) with its constructor, the class and type token
  maps that \<open>init\<close> loads, and \<open>discovery\<close>, which records every new node GUID once in the database,
  in the map in memory and on the discovery topic. The locale \<open>discovery_registry\<close> is what the
  device threads rely on when all of them report GUIDs to the one registry.
\<close>

subsection \<open>State\<close>

text \<open>\<open>spdlog::level::level_enum\<close>.\<close>

datatype log_level = L_trace | L_debug | L_info | L_warn | L_err | L_critical | L_off

text \<open>The levels are ordered as the enumeration numbers them; a sink writes the messages whose level
  is at least its own.\<close>

fun level_number :: "log_level \<Rightarrow> nat" where
  "level_number L_trace = 0"
| "level_number L_debug = 1"
| "level_number L_info = 2"
| "level_number L_warn = 3"
| "level_number L_err = 4"
| "level_number L_critical = 5"
| "level_number L_off = 6"

instantiation log_level :: linorder
begin

definition less_eq_log_level :: "log_level \<Rightarrow> log_level \<Rightarrow> bool" where
  "less_eq_log_level a b \<longleftrightarrow> level_number a \<le> level_number b"

definition less_log_level :: "log_level \<Rightarrow> log_level \<Rightarrow> bool" where
  "less_log_level a b \<longleftrightarrow> level_number a < level_number b"

instance
proof
  fix a b :: log_level
  show "a \<le> b \<Longrightarrow> b \<le> a \<Longrightarrow> a = b"
    by (cases a; cases b) (simp_all add: less_eq_log_level_def)
qed (auto simp: less_eq_log_level_def less_log_level_def)

end

lemmas level_le = less_eq_log_level_def less_log_level_def

lemma level_bounds [simp]: "L_trace \<le> l" "l \<le> L_off" for l :: log_level
  by (cases l; simp add: level_le)+

text \<open>The logger settings of the control object.\<close>

record log_config =
  lg_bEnableFileLog :: bool
  lg_fileLogLevel :: log_level
  lg_fileLogPattern :: string
  lg_path_to_log_file :: string
  lg_max_log_size :: u32
  lg_max_log_files :: u16
  lg_bEnableConsoleLog :: bool
  lg_consoleLogLevel :: log_level
  lg_consoleLogPattern :: string
  lg_bEnableSysLog :: bool
  lg_sysLogLevel :: log_level
  lg_sysLogIdent :: string
  lg_bEnableUdpLog :: bool
  lg_udpLogLevel :: log_level
  lg_udpLogPattern :: string
  lg_udpLogHost :: string
  lg_udpLogPort :: u16

text \<open>
  The control object. \<open>co_vscp_key\<close> is the global \<open>__vscp_key\<close> of \<open>mqttvscpd.cpp\<close>, which only
  \<open>readEncryptionKey\<close> and \<open>main\<close> write. \<open>co_published\<close> and \<open>co_sent\<close> are history variables: the
  \<open>mosquitto_publish\<close> calls and the events handed to \<open>m_mqttClient.send\<close>, oldest first.
  \<open>bEventOutLookup\<close> and \<open>m_mqttConfig\<close> are declared but used by no code.
\<close>

record ('g, 'm, 'j, 'db) control =
  co_bQuit :: bool
  co_strServerName :: string
  co_rootFolder :: string
  co_runAsUser :: string
  co_guid :: 'g
  co_pathClassTypeDefinitionDb :: string
  co_map_class_id2Token :: "u16 \<rightharpoonup> string"
  co_map_class_token2Id :: "string \<rightharpoonup> u16"
  co_map_type_id2Token :: "u32 \<rightharpoonup> string"
  co_map_type_token2Id :: "string \<rightharpoonup> u32"
  co_pathMainDb :: string
  co_db_vscp_daemon :: "'db option"
  co_map_discoveryGuidToName :: "string \<rightharpoonup> string"
  co_deviceList :: "('g, 'm, 'j) devices"
  co_log :: log_config
  co_mqttClient :: 'm
  co_topicDaemonBase :: string
  co_topicDrivers :: string
  co_topicDiscovery :: string
  co_vscp_key :: "u8 list"
  co_published :: "publish list"
  co_sent :: "vscp_event_ex list"

definition default_vscp_key :: "u8 list" where
  "default_vscp_key =
     [0x2d, 0xbb, 0x07, 0x9a, 0x38, 0x98, 0x5a, 0xf0, 0x0e, 0xbe, 0xef,
      0xe2, 0x2f, 0x9f, 0xfa, 0x0e, 0x7f, 0x72, 0xdf, 0x06, 0xeb, 0xe4,
      0x45, 0x63, 0xed, 0xf4, 0xa1, 0x07, 0x3c, 0xab, 0xc7, 0xd4]"

definition default_log :: log_config where
  "default_log =
     \<lparr>lg_bEnableFileLog = False, lg_fileLogLevel = L_info,
      lg_fileLogPattern = ''[mqttvscpd] [%^%l%$] %v'',
      lg_path_to_log_file = ''/var/log/vscp/mqttvscpd.log'',
      lg_max_log_size = 5242880, lg_max_log_files = 7,
      lg_bEnableConsoleLog = True, lg_consoleLogLevel = L_info,
      lg_consoleLogPattern = ''[mqttvscpd] [%^%l%$] %v'',
      lg_bEnableSysLog = False, lg_sysLogLevel = L_info, lg_sysLogIdent = ''mqttvscpd'',
      lg_bEnableUdpLog = False, lg_udpLogLevel = L_info,
      lg_udpLogPattern = ''[%Y-%m-%d %H:%M:%S.%e] [%l] %v'',
      lg_udpLogHost = ''127.0.0.1'', lg_udpLogPort = 9999\<rparr>"

text \<open>The constructor, on the path where both mutexes could be initialised.\<close>

definition CControlObject_new ::
    "'g guid_api \<Rightarrow> ('g, 'm) mqtt_api \<Rightarrow> ('g, 'm, 'j, 'db) control" where
  "CControlObject_new G M =
     (let base = ''vscp-daemon/{{srvguid}}/''
      in \<lparr>co_bQuit = False, co_strServerName = ''VSCP MQTT daemon'',
          co_rootFolder = ''/var/lib/vscp/mqttvscpd/'', co_runAsUser = [],
          co_guid = g_clear G (g_default G),
          co_pathClassTypeDefinitionDb = ''/var/lib/vscp/mqttvscpd/vscp_events.sqlite3'',
          co_map_class_id2Token = Map.empty, co_map_class_token2Id = Map.empty,
          co_map_type_id2Token = Map.empty, co_map_type_token2Id = Map.empty,
          co_pathMainDb = [], co_db_vscp_daemon = None,
          co_map_discoveryGuidToName = Map.empty, co_deviceList = [], co_log = default_log,
          co_mqttClient = mc_default M, co_topicDaemonBase = base,
          co_topicDrivers = base @ ''drivers'', co_topicDiscovery = base @ ''discovery'',
          co_vscp_key = default_vscp_key, co_published = [], co_sent = []\<rparr>)"

subsection \<open>Class and type tokens\<close>

text \<open>The key of a type: class in the upper half, type in the lower.\<close>

definition type_key :: "u16 \<Rightarrow> u16 \<Rightarrow> u32" where
  "type_key cid tid = push_bit 16 (ucast cid) + ucast tid"

text \<open>
  The rows sqlite delivers: the columns \<open>class, name, token\<close>, and \<open>type, link_to_class, token\<close>. A
  text column that is NULL makes \<open>std::string\<close> be built from a null pointer, which ends the load with
  an exception: \<open>None\<close>. Columns are read in the order of the code.
\<close>

type_synonym class_row = "int \<times> string option \<times> string option"
type_synonym type_row = "int \<times> int \<times> string option"

fun load_classes ::
    "class_row list \<Rightarrow> (u16 \<rightharpoonup> string) \<times> (string \<rightharpoonup> u16)
       \<Rightarrow> ((u16 \<rightharpoonup> string) \<times> (string \<rightharpoonup> u16)) option" where
  "load_classes [] m = Some m"
| "load_classes ((cls, name, token) # rows) (i2t, t2i) =
     (case name of None \<Rightarrow> None
      | Some _ \<Rightarrow>
        (case token of None \<Rightarrow> None
         | Some tok \<Rightarrow>
             (let vscp_class = (word_of_int cls :: u16)
              in load_classes rows (i2t(vscp_class \<mapsto> tok), t2i(tok \<mapsto> vscp_class)))))"

fun load_types ::
    "type_row list \<Rightarrow> (u32 \<rightharpoonup> string) \<times> (string \<rightharpoonup> u32)
       \<Rightarrow> ((u32 \<rightharpoonup> string) \<times> (string \<rightharpoonup> u32)) option" where
  "load_types [] m = Some m"
| "load_types ((type, link, token) # rows) (i2t, t2i) =
     (case token of None \<Rightarrow> None
      | Some tok \<Rightarrow>
          (let key = type_key (word_of_int link) (word_of_int type)
           in load_types rows (i2t(key \<mapsto> tok), t2i(tok \<mapsto> key))))"

text \<open>\<open>getTokenFromClassId\<close> and \<open>getTokenFromTypeId\<close>: \<open>std::map::operator[]\<close> stores an empty token
  for a key that is missing.\<close>

definition map_index :: "('k \<rightharpoonup> string) \<Rightarrow> 'k \<Rightarrow> string \<times> ('k \<rightharpoonup> string)" where
  "map_index m k = (case m k of Some v \<Rightarrow> (v, m) | None \<Rightarrow> ([], m(k \<mapsto> [])))"

definition getTokenFromClassId ::
    "('g, 'm, 'j, 'db) control \<Rightarrow> u16 \<Rightarrow> string \<times> ('g, 'm, 'j, 'db) control" where
  "getTokenFromClassId c cid =
     (let (t, m) = map_index (co_map_class_id2Token c) cid
      in (t, c\<lparr>co_map_class_id2Token := m\<rparr>))"

definition getTokenFromTypeId ::
    "('g, 'm, 'j, 'db) control \<Rightarrow> u16 \<Rightarrow> u16 \<Rightarrow> string \<times> ('g, 'm, 'j, 'db) control" where
  "getTokenFromTypeId c cid tid =
     (let (t, m) = map_index (co_map_type_id2Token c) (type_key cid tid)
      in (t, c\<lparr>co_map_type_id2Token := m\<rparr>))"

lemma unat_type_key: "unat (type_key c t) = unat c * 65536 + unat t"
proof -
  have c: "unat c < 65536" and t: "unat t < 65536"
    using unsigned_less [of c, where 'a = nat] unsigned_less [of t, where 'a = nat] by simp_all
  have u: "unat (ucast c :: u32) = unat c" "unat (ucast t :: u32) = unat t"
    using c t by (simp_all add: unsigned_ucast_eq take_bit_nat_eq_self)
  have "unat (push_bit 16 (ucast c :: u32)) = take_bit 32 (push_bit 16 (unat c))"
    by (simp only: unsigned_push_bit_eq u) simp
  also have "\<dots> = unat c * 65536"
    using c by (simp add: push_bit_eq_mult take_bit_nat_eq_self)
  finally show ?thesis
    unfolding type_key_def unat_word_ariths(1) u using c t by simp
qed

lemma type_key_inj: "type_key c t = type_key c' t' \<longleftrightarrow> c = c' \<and> t = t'"
proof
  assume "type_key c t = type_key c' t'"
  then have "unat (type_key c t) = unat (type_key c' t')" by simp
  then have eq: "unat c * 65536 + unat t = unat c' * 65536 + unat t'"
    by (simp only: unat_type_key)
  have t: "unat t < 65536" "unat t' < 65536"
    using unsigned_less [of t, where 'a = nat] unsigned_less [of t', where 'a = nat] by simp_all
  from eq have "(unat c * 65536 + unat t) div 65536 = (unat c' * 65536 + unat t') div 65536"
    and "(unat c * 65536 + unat t) mod 65536 = (unat c' * 65536 + unat t') mod 65536" by simp_all
  with t have "unat c = unat c'" and "unat t = unat t'" by simp_all
  then show "c = c' \<and> t = t'" by (simp add: word_unat_eq_iff)
qed simp

text \<open>The rows as association lists; a load keeps the last row of every key.\<close>

definition class_pairs :: "class_row list \<Rightarrow> (u16 \<times> string) list" where
  "class_pairs rows = map (\<lambda>(cls, _, token). (word_of_int cls, the token)) rows"

definition type_pairs :: "type_row list \<Rightarrow> (u32 \<times> string) list" where
  "type_pairs rows = map (\<lambda>(ty, link, token). (type_key (word_of_int link) (word_of_int ty), the token)) rows"

definition swap_pairs :: "('a \<times> 'b) list \<Rightarrow> ('b \<times> 'a) list" where
  "swap_pairs = map (\<lambda>(a, b). (b, a))"

lemma load_classes_eq:
  "load_classes rows (i2t, t2i) =
     (if \<forall>(cls, name, token)\<in>set rows. name \<noteq> None \<and> token \<noteq> None
      then Some (i2t ++ map_of (rev (class_pairs rows)),
                 t2i ++ map_of (rev (swap_pairs (class_pairs rows))))
      else None)"
proof (induction rows arbitrary: i2t t2i)
  case (Cons r rows)
  obtain cls name token where r: "r = (cls, name, token)" by (cases r) auto
  show ?case
    by (cases name; cases token) (simp_all add: r Cons.IH class_pairs_def swap_pairs_def Let_def)
qed (simp add: class_pairs_def swap_pairs_def)

lemma load_types_eq:
  "load_types rows (i2t, t2i) =
     (if \<forall>(ty, link, token)\<in>set rows. token \<noteq> None
      then Some (i2t ++ map_of (rev (type_pairs rows)),
                 t2i ++ map_of (rev (swap_pairs (type_pairs rows))))
      else None)"
proof (induction rows arbitrary: i2t t2i)
  case (Cons r rows)
  obtain ty link token where r: "r = (ty, link, token)" by (cases r) auto
  show ?case
    by (cases token) (simp_all add: r Cons.IH type_pairs_def swap_pairs_def Let_def)
qed (simp add: type_pairs_def swap_pairs_def)

text \<open>Once the type table has been loaded, the token of a class and type pair is the token of the
  last row for exactly that pair (the 32-bit key never confuses two pairs), and the empty string
  where the table has no row; asking changes no token that is in the map.\<close>

lemma getTokenFromTypeId_after_load:
  assumes load: "load_types rows (Map.empty, Map.empty) = Some (co_map_type_id2Token c, t2i)"
  shows "fst (getTokenFromTypeId c cid tid) =
           (case find (\<lambda>(ty, link, tok). word_of_int link = cid \<and> word_of_int ty = tid) (rev rows) of
              None \<Rightarrow> [] | Some (ty, link, tok) \<Rightarrow> the tok)
         \<and> co_map_type_id2Token c \<subseteq>\<^sub>m co_map_type_id2Token (snd (getTokenFromTypeId c cid tid))"
proof -
  let ?m = "co_map_type_id2Token c"
  have m: "?m = map_of (rev (type_pairs rows))"
    using load by (simp add: load_types_eq split: if_splits)
  have "map_of (map (\<lambda>(ty, link, token). (type_key (word_of_int link) (word_of_int ty), the token)) ys)
          (type_key cid tid) =
          map_option (\<lambda>(ty, link, tok). the tok)
            (find (\<lambda>(ty, link, tok). word_of_int link = cid \<and> word_of_int ty = tid) ys)"
    for ys :: "type_row list"
    by (induction ys) (auto simp: type_key_inj)
  then have "?m (type_key cid tid) =
          map_option (\<lambda>(ty, link, tok). the tok)
            (find (\<lambda>(ty, link, tok). word_of_int link = cid \<and> word_of_int ty = tid) (rev rows))"
    by (simp add: m type_pairs_def rev_map)
  then show ?thesis
    by (auto simp: getTokenFromTypeId_def map_index_def map_le_def split: option.splits)
qed

lemma getTokenFromTypeId_after_load_witness:
  "\<exists>c :: (u8 list, nat, jv, nat) control.
     fst (getTokenFromTypeId c 20 9) = ''CLASS1.INFORMATION.HEARTBEAT'' \<and> fst (getTokenFromTypeId c 20 10) = []"
proof -
  let ?rows = "[(9, 20, Some ''OLD''), (9, 20, Some ''CLASS1.INFORMATION.HEARTBEAT'')] :: type_row list"
  obtain i2t t2i where l: "load_types ?rows (Map.empty, Map.empty) = Some (i2t, t2i)"
    by (simp add: Let_def)
  let ?c = "(CControlObject_new guid0 mqtt0 :: (u8 list, nat, jv, nat) control)\<lparr>co_map_type_id2Token := i2t\<rparr>"
  have "load_types ?rows (Map.empty, Map.empty) = Some (co_map_type_id2Token ?c, t2i)" using l by simp
  note T = getTokenFromTypeId_after_load [OF this]
  have "fst (getTokenFromTypeId ?c 20 9) = ''CLASS1.INFORMATION.HEARTBEAT''" using T [of 20 9] by simp
  moreover have "fst (getTokenFromTypeId ?c 20 10) = []" using T [of 20 10] by simp
  ultimately show ?thesis by blast
qed

subsection \<open>Discovery\<close>

definition quote :: string where "quote = [CHR 0x27]"

text \<open>The statement for a newly seen node. \<open>now\<close> is the ISO time string.\<close>

definition discovery_sql :: "string \<Rightarrow> string \<Rightarrow> string" where
  \<open>discovery_sql now guid =
     ''INSERT INTO "discovery" (date, guid, name, description ) VALUES ('' @ quote @ now @
     quote @ '','' @ quote @ guid @ quote @ '','' @ quote @ ''discovered'' @
     quote @ '','' @ quote @ quote @ '');''\<close>

text \<open>The three GUID keys every topic template can use; all name the server.\<close>

definition guid_keys :: "'g guid_api \<Rightarrow> 'g \<Rightarrow> (string \<times> string) list" where
  "guid_keys G g =
     [(''guid'', g_to_string G g), (''srvguid'', g_to_string G g), (''ifguid'', g_to_string G g)]"

definition discovery_publish ::
    "'g guid_api \<Rightarrow> 'j json_api \<Rightarrow> render \<Rightarrow> ('g, 'm, 'j, 'db) control \<Rightarrow> string \<Rightarrow> string
       \<Rightarrow> publish" where
  "discovery_publish G J render c gs now =
     \<lparr>pub_topic = c_str (render (co_topicDiscovery c) (guid_keys G (co_guid c))),
      pub_payload = js_dump_pairs J [(''guid'', gs), (''time'', now)],
      pub_qos = 1, pub_retain = True\<rparr>"

text \<open>
  The section between \<open>pthread_mutex_lock\<close> and \<open>pthread_mutex_unlock\<close>, for the GUID string \<open>gs\<close>. A
  GUID is remembered only after its row was stored; a failed publish is logged and changes nothing
  else. Both exits unlock, so the section is one atomic step.
\<close>

definition discovery_locked ::
    "'g guid_api \<Rightarrow> 'j json_api \<Rightarrow> ('g, 'm) mqtt_api \<Rightarrow> render \<Rightarrow> ('db \<Rightarrow> string \<Rightarrow> bool \<times> 'db)
       \<Rightarrow> 'db \<Rightarrow> ('g, 'm, 'j, 'db) control \<Rightarrow> string \<times> string \<Rightarrow> ('g, 'm, 'j, 'db) control" where
  "discovery_locked G J M render exec db c = (\<lambda>(gs, now).
     if co_map_discoveryGuidToName c gs = None then
       (case exec db (discovery_sql now gs) of
          (False, db') \<Rightarrow> c\<lparr>co_db_vscp_daemon := Some db'\<rparr>
        | (True, db') \<Rightarrow>
            (let p = discovery_publish G J render c gs now;
                 (rv, m') = mosq_publish M (co_mqttClient c) p
             in c\<lparr>co_db_vscp_daemon := Some db',
                  co_mqttClient := m',
                  co_published := co_published c @ [p],
                  co_map_discoveryGuidToName :=
                    (co_map_discoveryGuidToName c)(gs \<mapsto> ''Discovered'')\<rparr>))
     else c)"

definition discovery ::
    "'g guid_api \<Rightarrow> 'j json_api \<Rightarrow> ('g, 'm) mqtt_api \<Rightarrow> render \<Rightarrow> ('db \<Rightarrow> string \<Rightarrow> bool \<times> 'db)
       \<Rightarrow> ('g, 'm, 'j, 'db) control \<Rightarrow> string \<Rightarrow> vscp_event option \<Rightarrow> ('g, 'm, 'j, 'db) control" where
  "discovery G J M render exec c now pev =
     (case pev of None \<Rightarrow> c
      | Some ev \<Rightarrow>
          (case co_db_vscp_daemon c of None \<Rightarrow> c
           | Some db \<Rightarrow>
               discovery_locked G J M render exec db c
                 (g_to_string G (g_of_bytes G (ev_GUID ev)), now)))"

subsection \<open>The contract of the discovery registry\<close>

text \<open>
  A registry of keys \<open>'k\<close>, each reported with a time stamp: reporting a known key does nothing,
  reporting a new one either fails without a trace in the announcements or makes it known and
  announces it once.
\<close>

locale discovery_registry =
  fixes report :: "'s \<Rightarrow> 'k \<times> 't \<Rightarrow> 's"
    and known :: "'s \<Rightarrow> 'k set"
    and announced :: "'s \<Rightarrow> 'a list"
    and entry :: "'s \<Rightarrow> 'k \<times> 't \<Rightarrow> 'a"
  assumes report_known: "fst x \<in> known s \<Longrightarrow> report s x = s"
    and report_new: "fst x \<notin> known s \<Longrightarrow>
          known (report s x) = known s \<and> announced (report s x) = announced s \<or>
          known (report s x) = insert (fst x) (known s) \<and>
          announced (report s x) = announced s @ [entry s x]"
    and entry_stable: "entry (report s y) x = entry s x"
begin

lemma report_mono: "known s \<subseteq> known (report s x)"
  using report_known [of x s] report_new [of x s] by (cases "fst x \<in> known s") auto

lemma reports_mono: "known s \<subseteq> known (foldl report s xs)"
  by (induction xs arbitrary: s) (auto dest: subsetD [OF report_mono])

lemma entry_reports: "entry (foldl report s ys) x = entry s x"
  by (induction ys arbitrary: s) (simp_all add: entry_stable)

text \<open>Whatever is reported, in whatever order the threads come: the announcements that are added
  are those of a selection of the reports, in order, with every key at most once, and these keys
  are exactly the ones that became known.\<close>

lemma reports_announce_once:
  "\<exists>new. subseq new xs \<and> distinct (map fst new) \<and>
         announced (foldl report s xs) = announced s @ map (entry s) new \<and>
         known (foldl report s xs) = known s \<union> fst ` set new \<and>
         fst ` set new \<inter> known s = {}"
proof (induction xs arbitrary: s)
  case Nil
  show ?case by (intro exI [of _ "[]"]) simp
next
  case (Cons x xs)
  from Cons.IH [of "report s x"] obtain new where new:
    "subseq new xs" "distinct (map fst new)"
    "announced (foldl report (report s x) xs) = announced (report s x) @ map (entry s) new"
    "known (foldl report (report s x) xs) = known (report s x) \<union> fst ` set new"
    "fst ` set new \<inter> known (report s x) = {}"
    by (auto simp: entry_stable [abs_def])
  consider (same) "known (report s x) = known s" "announced (report s x) = announced s"
    | (fresh) "fst x \<notin> known s" "known (report s x) = insert (fst x) (known s)"
        "announced (report s x) = announced s @ [entry s x]"
    using report_known [of x s] report_new [of x s] by (cases "fst x \<in> known s") auto
  then show ?case
  proof cases
    case same
    with new show ?thesis by (intro exI [of _ new]) auto
  next
    case fresh
    with new show ?thesis by (intro exI [of _ "x # new"]) auto
  qed
qed

end

text \<open>The control object is such a registry: the map in memory holds the known GUID strings, the
  publish history the announcements.\<close>

definition report_guid ::
    "'g guid_api \<Rightarrow> 'j json_api \<Rightarrow> ('g, 'm) mqtt_api \<Rightarrow> render \<Rightarrow> ('db \<Rightarrow> string \<Rightarrow> bool \<times> 'db)
       \<Rightarrow> ('g, 'm, 'j, 'db) control \<Rightarrow> string \<times> string \<Rightarrow> ('g, 'm, 'j, 'db) control" where
  "report_guid G J M render exec c x =
     (case co_db_vscp_daemon c of None \<Rightarrow> c
      | Some db \<Rightarrow> discovery_locked G J M render exec db c x)"

lemma discovery_report:
  "discovery G J M render exec c now (Some ev) =
     report_guid G J M render exec c (g_to_string G (g_of_bytes G (ev_GUID ev)), now)"
  by (simp add: discovery_def report_guid_def split: option.splits)

interpretation disc: discovery_registry
    "report_guid G J M render exec" "\<lambda>c. dom (co_map_discoveryGuidToName c)" co_published
    "\<lambda>c (gs, now). discovery_publish G J render c gs now"
  for G :: "'g guid_api" and J :: "'j json_api" and M :: "('g, 'm) mqtt_api" and render
    and exec :: "'db \<Rightarrow> string \<Rightarrow> bool \<times> 'db"
proof unfold_locales
  fix x :: "string \<times> string" and s :: "('g, 'm, 'j, 'db) control"
  assume "fst x \<in> dom (co_map_discoveryGuidToName s)"
  then show "report_guid G J M render exec s x = s"
    by (auto simp: report_guid_def discovery_locked_def split: option.splits prod.splits)
next
  fix x :: "string \<times> string" and s :: "('g, 'm, 'j, 'db) control"
  assume "fst x \<notin> dom (co_map_discoveryGuidToName s)"
  then show "dom (co_map_discoveryGuidToName (report_guid G J M render exec s x))
        = dom (co_map_discoveryGuidToName s) \<and>
      co_published (report_guid G J M render exec s x) = co_published s \<or>
      dom (co_map_discoveryGuidToName (report_guid G J M render exec s x))
        = insert (fst x) (dom (co_map_discoveryGuidToName s)) \<and>
      co_published (report_guid G J M render exec s x)
        = co_published s @ [case x of (gs, now) \<Rightarrow> discovery_publish G J render s gs now]"
    by (cases x) (auto simp: report_guid_def discovery_locked_def Let_def
                    split: option.splits prod.splits bool.splits)
next
  fix x y :: "string \<times> string" and s :: "('g, 'm, 'j, 'db) control"
  show "(case x of (gs, now) \<Rightarrow>
           discovery_publish G J render (report_guid G J M render exec s y) gs now)
      = (case x of (gs, now) \<Rightarrow> discovery_publish G J render s gs now)"
    by (cases x; cases y) (simp add: report_guid_def discovery_locked_def discovery_publish_def
          Let_def split: option.splits prod.splits bool.splits)
qed

text \<open>Whatever events the driver threads report, in whatever order, the discovery topic gets at
  most one message per node GUID: the new messages are those of a selection of the reports, in
  report order, with pairwise different GUIDs, none of which was known before, and exactly these
  GUIDs are remembered.\<close>

lemma discovery_announces_once:
  "\<exists>new. subseq new (map (\<lambda>(ev, now). (g_to_string G (g_of_bytes G (ev_GUID ev)), now)) evs) \<and>
         distinct (map fst new) \<and>
         fst ` set new \<inter> dom (co_map_discoveryGuidToName c) = {} \<and>
         (let c' = foldl (\<lambda>c (ev, now). discovery G J M render exec c now (Some ev)) c evs
          in co_published c' =
               co_published c @ map (\<lambda>(gs, now). discovery_publish G J render c gs now) new \<and>
             dom (co_map_discoveryGuidToName c') =
               dom (co_map_discoveryGuidToName c) \<union> fst ` set new)"
proof -
  let ?key = "\<lambda>(ev, now :: string). (g_to_string G (g_of_bytes G (ev_GUID ev)), now)"
  have fold: "foldl (\<lambda>c (ev, now). discovery G J M render exec c now (Some ev)) c evs
      = foldl (report_guid G J M render exec) c (map ?key evs)"
    by (induction evs arbitrary: c) (auto simp: discovery_report)
  obtain new where "subseq new (map ?key evs)" "distinct (map fst new)"
    "co_published (foldl (report_guid G J M render exec) c (map ?key evs)) =
       co_published c @ map (\<lambda>(gs, now). discovery_publish G J render c gs now) new"
    "dom (co_map_discoveryGuidToName (foldl (report_guid G J M render exec) c (map ?key evs))) =
       dom (co_map_discoveryGuidToName c) \<union> fst ` set new"
    "fst ` set new \<inter> dom (co_map_discoveryGuidToName c) = {}"
    using disc.reports_announce_once [where s = c and xs = "map ?key evs" and G = G and J = J
      and M = M and render = render and exec = exec] by blast
  then show ?thesis unfolding fold Let_def by (intro exI [of _ new]) simp
qed

text \<open>C35: When the database refuses the row of a new node, discovery publishes nothing and does not
  remember the node, so that its next event tries again: if the row is stored then, the node is
  announced by that event, with its time, and by no later one.\<close>

theorem discovery_failed_insert:
  assumes "co_db_vscp_daemon c = Some db"
    and "co_map_discoveryGuidToName c (g_to_string G (g_of_bytes G (ev_GUID ev))) = None"
    and "exec db (discovery_sql now (g_to_string G (g_of_bytes G (ev_GUID ev)))) = (False, db')"
    and "exec db' (discovery_sql later (g_to_string G (g_of_bytes G (ev_GUID ev)))) = (True, db'')"
  shows "let report = (\<lambda>c now. discovery G J M render exec c now (Some ev));
             gs = g_to_string G (g_of_bytes G (ev_GUID ev)); c2 = report (report c now) later
         in report c now = c\<lparr>co_db_vscp_daemon := Some db'\<rparr> \<and>
            co_published c2 = co_published c @ [discovery_publish G J render c gs later] \<and>
            co_map_discoveryGuidToName c2 = (co_map_discoveryGuidToName c)(gs \<mapsto> ''Discovered'') \<and>
            report c2 once_more = c2"
  using assms
  by (simp add: discovery_def discovery_locked_def discovery_publish_def Let_def split: prod.splits)

theorem discovery_failed_insert_witness:
  "\<exists>exec c ev. co_published (discovery guid0 json0 mqtt0 render0 exec
       (discovery guid0 json0 mqtt0 render0 exec c ''12'' (Some ev)) ''13'' (Some ev))
     = [discovery_publish guid0 json0 render0 (c :: (u8 list, nat, jv, nat) control)
          (g_to_string guid0 (g_of_bytes guid0 (ev_GUID ev))) ''13'']"
proof -
  let ?exec = "\<lambda>(db :: nat) (q :: string). (db > 0, Suc db)"
  let ?c = "(CControlObject_new guid0 mqtt0 :: (u8 list, nat, jv, nat) control)\<lparr>co_db_vscp_daemon := Some 0\<rparr>"
  have published: "co_published (discovery guid0 json0 mqtt0 render0 ?exec
       (discovery guid0 json0 mqtt0 render0 ?exec ?c ''12'' (Some zero_event)) ''13'' (Some zero_event))
     = co_published ?c @ [discovery_publish guid0 json0 render0 ?c
          (g_to_string guid0 (g_of_bytes guid0 (ev_GUID zero_event))) ''13'']"
  proof -
    have "co_map_discoveryGuidToName ?c (g_to_string guid0 (g_of_bytes guid0 (ev_GUID zero_event))) = None"
      by (simp add: CControlObject_new_def Let_def)
    note D = discovery_failed_insert [where exec = ?exec and now = "''12''" and later = "''13''"
        and c = ?c and J = json0 and M = mqtt0 and render = render0 and db = 0 and db' = 1
        and db'' = 2, OF _ this, unfolded Let_def, THEN conjunct2, THEN conjunct1]
    show ?thesis by (rule D) simp_all
  qed
  have "co_published ?c = []" by (simp add: CControlObject_new_def Let_def)
  from published [unfolded this append_Nil] show ?thesis by (intro exI)
qed

lemma discovery_frame [frame_simps]:
  "co_deviceList (discovery G J M render exec c now pev) = co_deviceList c"
  "co_bQuit (discovery G J M render exec c now pev) = co_bQuit c"
  "co_guid (discovery G J M render exec c now pev) = co_guid c"
  "co_sent (discovery G J M render exec c now pev) = co_sent c"
  "co_map_class_id2Token (discovery G J M render exec c now pev) = co_map_class_id2Token c"
  "co_map_type_id2Token (discovery G J M render exec c now pev) = co_map_type_id2Token c"
  by (auto simp: discovery_def discovery_locked_def Let_def split: option.splits prod.splits
        bool.splits)

end
