(* ===== verification/Config.thy ===== *)
theory Config
  imports ControlObject
begin

text \<open>
  The configuration reader of the control object (\<open>controlobject.cpp\<close>: \<open>readEncryptionKey\<close>,
  \<open>readJSON\<close>, \<open>readConfiguration\<close>). A section of \<open>readJSON\<close> is a step on the control object that
  ends with \<open>Inr True\<close> (go on), \<open>Inr False\<close> (\<open>return false\<close>) or \<open>Inl\<close> of an exception that leaves
  \<open>readJSON\<close>, always with the state as it is at that moment.
\<close>

type_synonym 's cstep = "'s \<Rightarrow> (json_exn + bool) \<times> 's"

definition then_step ::
    "('s \<Rightarrow> ('x + bool) \<times> 's) \<Rightarrow> ('s \<Rightarrow> ('x + bool) \<times> 's) \<Rightarrow> 's \<Rightarrow> ('x + bool) \<times> 's" where
  "then_step a b = (\<lambda>s. case a s of (r, s') \<Rightarrow> if r = Inr True then b s' else (r, s'))"

fun for_elems :: "('e \<Rightarrow> 's cstep) \<Rightarrow> 'e list \<Rightarrow> 's cstep" where
  "for_elems f [] = (\<lambda>s. (Inr True, s))"
| "for_elems f (e # es) = then_step (f e) (for_elems f es)"

text \<open>\<open>j[key].get<std::string>()\<close> on a constant and on a mutable value.\<close>

definition at_string :: "'j json_api \<Rightarrow> 'j \<Rightarrow> string \<Rightarrow> json_exn + string" where
  "at_string J j key = (case js_at J j key of Inl e \<Rightarrow> Inl e | Inr v \<Rightarrow> js_get_string J v)"

subsection \<open>The general section\<close>

text \<open>One required string: the \<open>try\<close> block turns every exception into \<open>return false\<close>.\<close>

definition read_required ::
    "'j json_api \<Rightarrow> 'j \<Rightarrow> string \<Rightarrow> (string \<Rightarrow> 's \<Rightarrow> 's) \<Rightarrow> 's cstep" where
  "read_required J j key set_field s =
     (if js_contains J j key then
        (case at_string J j key of
           Inr v \<Rightarrow> (Inr True, set_field v s)
         | Inl JsonTypeError \<Rightarrow> (Inr False, s)
         | Inl JsonUndefined \<Rightarrow> (Inl JsonUndefined, s))
      else (Inr False, s))"

definition read_general ::
    "'j json_api \<Rightarrow> 'g guid_api \<Rightarrow> 'j \<Rightarrow> ('g, 'm, 'j, 'db) control cstep" where
  "read_general J G j =
     then_step (read_required J j ''runasuser'' (\<lambda>v c. c\<lparr>co_runAsUser := v\<rparr>))
    (then_step (read_required J j ''guid'' (\<lambda>v c. c\<lparr>co_guid := g_from_string G (co_guid c) v\<rparr>))
    (then_step (read_required J j ''servername'' (\<lambda>v c. c\<lparr>co_strServerName := v\<rparr>))
    (then_step (read_required J j ''classtypedb''
                  (\<lambda>v c. c\<lparr>co_pathClassTypeDefinitionDb := v\<rparr>))
               (read_required J j ''maindb'' (\<lambda>v c. c\<lparr>co_pathMainDb := v\<rparr>)))))"

text \<open>
  \<open>read\<close> is the content of a file, empty where it cannot be read; \<open>hex\<close> is
  \<open>vscp_hexStr2ByteArray\<close>: the number of bytes it decoded and the buffer it leaves.
\<close>

definition readEncryptionKey ::
    "(string \<Rightarrow> string) \<Rightarrow> (u8 list \<Rightarrow> nat \<Rightarrow> string \<Rightarrow> nat \<times> u8 list) \<Rightarrow> string
       \<Rightarrow> ('g, 'm, 'j, 'db) control \<Rightarrow> bool \<times> ('g, 'm, 'j, 'db) control" where
  "readEncryptionKey read hex path c =
     (let (n, key) = hex (co_vscp_key c) 32 (c_str (read path))
      in (n = 32, c\<lparr>co_vscp_key := key\<rparr>))"

definition read_vscpkey ::
    "'j json_api \<Rightarrow> (string \<Rightarrow> string) \<Rightarrow> (u8 list \<Rightarrow> nat \<Rightarrow> string \<Rightarrow> nat \<times> u8 list) \<Rightarrow> 'j
       \<Rightarrow> ('g, 'm, 'j, 'db) control cstep" where
  "read_vscpkey J read hex j c =
     (case (if js_contains J j ''vscpkey'' then at_string J j ''vscpkey'' else Inr []) of
        Inl JsonTypeError \<Rightarrow> (Inr False, c)
      | Inl JsonUndefined \<Rightarrow> (Inl JsonUndefined, c)
      | Inr path \<Rightarrow> (let (rv, c') = readEncryptionKey read hex path c in (Inr True, c')))"

subsection \<open>The logging section\<close>

text \<open>
  Every value is read under a \<open>contains\<close> guard and inside a \<open>try\<close> block, so a missing or ill-typed
  value leaves the current one. \<open>lower\<close> is \<open>vscp_makeLower\<close>. The four level chains of the code are
  the same text, once per sink.
\<close>

definition read_default :: "'j json_api \<Rightarrow> ('j \<Rightarrow> json_exn + 'v) \<Rightarrow> 'j \<Rightarrow> string \<Rightarrow> 'v \<Rightarrow> 'v" where
  "read_default J get L key cur =
     (if js_contains J L key then
        (case js_at J L key of Inl e \<Rightarrow> cur
         | Inr v \<Rightarrow> (case get v of Inl e \<Rightarrow> cur | Inr x \<Rightarrow> x))
      else cur)"

definition parse_level :: "string \<Rightarrow> log_level \<Rightarrow> log_level" where
  "parse_level str cur =
     (if str_find str ''off'' \<noteq> None then L_off
      else if str_find str ''critical'' \<noteq> None then L_critical
      else if str_find str ''err'' \<noteq> None then L_err
      else if str_find str ''warn'' \<noteq> None then L_warn
      else if str_find str ''info'' \<noteq> None then L_info
      else if str_find str ''debug'' \<noteq> None then L_debug
      else if str_find str ''trace'' \<noteq> None then L_trace
      else cur)"

definition read_level ::
    "'j json_api \<Rightarrow> (string \<Rightarrow> string) \<Rightarrow> 'j \<Rightarrow> string \<Rightarrow> log_level \<Rightarrow> log_level" where
  "read_level J lower L key cur =
     (if js_contains J L key
      then parse_level (lower (read_default J (js_get_string J) L key [])) cur else cur)"

definition read_file_log ::
    "'j json_api \<Rightarrow> (string \<Rightarrow> string) \<Rightarrow> 'j \<Rightarrow> log_config \<Rightarrow> log_config" where
  "read_file_log J lower L g =
     g\<lparr>lg_bEnableFileLog := read_default J (js_get_bool J) L ''file-enable-log'' (lg_bEnableFileLog g),
       lg_fileLogLevel := read_level J lower L ''file-log-level'' (lg_fileLogLevel g),
       lg_fileLogPattern := read_default J (js_get_string J) L ''file-pattern'' (lg_fileLogPattern g),
       lg_path_to_log_file := read_default J (js_get_string J) L ''file-path'' (lg_path_to_log_file g),
       lg_max_log_size := read_default J (js_get_u32 J) L ''file-max-size'' (lg_max_log_size g),
       lg_max_log_files := read_default J (js_get_u16 J) L ''file-max-files'' (lg_max_log_files g)\<rparr>"

definition read_console_log ::
    "'j json_api \<Rightarrow> (string \<Rightarrow> string) \<Rightarrow> 'j \<Rightarrow> log_config \<Rightarrow> log_config" where
  "read_console_log J lower L g =
     g\<lparr>lg_bEnableConsoleLog :=
         read_default J (js_get_bool J) L ''console-enable-log'' (lg_bEnableConsoleLog g),
       lg_consoleLogLevel := read_level J lower L ''console-log-level'' (lg_consoleLogLevel g),
       lg_consoleLogPattern :=
         read_default J (js_get_string J) L ''console-pattern'' (lg_consoleLogPattern g)\<rparr>"

definition read_sys_log ::
    "'j json_api \<Rightarrow> (string \<Rightarrow> string) \<Rightarrow> 'j \<Rightarrow> log_config \<Rightarrow> log_config" where
  "read_sys_log J lower L g =
     g\<lparr>lg_bEnableSysLog :=
         read_default J (js_get_bool J) L ''syslog-enable-log'' (lg_bEnableSysLog g),
       lg_sysLogLevel := read_level J lower L ''syslog-log-level'' (lg_sysLogLevel g),
       lg_sysLogIdent := read_default J (js_get_string J) L ''syslog-ident'' (lg_sysLogIdent g)\<rparr>"

definition read_udp_log ::
    "'j json_api \<Rightarrow> (string \<Rightarrow> string) \<Rightarrow> 'j \<Rightarrow> log_config \<Rightarrow> log_config" where
  "read_udp_log J lower L g =
     g\<lparr>lg_bEnableUdpLog := read_default J (js_get_bool J) L ''udp-enable-log'' (lg_bEnableUdpLog g),
       lg_udpLogLevel := read_level J lower L ''udp-log-level'' (lg_udpLogLevel g),
       lg_udpLogPattern := read_default J (js_get_string J) L ''udp-pattern'' (lg_udpLogPattern g),
       lg_udpLogHost := read_default J (js_get_string J) L ''udp-host'' (lg_udpLogHost g),
       lg_udpLogPort := read_default J (js_get_u16 J) L ''udp-port'' (lg_udpLogPort g)\<rparr>"

text \<open>A section that is read only when \<open>j\<close> has an object under \<open>key\<close>: \<open>contains\<close> and then
  \<open>is_object\<close>, from left to right.\<close>

definition with_object ::
    "'j json_api \<Rightarrow> 'j \<Rightarrow> string \<Rightarrow> ('j \<Rightarrow> 's cstep) \<Rightarrow> 's cstep \<Rightarrow> 's cstep" where
  "with_object J j key present absent s =
     (if js_contains J j key then
        (case js_at J j key of Inl e \<Rightarrow> (Inl e, s)
         | Inr v \<Rightarrow> if js_is_object J v then present v s else absent s)
      else absent s)"

definition go_on :: "'s cstep" where "go_on s = (Inr True, s)"

definition read_logging ::
    "'j json_api \<Rightarrow> (string \<Rightarrow> string) \<Rightarrow> 'j \<Rightarrow> ('g, 'm, 'j, 'db) control cstep" where
  "read_logging J lower j =
     with_object J j ''logging''
       (\<lambda>L c. (Inr True,
          c\<lparr>co_log := read_udp_log J lower L (read_sys_log J lower L
                        (read_console_log J lower L (read_file_log J lower L (co_log c))))\<rparr>))
       go_on"

subsection \<open>The MQTT section\<close>

text \<open>A topic that may be given; here nothing catches a type error.\<close>

definition read_topic :: "'j json_api \<Rightarrow> 'j \<Rightarrow> string \<Rightarrow> (string \<Rightarrow> 's \<Rightarrow> 's) \<Rightarrow> 's cstep" where
  "read_topic J v key set_field s =
     (if js_contains J v key then
        (case at_string J v key of Inl e \<Rightarrow> (Inl e, s) | Inr t \<Rightarrow> (Inr True, set_field t s))
      else (Inr True, s))"

definition init_client ::
    "'j json_api \<Rightarrow> ('g, 'm) mqtt_api \<Rightarrow> 'j \<Rightarrow> ('g, 'm, 'j, 'db) control cstep" where
  "init_client J M v c =
     (let (ok, m) = mc_init_json M (co_mqttClient c) (js_dump J v)
      in (Inr ok, c\<lparr>co_mqttClient := m\<rparr>))"

definition add_base_prefix :: "('g, 'm, 'j, 'db) control cstep" where
  "add_base_prefix c =
     (Inr True,
      if length (co_topicDaemonBase c) \<noteq> 0
      then c\<lparr>co_topicDrivers := co_topicDaemonBase c @ co_topicDrivers c,
             co_topicDiscovery := co_topicDaemonBase c @ co_topicDiscovery c\<rparr>
      else c)"

definition read_mqtt ::
    "'j json_api \<Rightarrow> ('g, 'm) mqtt_api \<Rightarrow> 'j \<Rightarrow> ('g, 'm, 'j, 'db) control cstep" where
  "read_mqtt J M j =
     with_object J j ''mqtt''
       (\<lambda>v. then_step (init_client J M v)
           (then_step (read_topic J v ''topic-daemon-base'' (\<lambda>t c. c\<lparr>co_topicDaemonBase := t\<rparr>))
           (then_step (read_topic J v ''topic-drivers'' (\<lambda>t c. c\<lparr>co_topicDrivers := t\<rparr>))
           (then_step (read_topic J v ''topic-discovery'' (\<lambda>t c. c\<lparr>co_topicDiscovery := t\<rparr>))
                      add_base_prefix))))
       go_on"

subsection \<open>The drivers section\<close>

text \<open>
  The tests of a driver entry, \<open>(*it)[key].is_string()\<close> and the like, short-circuited from the
  left. The mutable \<open>operator[]\<close> may store a null value under a missing key; a later read of that
  key then yields the same null, so the entry itself need not be threaded through.
\<close>

fun entry_tests :: "'j json_api \<Rightarrow> 'j \<Rightarrow> (string \<times> ('j \<Rightarrow> bool)) list \<Rightarrow> json_exn + bool" where
  "entry_tests J e [] = Inr True"
| "entry_tests J e ((key, test) # rest) =
     (case js_index J e key of Inl x \<Rightarrow> Inl x
      | Inr v \<Rightarrow> if test v then entry_tests J e rest else Inr False)"

definition index_get :: "'j json_api \<Rightarrow> ('j \<Rightarrow> json_exn + 'v) \<Rightarrow> 'j \<Rightarrow> string \<Rightarrow> json_exn + 'v" where
  "index_get J get e key = (case js_index J e key of Inl x \<Rightarrow> Inl x | Inr v \<Rightarrow> get v)"

text \<open>Sequencing of reads that may throw.\<close>

definition or_throw :: "'x + 'a \<Rightarrow> ('a \<Rightarrow> 'x + 'b) \<Rightarrow> 'x + 'b" where
  "or_throw r f = (case r of Inl e \<Rightarrow> Inl e | Inr v \<Rightarrow> f v)"

text \<open>The flags are a number, or a string that \<open>vscp_readStringValue\<close> reads, or 0.\<close>

definition entry_flags :: "'j json_api \<Rightarrow> (string \<Rightarrow> u32) \<Rightarrow> 'j \<Rightarrow> json_exn + u32" where
  "entry_flags J readval e =
     or_throw (js_index J e ''flags'')
       (\<lambda>v. if js_is_number J v then js_get_u32 J v
            else if js_is_string J v
            then or_throw (js_get_string J v) (\<lambda>s. Inr (readval s)) else Inr 0)"

text \<open>The arguments of \<open>addItem\<close> for a level I entry, or \<open>None\<close> where the entry is passed over.\<close>

definition level1_entry ::
    "'j json_api \<Rightarrow> 'g guid_api \<Rightarrow> (string \<Rightarrow> u32) \<Rightarrow> 'j \<Rightarrow> json_exn + 'g item_args option" where
  "level1_entry J G readval e =
     or_throw (js_value_bool J e ''enable'' False) (\<lambda>enable.
     if \<not> enable then Inr None else
     or_throw (entry_tests J e
                 [(''name'', js_is_string J), (''config'', js_is_string J),
                  (''path'', js_is_string J), (''guid'', js_is_string J),
                  (''translation'', js_is_number J)]) (\<lambda>usable.
     if \<not> usable then Inr None else
     or_throw (entry_flags J readval e) (\<lambda>flags.
     or_throw (index_get J (js_get_string J) e ''name'') (\<lambda>name.
     or_throw (index_get J (js_get_string J) e ''config'') (\<lambda>config.
     or_throw (index_get J (js_get_string J) e ''path'') (\<lambda>path.
     or_throw (index_get J (js_get_string J) e ''guid'') (\<lambda>guid.
     or_throw (index_get J (js_get_u8 J) e ''translation'') (\<lambda>translation.
     Inr (Some (name, config, path, flags, g_of_string G guid, VSCP_DRIVER_LEVEL1,
                ucast translation))))))))))"

definition level2_entry ::
    "'j json_api \<Rightarrow> 'g guid_api \<Rightarrow> 'j \<Rightarrow> json_exn + 'g item_args option" where
  "level2_entry J G e =
     or_throw (js_value_bool J e ''enable'' False) (\<lambda>enable.
     if \<not> enable then Inr None else
     or_throw (entry_tests J e
                 [(''name'', js_is_string J), (''path-config'', js_is_string J),
                  (''path-driver'', js_is_string J), (''guid'', js_is_string J)]) (\<lambda>usable.
     if \<not> usable then Inr None else
     or_throw (index_get J (js_get_string J) e ''name'') (\<lambda>name.
     or_throw (index_get J (js_get_string J) e ''path-config'') (\<lambda>config.
     or_throw (index_get J (js_get_string J) e ''path-driver'') (\<lambda>path.
     or_throw (index_get J (js_get_string J) e ''guid'') (\<lambda>guid.
     Inr (Some (name, config, path, 0, g_of_string G guid, VSCP_DRIVER_LEVEL2,
                NO_TRANSLATION))))))))"

text \<open>The driver's own MQTT block goes to the device that the name leads to.\<close>

definition attach_mqtt ::
    "'j json_api \<Rightarrow> ('g, 'm) mqtt_api \<Rightarrow> 'j \<Rightarrow> string \<Rightarrow> ('g, 'm, 'j, 'db) control cstep" where
  "attach_mqtt J M e name =
     with_object (J\<lparr>js_at := js_index J\<rparr>) e ''mqtt''
       (\<lambda>v c. case getDeviceItemFromName (co_deviceList c) name of
          None \<Rightarrow> (Inr True, c)
        | Some i \<Rightarrow>
            (let d = (co_deviceList c ! i)\<lparr>di_mqttConfig := v\<rparr>;
                 (ok, m) = mc_init_json M (di_mqttClient d) (js_dump J v)
             in (Inr ok, c\<lparr>co_deviceList := (co_deviceList c)[i := d\<lparr>di_mqttClient := m\<rparr>]\<rparr>)))
       go_on"

definition add_driver ::
    "'j json_api \<Rightarrow> 'g guid_api \<Rightarrow> ('g, 'm) mqtt_api \<Rightarrow> (string \<Rightarrow> bool)
       \<Rightarrow> ('j \<Rightarrow> json_exn + 'g item_args option) \<Rightarrow> 'j \<Rightarrow> ('g, 'm, 'j, 'db) control cstep" where
  "add_driver J G M exists entry e c =
     (case entry e of
        Inl x \<Rightarrow> (Inl x, c)
      | Inr None \<Rightarrow> (Inr True, c)
      | Inr (Some (name, config, path, flags, guid, level, tr)) \<Rightarrow>
          (case addItem exists G M J (co_guid c) (co_deviceList c) name config path flags guid
                  level tr of
             (False, ds) \<Rightarrow> (Inr True, c\<lparr>co_deviceList := ds\<rparr>)
           | (True, ds) \<Rightarrow> attach_mqtt J M e name (c\<lparr>co_deviceList := ds\<rparr>)))"

text \<open>One list of drivers: the block runs when the value is \<^emph>\<open>not\<close> an object under the key.\<close>

definition read_driver_list ::
    "'j json_api \<Rightarrow> 'j \<Rightarrow> string \<Rightarrow> ('j \<Rightarrow> 's cstep) \<Rightarrow> 's cstep" where
  "read_driver_list J D key add =
     with_object J D key (\<lambda>v. go_on)
       (\<lambda>c. case js_at J D key of Inl e \<Rightarrow> (Inl e, c) | Inr sub \<Rightarrow> for_elems add (js_elems J sub) c)"

definition read_drivers ::
    "'j json_api \<Rightarrow> 'g guid_api \<Rightarrow> ('g, 'm) mqtt_api \<Rightarrow> (string \<Rightarrow> bool) \<Rightarrow> (string \<Rightarrow> u32) \<Rightarrow> 'j
       \<Rightarrow> ('g, 'm, 'j, 'db) control cstep" where
  "read_drivers J G M exists readval j =
     with_object J j ''drivers''
       (\<lambda>D. then_step
          (read_driver_list J D ''level1'' (add_driver J G M exists (level1_entry J G readval)))
          (read_driver_list J D ''level2'' (add_driver J G M exists (level2_entry J G))))
       go_on"

subsection \<open>The whole configuration\<close>

text \<open>The operating system and the helpers a configuration run uses.\<close>

record cfg_env =
  ce_exists :: "string \<Rightarrow> bool"
  ce_read :: "string \<Rightarrow> string"
  ce_hex :: "u8 list \<Rightarrow> nat \<Rightarrow> string \<Rightarrow> nat \<times> u8 list"
  ce_lower :: "string \<Rightarrow> string"
  ce_readval :: "string \<Rightarrow> u32"

definition readJSON ::
    "'j json_api \<Rightarrow> 'g guid_api \<Rightarrow> ('g, 'm) mqtt_api \<Rightarrow> cfg_env \<Rightarrow> 'j
       \<Rightarrow> ('g, 'm, 'j, 'db) control cstep" where
  "readJSON J G M E j =
     then_step (read_general J G j)
    (then_step (read_vscpkey J (ce_read E) (ce_hex E) j)
    (then_step (read_logging J (ce_lower E) j)
    (then_step (read_mqtt J M j)
               (read_drivers J G M (ce_exists E) (ce_readval E) j))))"

text \<open>\<open>parse\<close> is the JSON parser on the file: \<open>None\<close> where it throws.\<close>

definition readConfiguration ::
    "'j json_api \<Rightarrow> 'g guid_api \<Rightarrow> ('g, 'm) mqtt_api \<Rightarrow> cfg_env \<Rightarrow> (string \<Rightarrow> 'j option) \<Rightarrow> string
       \<Rightarrow> ('g, 'm, 'j, 'db) control cstep" where
  "readConfiguration J G M E parse cfgfile c =
     (case parse cfgfile of None \<Rightarrow> (Inr False, c) | Some j \<Rightarrow> readJSON J G M E j c)"

subsection \<open>Sequencing\<close>

text \<open>What a step keeps, whether it goes on, fails or throws.\<close>

definition keeps :: "('s \<Rightarrow> bool) \<Rightarrow> 's cstep \<Rightarrow> bool" where
  "keeps P f \<longleftrightarrow> (\<forall>s. P s \<longrightarrow> P (snd (f s)))"

named_theorems keeps_intros \<open>steps that keep a predicate\<close>

lemma keepsI: "(\<And>s. P s \<Longrightarrow> P (snd (f s))) \<Longrightarrow> keeps P f"
  by (simp add: keeps_def)

lemma keepsD: "keeps P f \<Longrightarrow> P s \<Longrightarrow> P (snd (f s))"
  by (simp add: keeps_def)

lemma keeps_then [keeps_intros]: "keeps P a \<Longrightarrow> keeps P b \<Longrightarrow> keeps P (then_step a b)"
  by (fastforce simp: keeps_def then_step_def split: prod.splits)

lemma keeps_go_on [keeps_intros]: "keeps P go_on"
  by (simp add: keeps_def go_on_def)

lemma keeps_for [keeps_intros]: "(\<And>e. keeps P (f e)) \<Longrightarrow> keeps P (for_elems f es)"
proof (induction es)
  case (Cons e es)
  then show ?case by (simp add: keeps_then)
qed (simp add: keeps_def)

lemma keeps_with_object [keeps_intros]:
  "(\<And>v. keeps P (present v)) \<Longrightarrow> keeps P absent \<Longrightarrow> keeps P (with_object J j key present absent)"
  by (auto simp: keeps_def with_object_def split: sum.splits)

lemma keeps_required [keeps_intros]:
  "(\<And>v s. P s \<Longrightarrow> P (set_field v s)) \<Longrightarrow> keeps P (read_required J j key set_field)"
  by (auto simp: keeps_def read_required_def split: sum.splits json_exn.splits)

lemma keeps_topic [keeps_intros]:
  "(\<And>v s. P s \<Longrightarrow> P (set_field v s)) \<Longrightarrow> keeps P (read_topic J v key set_field)"
  by (auto simp: keeps_def read_topic_def split: sum.splits)

lemma keeps_vscpkey [keeps_intros]:
  "(\<And>k s. P s \<Longrightarrow> P (s\<lparr>co_vscp_key := k\<rparr>)) \<Longrightarrow> keeps P (read_vscpkey J read hex j)"
  by (auto simp: keeps_def read_vscpkey_def readEncryptionKey_def Let_def
        split: sum.splits json_exn.splits prod.splits)

lemma keeps_init_client [keeps_intros]:
  "(\<And>m s. P s \<Longrightarrow> P (s\<lparr>co_mqttClient := m\<rparr>)) \<Longrightarrow> keeps P (init_client J M v)"
  by (auto simp: keeps_def init_client_def Let_def split: prod.splits)

lemma then_step_True:
  "then_step a b s = (Inr True, s') \<longleftrightarrow> (\<exists>t. a s = (Inr True, t) \<and> b t = (Inr True, s'))"
  by (auto simp: then_step_def split: prod.splits if_splits)

lemma read_required_True:
  "read_required J j key set_field s = (Inr True, s') \<longleftrightarrow>
     js_contains J j key \<and> (\<exists>v. at_string J j key = Inr v \<and> s' = set_field v s)"
  by (auto simp: read_required_def split: sum.splits json_exn.splits)

text \<open>A key under which \<open>j\<close> has a string.\<close>

definition is_string_key :: "'j json_api \<Rightarrow> 'j \<Rightarrow> string \<Rightarrow> bool" where
  "is_string_key J j key \<longleftrightarrow> js_contains J j key \<and> (\<exists>v. at_string J j key = Inr v)"

lemma read_required_stops:
  assumes "json_laws J" and "\<not> is_string_key J j key"
  shows "read_required J j key set_field s = (Inr False, s)"
proof (cases "js_contains J j key")
  case True
  with assms(1) obtain v where v: "js_at J j key = Inr v" by (blast dest: json_lawsD(1))
  with True assms(2) obtain e where e: "js_get_string J v = Inl e"
    by (cases "js_get_string J v") (auto simp: at_string_def is_string_key_def)
  have "e = JsonTypeError"
    using json_lawsD(7) [OF assms(1), of v] e by (cases e) auto
  with True v e show ?thesis by (simp add: read_required_def at_string_def)
qed (simp add: read_required_def)

subsection \<open>The general settings\<close>

text \<open>The strings a configuration must have.\<close>

definition required_keys :: "string list" where
  "required_keys = [''runasuser'', ''guid'', ''servername'', ''classtypedb'', ''maindb'']"

lemma read_general_True:
  "read_general J G j c = (Inr True, c') \<longleftrightarrow>
     (\<forall>k\<in>set required_keys. js_contains J j k) \<and>
     (\<exists>u g n t m. at_string J j ''runasuser'' = Inr u \<and> at_string J j ''guid'' = Inr g \<and>
        at_string J j ''servername'' = Inr n \<and> at_string J j ''classtypedb'' = Inr t \<and>
        at_string J j ''maindb'' = Inr m \<and>
        c' = c\<lparr>co_runAsUser := u, co_guid := g_from_string G (co_guid c) g, co_strServerName := n,
               co_pathClassTypeDefinitionDb := t, co_pathMainDb := m\<rparr>)"
  unfolding read_general_def then_step_True read_required_True required_keys_def
  by auto

text \<open>The fields the general section sets, and no later section touches.\<close>

definition general_fields ::
    "('g, 'm, 'j, 'db) control \<Rightarrow> string \<times> 'g \<times> string \<times> string \<times> string" where
  "general_fields c = (co_runAsUser c, co_guid c, co_strServerName c,
                       co_pathClassTypeDefinitionDb c, co_pathMainDb c)"

lemma keeps_attach [keeps_intros]:
  "(\<And>ds s. P s \<Longrightarrow> P (s\<lparr>co_deviceList := ds\<rparr>)) \<Longrightarrow> keeps P (attach_mqtt J M e name)"
  unfolding attach_mqtt_def
  by (intro keeps_intros) (auto simp: keeps_def Let_def split: option.splits prod.splits)

lemma keeps_add_driver [keeps_intros]:
  assumes "\<And>ds s. P s \<Longrightarrow> P (s\<lparr>co_deviceList := ds\<rparr>)"
  shows "keeps P (add_driver J G M exists entry e)"
proof (rule keepsI)
  fix s assume s: "P s"
  have "P (snd (attach_mqtt J M e name (s\<lparr>co_deviceList := ds\<rparr>)))" for name ds
    by (rule keepsD [OF keeps_attach]) (simp_all add: assms s)
  with s assms show "P (snd (add_driver J G M exists entry e s))"
    by (auto simp: add_driver_def split: sum.splits option.splits prod.splits bool.splits)
qed

lemma keeps_driver_list [keeps_intros]:
  assumes "\<And>e. keeps P (add e)"
  shows "keeps P (read_driver_list J D key add)"
proof -
  have "keeps P (\<lambda>c. case js_at J D key of Inl e \<Rightarrow> (Inl e, c)
                     | Inr sub \<Rightarrow> for_elems add (js_elems J sub) c)"
  proof (cases "js_at J D key")
    case (Inr sub)
    have "keeps P (for_elems add (js_elems J sub))" by (intro keeps_intros assms)
    with Inr show ?thesis by (simp add: keeps_def)
  qed (simp add: keeps_def)
  then show ?thesis unfolding read_driver_list_def by (intro keeps_intros)
qed

lemma keeps_read_drivers [keeps_intros]:
  assumes "\<And>ds s. P s \<Longrightarrow> P (s\<lparr>co_deviceList := ds\<rparr>)"
  shows "keeps P (read_drivers J G M exists readval j)"
  unfolding read_drivers_def by (intro keeps_intros assms)

lemma keeps_read_mqtt [keeps_intros]:
  assumes "\<And>m s. P s \<Longrightarrow> P (s\<lparr>co_mqttClient := m\<rparr>)"
    and "\<And>v s. P s \<Longrightarrow> P (s\<lparr>co_topicDaemonBase := v\<rparr>)"
    and "\<And>v s. P s \<Longrightarrow> P (s\<lparr>co_topicDrivers := v\<rparr>)"
    and "\<And>v s. P s \<Longrightarrow> P (s\<lparr>co_topicDiscovery := v\<rparr>)"
  shows "keeps P (read_mqtt J M j)"
proof -
  have "keeps P add_base_prefix"
    by (simp add: keeps_def add_base_prefix_def assms)
  then show ?thesis unfolding read_mqtt_def by (intro keeps_intros assms)
qed

lemma keeps_read_logging [keeps_intros]:
  "(\<And>g s. P s \<Longrightarrow> P (s\<lparr>co_log := g\<rparr>)) \<Longrightarrow> keeps P (read_logging J lower j)"
  unfolding read_logging_def by (intro keeps_intros) (simp add: keeps_def)

lemma keeps_read_general [keeps_intros]:
  assumes "\<And>v s. P s \<Longrightarrow> P (s\<lparr>co_runAsUser := v\<rparr>)"
    and "\<And>v s. P s \<Longrightarrow> P (s\<lparr>co_guid := v\<rparr>)"
    and "\<And>v s. P s \<Longrightarrow> P (s\<lparr>co_strServerName := v\<rparr>)"
    and "\<And>v s. P s \<Longrightarrow> P (s\<lparr>co_pathClassTypeDefinitionDb := v\<rparr>)"
    and "\<And>v s. P s \<Longrightarrow> P (s\<lparr>co_pathMainDb := v\<rparr>)"
  shows "keeps P (read_general J G j)"
  unfolding read_general_def by (intro keeps_intros assms)

end
