(* ===== verification/WorkLoop.thy ===== *)
theory WorkLoop
  imports Prelude
begin

text \<open>
  The shape the three work loops of \<open>deviceThread\<close> share, \<open>while (!m_bQuit) { ... }\<close>, with the
  instants at which another thread asks it to quit written into the schedule, and the locale
  \<open>message_loop\<close> with what such a loop guarantees: when it ends, and which messages it has handed
  on by then, in which order.
\<close>

text \<open>
  A schedule lists, in the order they happen, the requests to quit (\<open>Stop\<close>, from another thread)
  and the iterations with what the outside answered in them (\<open>Iter\<close>). The flag is atomic and the
  bodies do not read it, so a request during an iteration is one right after it. The loop ends at
  the first test that finds the flag set; \<open>None\<close> is a loop still running when the schedule ends.
\<close>

datatype 'i tick = Stop | Iter 'i

fun work_loop ::
    "('s \<Rightarrow> bool) \<Rightarrow> ('s \<Rightarrow> 's) \<Rightarrow> ('i \<Rightarrow> 's \<Rightarrow> 's) \<Rightarrow> 'i tick list \<Rightarrow> 's \<Rightarrow> 's option" where
  "work_loop quit set_quit body [] s = (if quit s then Some s else None)"
| "work_loop quit set_quit body (Stop # ts) s = work_loop quit set_quit body ts (set_quit s)"
| "work_loop quit set_quit body (Iter i # ts) s =
     (if quit s then Some s else work_loop quit set_quit body ts (body i s))"

text \<open>The iterations that happen before the first request to quit.\<close>

fun before_stop :: "'i tick list \<Rightarrow> 'i list" where
  "before_stop [] = []"
| "before_stop (Stop # ts) = []"
| "before_stop (Iter i # ts) = i # before_stop ts"

lemma before_stop_append:
  "before_stop (map Iter is @ Stop # ts) = is"
  by (induction "is") simp_all

text \<open>
  \<open>quit\<close> is the flag, \<open>set_quit\<close> the other thread's write, \<open>out\<close> the messages handed on so far,
  \<open>emit\<close> those of one iteration, and \<open>same\<close> what the loop leaves unchanged.
\<close>

locale message_loop =
  fixes quit :: "'s \<Rightarrow> bool" and set_quit :: "'s \<Rightarrow> 's" and body :: "'i \<Rightarrow> 's \<Rightarrow> 's"
    and out :: "'s \<Rightarrow> 'e list" and emit :: "'k \<Rightarrow> 'i \<Rightarrow> 'e list" and same :: "'s \<Rightarrow> 'k"
  assumes quit_set: "quit (set_quit s)"
    and quit_body: "quit (body i s) = quit s"
    and out_set: "out (set_quit s) = out s"
    and out_body: "out (body i s) = out s @ emit (same s) i"
    and same_set: "same (set_quit s) = same s"
    and same_body: "same (body i s) = same s"
begin

lemma loop_quit: "quit s \<Longrightarrow> \<exists>s'. work_loop quit set_quit body ts s = Some s' \<and> quit s' \<and>
    out s' = out s \<and> same s' = same s"
proof (induction ts arbitrary: s)
  case (Cons t ts)
  show ?case
  proof (cases t)
    case Stop
    with Cons.IH [of "set_quit s"] show ?thesis by (simp add: quit_set out_set same_set)
  qed (use Cons.prems in auto)
qed simp

text \<open>The loop ends exactly if somebody asks it to (or had asked before it began).\<close>

lemma loop_ends_iff: "work_loop quit set_quit body ts s \<noteq> None \<longleftrightarrow> quit s \<or> Stop \<in> set ts"
proof (induction ts arbitrary: s)
  case (Cons t ts)
  show ?case by (cases t) (simp_all add: Cons.IH quit_set quit_body del: not_None_eq)
qed simp

text \<open>What it has handed on by then.\<close>

lemma loop_out:
  assumes "\<not> quit s" and "work_loop quit set_quit body ts s = Some s'"
  shows "quit s' \<and> same s' = same s \<and> out s' = out s @ concat (map (emit (same s)) (before_stop ts))"
  using assms
proof (induction ts arbitrary: s)
  case (Cons t ts)
  show ?case
  proof (cases t)
    case Stop
    with Cons.prems loop_quit [of "set_quit s" ts] show ?thesis
      by (auto simp: quit_set out_set same_set)
  next
    case (Iter i)
    with Cons.prems Cons.IH [of "body i s"] show ?thesis
      by (auto simp: quit_body out_body same_body)
  qed
qed simp

end

text \<open>A property of the state that every iteration and the request to quit keep holds at the end.\<close>

lemma work_loop_invariant_in:
  assumes "work_loop quit set_quit body ts s = Some s'" and "P s"
    and "\<And>s. P s \<Longrightarrow> P (set_quit s)" and "\<And>i s. Iter i \<in> set ts \<Longrightarrow> P s \<Longrightarrow> P (body i s)"
  shows "P s'"
  using assms(1,2,4)
proof (induction ts arbitrary: s)
  case (Cons t ts)
  then show ?case using assms(3) by (cases t) (auto split: if_splits)
qed (auto split: if_splits)

lemma work_loop_invariant:
  assumes "work_loop quit set_quit body ts s = Some s'" and "P s"
    and "\<And>s. P s \<Longrightarrow> P (set_quit s)" and "\<And>i s. P s \<Longrightarrow> P (body i s)"
  shows "P s'"
  using assms by (rule work_loop_invariant_in)

end
