(* ===== verification/Heartbeat.thy ===== *)
theory Heartbeat
  imports ControlObject WorkLoop
begin

text \<open>
  The daemon's own events (\<open>controlobject.cpp\<close>): \<open>sendEvent\<close>, the four periodic events of
  \<open>periodicEvents\<close>, and the hardware and IP addresses from which the daemon derives a GUID
  (\<open>getMacAddress\<close>, \<open>getIPAddress\<close>). A store outside a buffer is undefined behaviour in the code and
  \<open>None\<close> here.
\<close>

subsection \<open>Constants of the VSCP headers\<close>

text \<open>The class and type codes and the layout of the capability event are defined in the \<open>vscp\<close>
  submodule.\<close>

record vscp_codes =
  vk_CLASS1_INFORMATION :: u16
  vk_INFORMATION_NODE_HEARTBEAT :: u16
  vk_CLASS2_INFORMATION :: u16
  vk_INFORMATION_HEART_BEAT :: u16
  vk_CLASS1_PROTOCOL :: u16
  vk_PROTOCOL_SEGCTRL_HEARTBEAT :: u16
  vk_CLASS2_PROTOCOL :: u16
  vk_PROTOCOL_HIGH_END_SERVER_CAPS :: u16
  vk_OFFSET_GUID :: nat
  vk_OFFSET_IP_ADDR :: nat
  vk_OFFSET_SRV_NAME :: nat
  vk_max_data :: nat      \<comment> \<open>\<open>sizeof (ex.data)\<close>\<close>

text \<open>The documented layout: GUID, IP address and server name do not overlap and end within the 104
  bytes of the event, which fit into the data array.\<close>

definition caps_layout :: "vscp_codes \<Rightarrow> bool" where
  "caps_layout K \<longleftrightarrow>
     vk_OFFSET_GUID K + 16 \<le> vk_OFFSET_IP_ADDR K \<and>
     vk_OFFSET_IP_ADDR K + 4 \<le> vk_OFFSET_SRV_NAME K \<and>
     vk_OFFSET_SRV_NAME K + 64 \<le> 104 \<and> 104 \<le> vk_max_data K"

subsection \<open>Addresses\<close>

text \<open>\<open>getIPAddress\<close>: the loop over \<open>h_addr_list\<close>, whose entries are read as \<open>unsigned long\<close>, into an
  array of 16. \<open>addrs\<close> is what is left of the list at \<open>idx\<close>.\<close>

fun copy_addrs :: "u64 list \<Rightarrow> nat \<Rightarrow> u64 list \<Rightarrow> u64 list option" where
  "copy_addrs [] idx localaddr =
     (if idx < length localaddr then Some (localaddr[idx := 0]) else None)"
| "copy_addrs (a # addrs) idx localaddr =
     (if idx < length localaddr
      then (if idx < 16 then copy_addrs addrs (Suc idx) (localaddr[idx := a])
            else Some (localaddr[idx := a]))
      else None)"

definition set_ats :: "'g guid_api \<Rightarrow> 'g \<Rightarrow> (u8 \<times> u8) list \<Rightarrow> 'g" where
  "set_ats G g ivs = foldl (\<lambda>g (i, v). g_set_at G g i v) g ivs"

text \<open>\<open>host\<close> is the result of \<open>gethostbyname\<close>; \<open>junk\<close> the uninitialised array.\<close>

definition getIPAddress ::
    "'g guid_api \<Rightarrow> u64 list option \<Rightarrow> u64 list \<Rightarrow> 'g \<Rightarrow> (bool \<times> 'g) option" where
  "getIPAddress G host junk guid =
     (let g1 = set_ats G (g_clear G guid)
                 [(0, 0xff), (1, 0xff), (2, 0xff), (3, 0xff), (4, 0xff), (5, 0xff), (6, 0xff), (7, 0xfd)]
      in case host of None \<Rightarrow> Some (False, g1)
         | Some addrs \<Rightarrow>
             (case copy_addrs addrs 0 junk of None \<Rightarrow> None
              | Some la \<Rightarrow>
                  Some (True, set_ats G g1
                    [(8, ucast (drop_bit 24 (la ! 0) AND 0xff)),
                     (9, ucast (drop_bit 16 (la ! 0) AND 0xff)),
                     (10, ucast (drop_bit 8 (la ! 0) AND 0xff)),
                     (11, ucast (la ! 0 AND 0xff)),
                     (12, 0), (13, 0), (14, 0), (15, 0)])))"

text \<open>\<open>getMacAddress\<close> (the branch for Linux): \<open>sock\<close> tells whether the socket could be made, \<open>hw\<close> is
  what \<open>ioctl\<close> delivers for \<open>eth0\<close>.\<close>

definition getMacAddress ::
    "'g guid_api \<Rightarrow> bool \<Rightarrow> u8 list option \<Rightarrow> 'g \<Rightarrow> bool \<times> 'g" where
  "getMacAddress G sock hw guid =
     (let g0 = g_clear G guid
      in if \<not> sock then (False, g0)
         else case hw of None \<Rightarrow> (False, g0)
         | Some sa_data \<Rightarrow>
             (True, set_ats G g0
                [(0, 0xff), (1, 0xff), (2, 0xff), (3, 0xff), (4, 0xff), (5, 0xff), (6, 0xff), (7, 0xfe),
                 (8, sa_data ! 0), (9, sa_data ! 1), (10, sa_data ! 2), (11, sa_data ! 3),
                 (12, sa_data ! 4), (13, sa_data ! 5), (14, 0), (15, 0)]))"

text \<open>The GUID part of \<open>init\<close>.\<close>

definition init_guid ::
    "'g guid_api \<Rightarrow> bool \<Rightarrow> u8 list option \<Rightarrow> u64 list option \<Rightarrow> u64 list \<Rightarrow> 'g \<Rightarrow> 'g option" where
  "init_guid G sock hw host junk guid =
     (if g_is_null G guid then
        (case getMacAddress G sock hw guid of
           (True, g) \<Rightarrow> Some g
         | (False, g) \<Rightarrow> map_option snd (getIPAddress G host junk g))
      else Some guid)"

subsection \<open>Sending\<close>

definition CControlObject_sendEvent ::
    "('g, 'm) mqtt_api \<Rightarrow> ('g, 'm, 'j, 'db) control \<Rightarrow> vscp_event_ex option
       \<Rightarrow> bool \<times> ('g, 'm, 'j, 'db) control" where
  "CControlObject_sendEvent M c pex =
     (case pex of None \<Rightarrow> (False, c)
      | Some ex \<Rightarrow>
          (let (ok, m') = mc_send_ex M (co_mqttClient c) ex
           in (ok, c\<lparr>co_mqttClient := m', co_sent := co_sent c @ [ex]\<rparr>)))"

subsection \<open>Periodic events\<close>

text \<open>What the periodic events read of the outside: the four time stamps, what the \<open>n\<close>-th of the four calls
  of \<open>vscp_setEventExToNow\<close> does to the event, \<open>time ()\<close>, and the host entry of the machine with the
  array it is copied to.\<close>

record clock_host =
  ch_stamps :: "u32 \<times> u32 \<times> u32 \<times> u32"
  ch_set_now :: "nat \<Rightarrow> vscp_event_ex \<Rightarrow> vscp_event_ex"
  ch_time :: u64
  ch_host :: "u64 list option"
  ch_junk :: "u64 list"

text \<open>The part that all four have in common: the one buffer \<open>ex\<close> is used again and again.\<close>

definition ex_header ::
    "'g guid_api \<Rightarrow> 'g \<Rightarrow> u32 \<Rightarrow> (vscp_event_ex \<Rightarrow> vscp_event_ex) \<Rightarrow> u16 \<Rightarrow> u16 \<Rightarrow> vscp_event_ex
       \<Rightarrow> vscp_event_ex" where
  "ex_header G g stamp set_now cls typ ex =
     (set_now (ex\<lparr>ex_obid := 0, ex_head := 0, ex_timestamp := stamp\<rparr>))
       \<lparr>ex_vscp_class := cls, ex_vscp_type := typ, ex_GUID := g_bytes G g\<rparr>"

definition put :: "nat \<Rightarrow> u8 list \<Rightarrow> vscp_event_ex \<Rightarrow> vscp_event_ex option" where
  "put off bs ex = map_option (\<lambda>d. ex\<lparr>ex_data := d\<rparr>) (store_at (ex_data ex) off bs)"

definition zero_data :: "vscp_event_ex \<Rightarrow> vscp_event_ex" where
  "zero_data ex = ex\<lparr>ex_data := replicate (length (ex_data ex)) 0\<rparr>"

text \<open>\<open>memcpy (..., c_str (), min (strlen, 64))\<close>.\<close>

definition name_bytes :: "string \<Rightarrow> u8 list" where
  "name_bytes s = take 64 (bytes_of (c_str s))"

definition class1_heartbeat ::
    "vscp_codes \<Rightarrow> 'g guid_api \<Rightarrow> 'g \<Rightarrow> u32 \<Rightarrow> (vscp_event_ex \<Rightarrow> vscp_event_ex) \<Rightarrow> vscp_event_ex
       \<Rightarrow> vscp_event_ex option" where
  "class1_heartbeat K G g stamp set_now ex =
     (let ex1 = (ex_header G g stamp set_now (vk_CLASS1_INFORMATION K) (vk_INFORMATION_NODE_HEARTBEAT K) ex)
                  \<lparr>ex_sizeData := 3\<rparr>
      in Option.bind (put (vk_OFFSET_GUID K) (g_bytes G g) ex1) (put 0 [0, 0, 0]))"

definition class2_heartbeat ::
    "vscp_codes \<Rightarrow> 'g guid_api \<Rightarrow> 'g \<Rightarrow> string \<Rightarrow> u32 \<Rightarrow> (vscp_event_ex \<Rightarrow> vscp_event_ex) \<Rightarrow> vscp_event_ex
       \<Rightarrow> vscp_event_ex option" where
  "class2_heartbeat K G g name stamp set_now ex =
     (let ex1 = (ex_header G g stamp set_now (vk_CLASS2_INFORMATION K) (vk_INFORMATION_HEART_BEAT K) ex)
                  \<lparr>ex_sizeData := 64\<rparr>
      in Option.bind (put (vk_OFFSET_GUID K) (g_bytes G g) ex1)
           (\<lambda>ex2. put 0 (name_bytes name) (zero_data ex2)))"

definition segctrl_heartbeat ::
    "vscp_codes \<Rightarrow> 'g guid_api \<Rightarrow> 'g \<Rightarrow> u32 \<Rightarrow> (vscp_event_ex \<Rightarrow> vscp_event_ex) \<Rightarrow> u64 \<Rightarrow> vscp_event_ex
       \<Rightarrow> vscp_event_ex option" where
  "segctrl_heartbeat K G g stamp set_now tnow ex =
     (let ex1 = (ex_header G g stamp set_now (vk_CLASS1_PROTOCOL K) (vk_PROTOCOL_SEGCTRL_HEARTBEAT K) ex)
                  \<lparr>ex_sizeData := 5\<rparr>;
          time32 = (ucast tnow :: u32)
      in Option.bind (put (vk_OFFSET_GUID K) (g_bytes G g) ex1) (put 0 (0 # be_bytes time32)))"

text \<open>\<open>getVscpCapabilities\<close> writes nothing.\<close>

definition getVscpCapabilities :: "vscp_event_ex option \<Rightarrow> bool \<times> vscp_event_ex option" where
  "getVscpCapabilities p = (case p of None \<Rightarrow> (False, None) | Some ex \<Rightarrow> (True, Some ex))"

definition server_caps ::
    "vscp_codes \<Rightarrow> 'g guid_api \<Rightarrow> 'g \<Rightarrow> string \<Rightarrow> u32 \<Rightarrow> (vscp_event_ex \<Rightarrow> vscp_event_ex) \<Rightarrow> u64 list option
       \<Rightarrow> u64 list \<Rightarrow> vscp_event_ex \<Rightarrow> vscp_event_ex option" where
  "server_caps K G g name stamp set_now host junk ex =
     (let ex1 = zero_data (ex_header G g stamp set_now (vk_CLASS2_PROTOCOL K)
                  (vk_PROTOCOL_HIGH_END_SERVER_CAPS K) ex)
      in Option.bind (put (vk_OFFSET_GUID K) (g_bytes G g) ex1) (\<lambda>ex2.
         Option.bind (getIPAddress G host junk (g_default G)) (\<lambda>(ok, guid).
         Option.bind
           (if ok then put (vk_OFFSET_IP_ADDR K)
              [g_get_at G guid 8, g_get_at G guid 9, g_get_at G guid 10, g_get_at G guid 11] ex2
            else Some ex2) (\<lambda>ex3.
         Option.bind (put (vk_OFFSET_SRV_NAME K) (name_bytes name) ex3) (\<lambda>ex4.
         map_option (\<lambda>ex5. ex5\<lparr>ex_sizeData := 104, ex_GUID := g_bytes G g\<rparr>)
           (snd (getVscpCapabilities (Some ex4))))))))"

text \<open>The result of a \<open>sendEvent\<close> is only logged. \<open>ex\<close> is the uninitialised event on the stack.\<close>

definition periodicEvents ::
    "vscp_codes \<Rightarrow> 'g guid_api \<Rightarrow> ('g, 'm) mqtt_api \<Rightarrow> clock_host \<Rightarrow> vscp_event_ex
       \<Rightarrow> ('g, 'm, 'j, 'db) control \<Rightarrow> (bool \<times> ('g, 'm, 'j, 'db) control) option" where
  "periodicEvents K G M H ex c =
     (case ch_stamps H of (t1, t2, t3, t4) \<Rightarrow>
        Option.bind (class1_heartbeat K G (co_guid c) t1 (ch_set_now H 0) ex) (\<lambda>e1.
        Option.bind (class2_heartbeat K G (co_guid c) (co_strServerName c) t2 (ch_set_now H 1) e1) (\<lambda>e2.
        Option.bind (segctrl_heartbeat K G (co_guid c) t3 (ch_set_now H 2) (ch_time H) e2) (\<lambda>e3.
        Option.bind (server_caps K G (co_guid c) (co_strServerName c) t4 (ch_set_now H 3) (ch_host H) (ch_junk H) e3) (\<lambda>e4.
          let c1 = snd (CControlObject_sendEvent M c (Some e1));
              c2 = snd (CControlObject_sendEvent M c1 (Some e2));
              c3 = snd (CControlObject_sendEvent M c2 (Some e3));
              c4 = snd (CControlObject_sendEvent M c3 (Some e4))
          in Some (True, c4))))))"

end
