(* ===== verification/Init.thy ===== *)
theory Init
  imports Config Heartbeat
begin

text \<open>
  \<open>CControlObject::init\<close> (\<open>controlobject.cpp\<close>) in the order of the code: the files that must
  exist, the configuration, the log sinks, the switch of user, the GUID, the class and type tables
  and the discovery database. A section is a step on the process that goes on (\<open>Inr True\<close>), makes
  \<open>init\<close> return false (\<open>Inr False\<close>) or ends in an exception or in undefined behaviour (\<open>Inl\<close>).
\<close>

subsection \<open>The process\<close>

datatype init_exn =
    E_Json json_exn     \<comment> \<open>thrown out of \<open>readJSON\<close>\<close>
  | E_Log               \<comment> \<open>\<open>spdlog_ex\<close> of the file sink\<close>
  | E_NullText          \<comment> \<open>\<open>std::string\<close> built from a NULL column\<close>
  | E_OutOfBounds       \<comment> \<open>the store of \<open>getIPAddress\<close>\<close>

text \<open>The sinks of the default logger, with the level each filters by. The file sink is given with
  its path, the UDP sink with host and port.\<close>

datatype log_sink =
  ConsoleSink log_level | FileSink string log_level | SyslogSink string log_level
| UdpSink string u16 log_level

record ('g, 'm, 'j, 'db) process =
  pr_ctl :: "('g, 'm, 'j, 'db) control"
  pr_sinks :: "log_sink list"
  pr_gid :: nat
  pr_uid :: nat

definition on_ctl ::
    "(('g, 'm, 'j, 'db) control \<Rightarrow> ('g, 'm, 'j, 'db) control) \<Rightarrow> ('g, 'm, 'j, 'db) process
       \<Rightarrow> ('g, 'm, 'j, 'db) process" where
  "on_ctl f p = p\<lparr>pr_ctl := f (pr_ctl p)\<rparr>"

lemma on_ctl_sel [simp]:
  "pr_ctl (on_ctl f p) = f (pr_ctl p)" "pr_sinks (on_ctl f p) = pr_sinks p"
  "pr_gid (on_ctl f p) = pr_gid p" "pr_uid (on_ctl f p) = pr_uid p"
  by (simp_all add: on_ctl_def)

type_synonym 's init_step = "'s \<Rightarrow> (init_exn + bool) \<times> 's"

text \<open>sqlite, as \<open>init\<close> uses it. \<open>sq_classtype\<close> is the content of the definition database: \<open>None\<close>
  where it cannot be opened, the inner \<open>None\<close> where a query cannot be prepared. \<open>sq_open\<close> gives a
  handle even where it fails.\<close>

record 'db sql_api =
  sq_initialize :: bool
  sq_classtype :: "string \<Rightarrow> (class_row list option \<times> type_row list option) option"
  sq_open :: "string \<Rightarrow> bool \<times> 'db"
  sq_exec :: "'db \<Rightarrow> string \<Rightarrow> bool \<times> 'db"
  sq_nodes :: "'db \<Rightarrow> (string option \<times> string option) list option"

text \<open>The operating system: the entry of a user (group id, user id), whether the ids can be set,
  whether the log file can be opened, the UDP sink be made, the hardware and the host addresses, and
  the ISO time.\<close>

record os_api =
  os_user :: "string \<Rightarrow> (nat \<times> nat) option"
  os_setgid :: "nat \<Rightarrow> bool"
  os_setuid :: "nat \<Rightarrow> bool"
  os_log_file :: "string \<Rightarrow> bool"
  os_udp :: "string \<Rightarrow> u16 \<Rightarrow> bool"
  os_socket :: bool
  os_hwaddr :: "u8 list option"
  os_host :: "u64 list option"
  os_junk :: "u64 list"
  os_now :: string

subsection \<open>Files and configuration\<close>

definition init_files ::
    "(string \<Rightarrow> bool) \<Rightarrow> string \<Rightarrow> string \<Rightarrow> ('g, 'm, 'j, 'db) process init_step" where
  "init_files exists strcfgfile rootFolder p =
     (let p' = on_ctl (\<lambda>c. c\<lparr>co_rootFolder := rootFolder\<rparr>) p
      in (Inr (exists (c_str rootFolder) \<and> exists (c_str strcfgfile)), p'))"

definition init_config ::
    "'j json_api \<Rightarrow> 'g guid_api \<Rightarrow> ('g, 'm) mqtt_api \<Rightarrow> cfg_env \<Rightarrow> (string \<Rightarrow> 'j option) \<Rightarrow> string
       \<Rightarrow> ('g, 'm, 'j, 'db) process init_step" where
  "init_config J G M E parse strcfgfile p =
     (case readConfiguration J G M E parse strcfgfile (pr_ctl p) of
        (Inl e, c) \<Rightarrow> (Inl (E_Json e), p\<lparr>pr_ctl := c\<rparr>)
      | (Inr ok, c) \<Rightarrow> (Inr ok, p\<lparr>pr_ctl := c\<rparr>))"

subsection \<open>Logging\<close>

text \<open>The console sink is fixed to warnings, the file sink is always made and takes everything; syslog
  and UDP follow the configuration, and a UDP sink that cannot be made is left out.\<close>

definition init_logging :: "os_api \<Rightarrow> ('g, 'm, 'j, 'db) process init_step" where
  "init_logging S p =
     (let g = co_log (pr_ctl p);
          file = c_str (lg_path_to_log_file g);
          s1 = [ConsoleSink L_warn]
      in if \<not> os_log_file S file then (Inl E_Log, p\<lparr>pr_sinks := s1\<rparr>)
         else
           (let s2 = s1 @ [FileSink file L_trace];
                s3 = s2 @ (if lg_bEnableSysLog g
                           then [SyslogSink (c_str (lg_sysLogIdent g)) (lg_sysLogLevel g)] else []);
                host = c_str (lg_udpLogHost g);
                s4 = s3 @ (if lg_bEnableUdpLog g \<and> os_udp S host (lg_udpLogPort g)
                           then [UdpSink host (lg_udpLogPort g) (lg_udpLogLevel g)] else [])
            in (Inr True, p\<lparr>pr_sinks := s4\<rparr>)))"

subsection \<open>User and GUID\<close>

text \<open>An unknown user ends \<open>init\<close>; a group or user id that cannot be set is only logged.\<close>

definition init_user :: "os_api \<Rightarrow> ('g, 'm, 'j, 'db) process init_step" where
  "init_user S p =
     (if length (co_runAsUser (pr_ctl p)) \<noteq> 0 then
        (case os_user S (c_str (co_runAsUser (pr_ctl p))) of
           None \<Rightarrow> (Inr False, p)
         | Some (gid, uid) \<Rightarrow>
             (let p1 = (if os_setgid S gid then p\<lparr>pr_gid := gid\<rparr> else p);
                  p2 = (if os_setuid S uid then p1\<lparr>pr_uid := uid\<rparr> else p1)
              in (Inr True, p2)))
      else (Inr True, p))"

definition init_guid_step :: "'g guid_api \<Rightarrow> os_api \<Rightarrow> ('g, 'm, 'j, 'db) process init_step" where
  "init_guid_step G S p =
     (case init_guid G (os_socket S) (os_hwaddr S) (os_host S) (os_junk S) (co_guid (pr_ctl p)) of
        None \<Rightarrow> (Inl E_OutOfBounds, p)
      | Some g \<Rightarrow> (Inr True, on_ctl (\<lambda>c. c\<lparr>co_guid := g\<rparr>) p))"

subsection \<open>The class and type tables\<close>

text \<open>A database that cannot be opened and a query that cannot be prepared are only logged.\<close>

definition init_classtype :: "'db sql_api \<Rightarrow> ('g, 'm, 'j, 'db) process init_step" where
  "init_classtype Q p =
     (if \<not> sq_initialize Q then (Inr False, p)
      else if length (co_pathClassTypeDefinitionDb (pr_ctl p)) = 0 then (Inr True, p)
      else case sq_classtype Q (c_str (co_pathClassTypeDefinitionDb (pr_ctl p))) of
        None \<Rightarrow> (Inr True, p)
      | Some (classes, types) \<Rightarrow>
          (let c = pr_ctl p
           in case load_classes (case classes of None \<Rightarrow> [] | Some rows \<Rightarrow> rows)
                     (co_map_class_id2Token c, co_map_class_token2Id c) of
                None \<Rightarrow> (Inl E_NullText, p)
              | Some (ci, ct) \<Rightarrow>
                  (case load_types (case types of None \<Rightarrow> [] | Some rows \<Rightarrow> rows)
                          (co_map_type_id2Token c, co_map_type_token2Id c) of
                     None \<Rightarrow> (Inl E_NullText, p)
                   | Some (ti, tt) \<Rightarrow>
                       (Inr True, p\<lparr>pr_ctl := c\<lparr>co_map_class_id2Token := ci,
                          co_map_class_token2Id := ct, co_map_type_id2Token := ti,
                          co_map_type_token2Id := tt\<rparr>\<rparr>))))"

subsection \<open>The discovery database\<close>

fun load_nodes ::
    "(string option \<times> string option) list \<Rightarrow> (string \<rightharpoonup> string) \<Rightarrow> (string \<rightharpoonup> string) option" where
  "load_nodes [] m = Some m"
| "load_nodes ((guid, name) # rows) m =
     (case guid of None \<Rightarrow> None
      | Some g \<Rightarrow> (case name of None \<Rightarrow> None | Some n \<Rightarrow> load_nodes rows (m(g \<mapsto> n))))"

definition create_discovery_sql :: string where
  \<open>create_discovery_sql =
     ''CREATE TABLE "discovery" (                          '' @
     ''                "id"'' @ [CHR 0x09] @ ''INTEGER PRIMARY KEY AUTOINCREMENT UNIQUE,   '' @
     ''                "date"'' @ [CHR 0x09] @ ''TEXT,                                     '' @
     ''                "guid"'' @ [CHR 0x09] @ ''TEXT UNIQUE,                              '' @
     ''                "name"'' @ [CHR 0x09] @ ''TEXT,                                     '' @
     ''                "description"'' @ [CHR 0x09] @ ''TEXT                                '' @
     ''                );''\<close>

definition daemon_row_sql :: "string \<Rightarrow> string \<Rightarrow> string" where
  \<open>daemon_row_sql now guid =
     ''INSERT INTO "discovery" (date, guid, name, description ) VALUES ('' @ quote @ now @
     quote @ '','' @ quote @ guid @ quote @ '','' @ quote @ ''local-vscp-daemon'' @
     quote @ '','' @ quote @ ''The local VSCP MQTT Daemon'' @ quote @ '');''\<close>

text \<open>Statements one after the other, up to the first that fails.\<close>

fun exec_all :: "('db \<Rightarrow> string \<Rightarrow> bool \<times> 'db) \<Rightarrow> string list \<Rightarrow> 'db \<Rightarrow> bool \<times> 'db" where
  "exec_all exec [] db = (True, db)"
| "exec_all exec (q # qs) db =
     (case exec db q of (False, db') \<Rightarrow> (False, db') | (True, db') \<Rightarrow> exec_all exec qs db')"

text \<open>The database exists: read the nodes that are in it.\<close>

definition open_discovery :: "'db sql_api \<Rightarrow> ('g, 'm, 'j, 'db) process init_step" where
  "open_discovery Q p =
     (case sq_open Q (c_str (co_pathMainDb (pr_ctl p))) of
        (False, db) \<Rightarrow> (Inr True, on_ctl (\<lambda>c. c\<lparr>co_db_vscp_daemon := None\<rparr>) p)
      | (True, db) \<Rightarrow>
          (let p1 = on_ctl (\<lambda>c. c\<lparr>co_db_vscp_daemon := Some db\<rparr>) p
           in case sq_nodes Q db of
                None \<Rightarrow> (Inr True, p1)
              | Some rows \<Rightarrow>
                  (case load_nodes rows (co_map_discoveryGuidToName (pr_ctl p)) of
                     None \<Rightarrow> (Inl E_NullText, p1)
                   | Some m \<Rightarrow>
                       (Inr True, on_ctl (\<lambda>c. c\<lparr>co_map_discoveryGuidToName := m\<rparr>) p1))))"

text \<open>It does not: create it, with the daemon as its first node.\<close>

definition create_discovery ::
    "'g guid_api \<Rightarrow> 'db sql_api \<Rightarrow> string \<Rightarrow> ('g, 'm, 'j, 'db) process init_step" where
  \<open>create_discovery G Q now p =
     (case sq_open Q (c_str (co_pathMainDb (pr_ctl p))) of
        (False, db) \<Rightarrow> (Inr False, on_ctl (\<lambda>c. c\<lparr>co_db_vscp_daemon := None\<rparr>) p)
      | (True, db) \<Rightarrow>
          (let gs = g_to_string G (co_guid (pr_ctl p));
               (ok, db') = exec_all (sq_exec Q)
                 [create_discovery_sql,
                  ''CREATE INDEX "idxguid" ON "discovery" ("guid")'',
                  ''CREATE INDEX "idxname" ON "discovery" ("name")'',
                  daemon_row_sql now gs] db;
               p1 = on_ctl (\<lambda>c. c\<lparr>co_db_vscp_daemon := Some db'\<rparr>) p
           in if \<not> ok then (Inr False, p1)
              else (Inr True, on_ctl (\<lambda>c. c\<lparr>co_map_discoveryGuidToName :=
                     (co_map_discoveryGuidToName c)(gs \<mapsto> co_strServerName c)\<rparr>) p1)))\<close>

definition init_discovery ::
    "'g guid_api \<Rightarrow> 'db sql_api \<Rightarrow> (string \<Rightarrow> bool) \<Rightarrow> string
       \<Rightarrow> ('g, 'm, 'j, 'db) process init_step" where
  "init_discovery G Q exists now p =
     (if length (co_pathMainDb (pr_ctl p)) = 0 then (Inr True, p)
      else if exists (co_pathMainDb (pr_ctl p)) then open_discovery Q p
      else create_discovery G Q now p)"

subsection \<open>The whole function\<close>

definition init ::
    "'j json_api \<Rightarrow> 'g guid_api \<Rightarrow> ('g, 'm) mqtt_api \<Rightarrow> cfg_env \<Rightarrow> (string \<Rightarrow> 'j option)
       \<Rightarrow> os_api \<Rightarrow> 'db sql_api \<Rightarrow> string \<Rightarrow> string \<Rightarrow> ('g, 'm, 'j, 'db) process init_step" where
  "init J G M E parse S Q strcfgfile rootFolder =
     then_step (init_files (ce_exists E) strcfgfile rootFolder)
    (then_step (init_config J G M E parse strcfgfile)
    (then_step (init_logging S)
    (then_step (init_user S)
    (then_step (init_guid_step G S)
    (then_step (init_classtype Q)
               (init_discovery G Q (ce_exists E) (os_now S)))))))"

end
