(* ===== verification/Frames.thy ===== *)
theory Frames
  imports DeviceItem
begin

text \<open>
  What the device threads do to an event between the driver and the broker (\<open>devicethread.cpp\<close>):
  the event built from a CANAL message in the blocking and in the polling loop, the outgoing
  translations, and the frame of a level II event brought to the nanosecond version.
\<close>

subsection \<open>Outgoing translations\<close>

text \<open>Level I event to level I over level II: the class is raised by 512 in 16 bits, and a new
  block of \<open>16 + sizeData\<close> bytes, zeroed, takes the data behind a 16-byte gap. The size field is
  16 bits wide and wraps.\<close>

definition l1_over_l2 :: "vscp_event \<Rightarrow> vscp_event" where
  "l1_over_l2 ev =
     ev\<lparr>ev_vscp_class := ev_vscp_class ev + 512,
        ev_pdata := replicate 16 0 @ take (unat (ev_sizeData ev)) (ev_pdata ev),
        ev_sizeData := ev_sizeData ev + 16\<rparr>"

definition outgoing :: "'c vscp_api \<Rightarrow> u32 \<Rightarrow> vscp_event \<Rightarrow> vscp_event" where
  "outgoing V tr ev =
     (let e1 = (if tr AND VSCP_DRIVER_OUT_TR_M1_M2F \<noteq> 0 then vs_meas_to_double V ev else ev);
          e2 = (if tr AND VSCP_DRIVER_OUT_TR_M1_M2S \<noteq> 0 then vs_meas_to_string V e1 else e1)
      in (if tr AND VSCP_DRIVER_OUT_TR_ALL_L2 \<noteq> 0 then l1_over_l2 e2 else e2))"

subsection \<open>From a CANAL message\<close>

text \<open>The blocking loop: \<open>None\<close> where the conversion fails.\<close>

definition l1_blocking_event ::
    "'c vscp_api \<Rightarrow> u8 list \<Rightarrow> u32 \<Rightarrow> 'c \<Rightarrow> vscp_event option" where
  "l1_blocking_event V guid tr msg =
     (case vs_canal_to_event V (zero_event\<lparr>ev_GUID := guid\<rparr>) msg guid of
        (False, _) \<Rightarrow> None
      | (True, ev) \<Rightarrow> Some (outgoing V tr (ev\<lparr>ev_obid := 0, ev_GUID := (ev_GUID ev)[14 := 0]\<rparr>)))"

text \<open>The polling loop: the frame version is set before the conversion, and the high nickname byte
  is left as the conversion made it.\<close>

definition l1_polling_event ::
    "'c vscp_api \<Rightarrow> u8 list \<Rightarrow> u32 \<Rightarrow> 'c \<Rightarrow> vscp_event option" where
  "l1_polling_event V guid tr msg =
     (let ev0 = zero_event\<lparr>ev_head :=
           (ev_head zero_event AND NOT (vs_frame_mask V)) OR vs_frame_unix_ns V\<rparr>
      in case vs_canal_to_event V ev0 msg guid of
           (False, _) \<Rightarrow> None
         | (True, ev) \<Rightarrow> Some (outgoing V tr (ev\<lparr>ev_obid := 0\<rparr>)))"

subsection \<open>Level II frames\<close>

definition valid_datetime :: "vscp_event \<Rightarrow> bool" where
  "valid_datetime ev \<longleftrightarrow>
     ev_year ev > 0 \<and> ev_year ev < 0xffff \<and> ev_month ev \<ge> 1 \<and> ev_month ev \<le> 12 \<and>
     ev_day ev \<ge> 1 \<and> ev_day ev \<le> 31 \<and> ev_hour ev \<le> 23 \<and> ev_minute ev \<le> 59 \<and> ev_second ev \<le> 59"

text \<open>\<open>now_ns\<close> is what \<open>vscp_makeTimeStampNs\<close> would return.\<close>

definition to_ns_frame :: "'c vscp_api \<Rightarrow> u64 \<Rightarrow> vscp_event \<Rightarrow> vscp_event" where
  "to_ns_frame V now_ns ev =
     (if vs_frame_unix_ns V \<noteq> ev_head ev AND vs_frame_mask V then
        (let ns = (if valid_datetime ev
                   then vs_to_unix_ns V (ev_year ev) (ev_month ev) (ev_day ev) (ev_hour ev)
                          (ev_minute ev) (ev_second ev) (ev_timestamp ev)
                   else - 1)
         in ev\<lparr>ev_head := (ev_head ev AND NOT (vs_frame_mask V)) OR vs_frame_unix_ns V,
               ev_year := 0xffff, ev_month := 0xff,
               ev_timestamp_ns := (if ns > 0 then word_of_int ns else now_ns)\<rparr>)
      else if ev_timestamp_ns ev = 0 then ev\<lparr>ev_timestamp_ns := now_ns\<rparr>
      else ev)"

subsection \<open>Correctness\<close>

text \<open>C36: Level I over level II wraps an event without loss: from a well-formed event with at most
  65519 data bytes it makes a well-formed event whose first 16 data bytes are zero, whose remaining
  data is the original data, and whose class and size give the original ones back by subtracting
  512 and 16; GUID, type, header and time stamp stay.\<close>

theorem l1_over_l2_roundtrip:
  assumes "event_ok ev" and "unat (ev_sizeData ev) \<le> 65519"
  shows "event_ok (l1_over_l2 ev) \<and>
         take 16 (ev_pdata (l1_over_l2 ev)) = replicate 16 0 \<and>
         (l1_over_l2 ev)\<lparr>ev_vscp_class := ev_vscp_class (l1_over_l2 ev) - 512,
                         ev_sizeData := ev_sizeData (l1_over_l2 ev) - 16,
                         ev_pdata := drop 16 (ev_pdata (l1_over_l2 ev))\<rparr> = ev"
proof -
  have "unat (ev_sizeData ev + 16) = unat (ev_sizeData ev) + 16"
    using assms(2) by (subst unat_word_ariths(1)) simp
  then show ?thesis using assms(1)
    by (cases ev) (simp add: l1_over_l2_def event_ok_def)
qed

theorem l1_over_l2_roundtrip_witness:
  "take 16 (ev_pdata (l1_over_l2 (zero_event\<lparr>ev_sizeData := 2, ev_pdata := [7, 9]\<rparr>)))
     = replicate 16 0"
  using l1_over_l2_roundtrip [of "zero_event\<lparr>ev_sizeData := 2, ev_pdata := [7, 9]\<rparr>"]
  by (simp add: event_ok_def zero_event_def)

text \<open>At the size where the 16-bit field wraps, the block no longer has the length the field says.\<close>

lemma l1_over_l2_wraps:
  "event_ok ev \<Longrightarrow> unat (ev_sizeData ev) > 65519 \<Longrightarrow> \<not> event_ok (l1_over_l2 ev)"
proof -
  assume ok: "event_ok ev" and big: "unat (ev_sizeData ev) > 65519"
  have "unat (ev_sizeData ev) < 65536"
    using unsigned_less [of "ev_sizeData ev", where 'a = nat] by simp
  with big have "unat (ev_sizeData ev + 16) = unat (ev_sizeData ev) + 16 - 65536"
    by (subst unat_word_ariths(1)) (simp add: mod_if)
  with ok show ?thesis by (simp add: l1_over_l2_def event_ok_def)
qed

lemma frame_version:
  assumes "frame_laws V"
  shows "((h AND NOT (vs_frame_mask V)) OR vs_frame_unix_ns V) AND vs_frame_mask V
           = vs_frame_unix_ns V"
    and "((h AND NOT (vs_frame_mask V)) OR vs_frame_unix_ns V) AND NOT (vs_frame_mask V)
           = h AND NOT (vs_frame_mask V)"
proof -
  have bits: "bit (vs_frame_unix_ns V) n \<Longrightarrow> bit (vs_frame_mask V) n" for n
    using assms unfolding frame_laws_def by (metis bit_and_iff)
  show "((h AND NOT (vs_frame_mask V)) OR vs_frame_unix_ns V) AND vs_frame_mask V
           = vs_frame_unix_ns V"
    by (rule bit_word_eqI) (auto simp: bit_simps dest: bits)
  show "((h AND NOT (vs_frame_mask V)) OR vs_frame_unix_ns V) AND NOT (vs_frame_mask V)
           = h AND NOT (vs_frame_mask V)"
    by (rule bit_word_eqI) (auto simp: bit_simps dest: bits)
qed

text \<open>A date the daemon takes for one, in numbers: a year from 1 to 65534, since 65535 is the mark of the
  nanosecond frame, a month of the year, a day from 1 to 31, and a time of the day without leap
  seconds.\<close>

definition civil_date :: "vscp_event \<Rightarrow> bool" where
  "civil_date ev \<longleftrightarrow>
     unat (ev_year ev) \<in> {1..65534} \<and> unat (ev_month ev) \<in> {1..12} \<and> unat (ev_day ev) \<in> {1..31} \<and>
     unat (ev_hour ev) < 24 \<and> unat (ev_minute ev) < 60 \<and> unat (ev_second ev) < 60"

lemma valid_datetime_civil: "valid_datetime ev \<longleftrightarrow> civil_date ev"
  by (auto simp: valid_datetime_def civil_date_def word_le_nat_alt word_less_nat_alt)

text \<open>A positive 64-bit count survives the cast to the unsigned stamp.\<close>

lemma positive_stamp:
  assumes "0 < n" and "n < 2 ^ 63"
  shows "uint (word_of_int n :: u64) = n"
  using assms by (simp add: unsigned_of_int take_bit_int_eq_self)

lemma uint_pos_nz: "uint (w :: u64) > 0 \<Longrightarrow> w \<noteq> 0"
  by auto



end
