(* ===== verification/DeviceThread.thy ===== *)
theory DeviceThread
  imports ControlObject Frames WorkLoop
begin

text \<open>
  The worker thread of a driver (\<open>deviceThread\<close>, \<open>devicethread.cpp\<close>), \<open>CDeviceItem::sendEvent\<close>, and
  the MQTT callback \<open>receive_event_callback\<close>. The thread is a list of phases, in the order of the
  code, each of which can return from the function. Its calls into the driver library and the
  connection to the broker are recorded in a trace.
\<close>

subsection \<open>The outside\<close>

text \<open>The libraries, bundled.\<close>

record ('g, 'm, 'j, 'c, 'db) thread_env =
  en_guid :: "'g guid_api"
  en_json :: "'j json_api"
  en_mqtt :: "('g, 'm) mqtt_api"
  en_vscp :: "'c vscp_api"
  en_render :: render
  en_exec :: "'db \<Rightarrow> string \<Rightarrow> bool \<times> 'db"

text \<open>A driver library: whether \<open>dlopen\<close> finds it, the address of every symbol with whether
  \<open>dlerror\<close> then reports an error, and what the calls outside the work loop return.\<close>

record driver_lib =
  dl_opens :: bool
  dl_sym :: "driver_proc \<Rightarrow> nat \<times> bool"
  dl_CanalOpen :: "string \<Rightarrow> u32 \<Rightarrow> int"
  dl_CanalGetLevel :: "int \<Rightarrow> u64"
  dl_VSCPOpen :: "string \<Rightarrow> u8 list \<Rightarrow> int"

text \<open>What the driver and the clock answer in one iteration of a work loop; every loop reads the
  parts it asks for. \<open>None\<close> is a receive call that reports an error or a timeout.\<close>

record 'c answers =
  an_available :: bool
  an_canal :: "'c option"
  an_event :: "vscp_event option"
  an_ns :: u64
  an_time :: string

text \<open>The trace. A call of \<open>CanalOpen\<close> or \<open>VSCPOpen\<close> is recorded with the handle it returns and
  whether the code accepts it, every other driver call with the handle it is given.\<close>

datatype lib_event =
    Dlopen | Dlclose | OpenCall int bool | DriverCall driver_proc int | CloseCall int
  | MqttConnect bool | MqttDisconnect

record ('g, 'm, 'j, 'db) thread =
  th_dev :: "('g, 'm, 'j) device"
  th_ctl :: "('g, 'm, 'j, 'db) control"
  th_trace :: "lib_event list"

definition note_event ::
    "lib_event \<Rightarrow> ('g, 'm, 'j, 'db) thread \<Rightarrow> ('g, 'm, 'j, 'db) thread" where
  "note_event e th = th\<lparr>th_trace := th_trace th @ [e]\<rparr>"

definition on_dev ::
    "(('g, 'm, 'j) device \<Rightarrow> ('g, 'm, 'j) device) \<Rightarrow> ('g, 'm, 'j, 'db) thread
       \<Rightarrow> ('g, 'm, 'j, 'db) thread" where
  "on_dev f th = th\<lparr>th_dev := f (th_dev th)\<rparr>"

named_theorems thread_simps \<open>unfolding of the steps of the device thread\<close>

lemmas [thread_simps] = note_event_def on_dev_def

lemma step_sel [simp]:
  "th_dev (on_dev f th) = f (th_dev th)" "th_ctl (on_dev f th) = th_ctl th"
  "th_trace (on_dev f th) = th_trace th" "th_dev (note_event e th) = th_dev th"
  "th_ctl (note_event e th) = th_ctl th" "th_trace (note_event e th) = th_trace th @ [e]"
  by (simp_all add: on_dev_def note_event_def)

subsection \<open>Phases\<close>

text \<open>How the function returned.\<close>

datatype thread_exit =
  X_NoLibrary | X_NoSymbol driver_proc | X_BadLevel | X_OpenFailed | X_ConnectFailed | X_Done

text \<open>A phase ends the function (\<open>Inl\<close>), goes on (\<open>Inr\<close>), or does not end within its schedule
  (\<open>None\<close>).\<close>

type_synonym ('g, 'm, 'j, 'db) phase =
  "('g, 'm, 'j, 'db) thread
     \<Rightarrow> ((thread_exit \<times> ('g, 'm, 'j, 'db) thread) + ('g, 'm, 'j, 'db) thread) option"

fun run_phases ::
    "('g, 'm, 'j, 'db) phase list \<Rightarrow> ('g, 'm, 'j, 'db) thread
       \<Rightarrow> (thread_exit \<times> ('g, 'm, 'j, 'db) thread) option" where
  "run_phases [] th = Some (X_Done, th)"
| "run_phases (p # ps) th =
     (case p th of None \<Rightarrow> None
      | Some (Inl r) \<Rightarrow> Some r
      | Some (Inr th') \<Rightarrow> run_phases ps th')"

definition load_library :: "driver_lib \<Rightarrow> ('g, 'm, 'j, 'db) phase" where
  "load_library L th =
     (if \<not> dl_opens L then Some (Inl (X_NoLibrary, th)) else Some (Inr (note_event Dlopen th)))"

subsection \<open>Symbols\<close>

text \<open>The methods a level I driver must have, in the order of the code. The address is stored
  before the error is looked at; every failure but that of the first symbol unloads the library.\<close>

definition l1_required :: "driver_proc list" where
  "l1_required =
     [P_CanalOpen, P_CanalClose, P_CanalGetLevel, P_CanalSend, P_CanalDataAvailable,
      P_CanalReceive, P_CanalGetStatus, P_CanalGetStatistics, P_CanalSetFilter, P_CanalSetMask,
      P_CanalGetVersion, P_CanalGetDllVersion, P_CanalGetVendorString]"

definition set_proc ::
    "driver_proc \<Rightarrow> nat \<Rightarrow> ('g, 'm, 'j) device \<Rightarrow> ('g, 'm, 'j) device" where
  "set_proc p a d = d\<lparr>di_procs := (di_procs d)(p := a)\<rparr>"

fun load_required ::
    "driver_lib \<Rightarrow> driver_proc list \<Rightarrow> ('g, 'm, 'j, 'db) phase" where
  "load_required L [] th = Some (Inr th)"
| "load_required L (p # ps) th =
     (let (addr, dlsym_error) = dl_sym L p;
          th' = on_dev (set_proc p addr) th
      in if dlsym_error
         then Some (Inl (X_NoSymbol p, if p = P_CanalOpen then th' else note_event Dlclose th'))
         else load_required L ps th')"

text \<open>The generation 2 methods may be missing.\<close>

definition l1_optional :: "driver_proc list" where
  "l1_optional = [P_CanalBlockingSend, P_CanalBlockingReceive, P_CanalGetdriverInfo]"

fun load_optional ::
    "driver_lib \<Rightarrow> driver_proc list \<Rightarrow> ('g, 'm, 'j, 'db) phase" where
  "load_optional L [] th = Some (Inr th)"
| "load_optional L (p # ps) th =
     (let (addr, dlsym_error) = dl_sym L p
      in load_optional L ps (on_dev (set_proc p (if dlsym_error then 0 else addr)) th))"

text \<open>A level II driver: a null address ends the thread, and the library stays loaded.\<close>

definition l2_required :: "driver_proc list" where
  "l2_required = [P_VSCPOpen, P_VSCPClose, P_VSCPWrite, P_VSCPRead, P_VSCPGetVersion]"

fun load_l2 :: "driver_lib \<Rightarrow> driver_proc list \<Rightarrow> ('g, 'm, 'j, 'db) phase" where
  "load_l2 L [] th = Some (Inr th)"
| "load_l2 L (p # ps) th =
     (let addr = fst (dl_sym L p);
          th' = on_dev (set_proc p addr) th
      in if addr = 0 then Some (Inl (X_NoSymbol p, th')) else load_l2 L ps th')"

subsection \<open>Open and connect\<close>

definition l1_open :: "driver_lib \<Rightarrow> ('g, 'm, 'j, 'db) phase" where
  "l1_open L th =
     (let h = dl_CanalOpen L (c_str (di_strParameter (th_dev th))) (di_DeviceFlags (th_dev th));
          th' = note_event (OpenCall h (h > 0)) (on_dev (\<lambda>d. d\<lparr>di_openHandle := h\<rparr>) th)
      in if h \<le> 0 then Some (Inl (X_OpenFailed, note_event Dlclose th')) else Some (Inr th'))"

definition l2_open ::
    "('g, 'm, 'j, 'c, 'db) thread_env \<Rightarrow> driver_lib \<Rightarrow> ('g, 'm, 'j, 'db) phase" where
  "l2_open E L th =
     (let d = th_dev th;
          h = dl_VSCPOpen L (c_str (di_strParameter d)) (g_bytes (en_guid E) (di_guid d));
          th' = note_event (OpenCall h (h \<noteq> 0)) (on_dev (\<lambda>d. d\<lparr>di_openHandle := h\<rparr>) th)
      in if h = 0 then Some (Inl (X_OpenFailed, note_event Dlclose th')) else Some (Inr th'))"

text \<open>What the client is told before it connects: the GUIDs, the escapes, the token maps and the
  callback.\<close>

definition client_setup ::
    "('g, 'm, 'j, 'c, 'db) thread_env \<Rightarrow> ('g, 'm, 'j) device \<Rightarrow> ('g, 'm, 'j, 'db) control \<Rightarrow> 'm" where
  "client_setup E d c =
     (let M = en_mqtt E;
          m1 = mc_set_if_guid M (di_mqttClient d) (di_guid d);
          m2 = mc_set_srv_guid M m1 (co_guid c);
          m3 = mc_set_user_escape M m2 ''driver-name'' (di_strName d);
          m4 = mc_set_user_escape M m3 ''driver-level''
                 (if di_driverLevel d = VSCP_DRIVER_LEVEL1 then ''level1'' else ''level2'');
          m5 = mc_set_token_maps M m4 (co_map_class_id2Token c) (co_map_type_id2Token c)
      in mc_set_callback_ev M m5)"

definition setup_client :: "('g, 'm, 'j, 'c, 'db) thread_env \<Rightarrow> ('g, 'm, 'j, 'db) phase" where
  "setup_client E th =
     Some (Inr (on_dev (\<lambda>d. d\<lparr>di_mqttClient := client_setup E d (th_ctl th)\<rparr>) th))"

definition l1_connect :: "('g, 'm, 'j, 'c, 'db) thread_env \<Rightarrow> ('g, 'm, 'j, 'db) phase" where
  "l1_connect E th =
     (let (ok, m) = mc_connect (en_mqtt E) (di_mqttClient (th_dev th));
          th' = note_event (MqttConnect ok) (on_dev (\<lambda>d. d\<lparr>di_mqttClient := m\<rparr>) th)
      in if \<not> ok then Some (Inl (X_ConnectFailed, note_event Dlclose th')) else Some (Inr th'))"

definition l2_connect :: "('g, 'm, 'j, 'c, 'db) thread_env \<Rightarrow> ('g, 'm, 'j, 'db) phase" where
  "l2_connect E th =
     (let (ok, m) = mc_connect (en_mqtt E) (di_mqttClient (th_dev th));
          th' = note_event (MqttConnect ok) (on_dev (\<lambda>d. d\<lparr>di_mqttClient := m\<rparr>) th)
      in if \<not> ok
         then Some (Inl (X_ConnectFailed,
                note_event Dlclose (on_dev (\<lambda>d. d\<lparr>di_openHandle := 0\<rparr>)
                  (note_event (CloseCall (di_openHandle (th_dev th'))) th'))))
         else Some (Inr th'))"

text \<open>The level the driver reports replaces the configured one, cut to a byte.\<close>

definition l1_level :: "driver_lib \<Rightarrow> ('g, 'm, 'j, 'db) phase" where
  "l1_level L th =
     (let h = di_openHandle (th_dev th)
      in Some (Inr (note_event (DriverCall P_CanalGetLevel h)
           (on_dev (\<lambda>d. d\<lparr>di_driverLevel := ucast (dl_CanalGetLevel L h)\<rparr>) th))))"

subsection \<open>Sending\<close>

text \<open>\<open>CDeviceItem::sendEvent\<close>: the result of \<open>m_mqttClient.send\<close> is not looked at.\<close>

definition CDeviceItem_sendEvent ::
    "('g, 'm, 'j, 'c, 'db) thread_env \<Rightarrow> string \<Rightarrow> ('g, 'm, 'j, 'db) thread \<Rightarrow> vscp_event option
       \<Rightarrow> bool \<times> ('g, 'm, 'j, 'db) thread" where
  "CDeviceItem_sendEvent E now th pev =
     (case pev of None \<Rightarrow> (False, th)
      | Some ev \<Rightarrow>
          (let c' = discovery (en_guid E) (en_json E) (en_mqtt E) (en_render E) (en_exec E)
                      (th_ctl th) now (Some ev);
               m' = snd (mc_send (en_mqtt E) (di_mqttClient (th_dev th)) ev)
           in (True, on_dev (\<lambda>d. d\<lparr>di_mqttClient := m', di_sent := di_sent d @ [ev]\<rparr>)
                       (th\<lparr>th_ctl := c'\<rparr>))))"

subsection \<open>Work loops\<close>

definition th_quit :: "('g, 'm, 'j, 'db) thread \<Rightarrow> bool" where
  "th_quit th = di_bQuit (th_dev th)"

definition ask_quit :: "('g, 'm, 'j, 'db) thread \<Rightarrow> ('g, 'm, 'j, 'db) thread" where
  "ask_quit = on_dev (\<lambda>d. d\<lparr>di_bQuit := True\<rparr>)"

definition driver_call ::
    "driver_proc \<Rightarrow> ('g, 'm, 'j, 'db) thread \<Rightarrow> ('g, 'm, 'j, 'db) thread" where
  "driver_call p th = note_event (DriverCall p (di_openHandle (th_dev th))) th"

lemmas [thread_simps] = th_quit_def ask_quit_def driver_call_def

text \<open>One iteration of the blocking loop of a level I driver.\<close>

definition l1_blocking_body ::
    "('g, 'm, 'j, 'c, 'db) thread_env \<Rightarrow> 'c answers \<Rightarrow> ('g, 'm, 'j, 'db) thread
       \<Rightarrow> ('g, 'm, 'j, 'db) thread" where
  "l1_blocking_body E a th =
     (let th1 = driver_call P_CanalBlockingReceive th; d = th_dev th1
      in case an_canal a of None \<Rightarrow> th1
         | Some msg \<Rightarrow>
             (case l1_blocking_event (en_vscp E) (g_bytes (en_guid E) (di_guid d))
                     (di_translation d) msg of
                None \<Rightarrow> th1
              | Some ev \<Rightarrow> snd (CDeviceItem_sendEvent E (an_time a) th1 (Some ev))))"

text \<open>One iteration of the polling loop.\<close>

definition l1_polling_body ::
    "('g, 'm, 'j, 'c, 'db) thread_env \<Rightarrow> 'c answers \<Rightarrow> ('g, 'm, 'j, 'db) thread
       \<Rightarrow> ('g, 'm, 'j, 'db) thread" where
  "l1_polling_body E a th =
     (let th1 = driver_call P_CanalDataAvailable th; d = th_dev th1
      in if \<not> an_available a then th1
         else
           (let th2 = driver_call P_CanalReceive th1
            in case an_canal a of None \<Rightarrow> th2
               | Some msg \<Rightarrow>
                   (case l1_polling_event (en_vscp E) (g_bytes (en_guid E) (di_guid d))
                           (di_translation d) msg of
                      None \<Rightarrow> th2
                    | Some ev \<Rightarrow> snd (CDeviceItem_sendEvent E (an_time a) th2 (Some ev)))))"

text \<open>One iteration of the level II loop.\<close>

definition l2_body ::
    "('g, 'm, 'j, 'c, 'db) thread_env \<Rightarrow> 'c answers \<Rightarrow> ('g, 'm, 'j, 'db) thread
       \<Rightarrow> ('g, 'm, 'j, 'db) thread" where
  "l2_body E a th =
     (let th1 = driver_call P_VSCPRead th
      in case an_event a of None \<Rightarrow> th1
         | Some ev \<Rightarrow>
             snd (CDeviceItem_sendEvent E (an_time a) th1
                    (Some (to_ns_frame (en_vscp E) (an_ns a) ev))))"

definition loop_phase ::
    "('c answers \<Rightarrow> ('g, 'm, 'j, 'db) thread \<Rightarrow> ('g, 'm, 'j, 'db) thread) \<Rightarrow> 'c answers tick list
       \<Rightarrow> ('g, 'm, 'j, 'db) phase" where
  "loop_phase body ticks th = map_option Inr (work_loop th_quit ask_quit body ticks th)"

definition l1_loop ::
    "('g, 'm, 'j, 'c, 'db) thread_env \<Rightarrow> 'c answers tick list \<Rightarrow> ('g, 'm, 'j, 'db) phase" where
  "l1_loop E ticks th =
     (if di_procs (th_dev th) P_CanalBlockingReceive \<noteq> 0
      then map_option (map_sum id ask_quit) (loop_phase (l1_blocking_body E) ticks th)
      else loop_phase (l1_polling_body E) ticks th)"

definition close_driver :: "('g, 'm, 'j, 'c, 'db) thread_env \<Rightarrow> ('g, 'm, 'j, 'db) phase" where
  "close_driver E th =
     (let th1 = ask_quit th;
          th2 = note_event MqttDisconnect
                  (on_dev (\<lambda>d. d\<lparr>di_mqttClient := mc_disconnect (en_mqtt E) (di_mqttClient d)\<rparr>) th1);
          th3 = note_event (CloseCall (di_openHandle (th_dev th2))) th2;
          th4 = on_dev (\<lambda>d. d\<lparr>di_openHandle := 0\<rparr>) th3
      in Some (Inr (note_event Dlclose th4)))"

subsection \<open>The thread\<close>

definition bad_level :: "('g, 'm, 'j, 'db) phase" where
  "bad_level th = Some (Inl (X_BadLevel, th))"

text \<open>The phases for the level the driver is configured with. \<open>startDriver\<close> passes the device, so
  the null test at the top of the function never fires.\<close>

definition thread_phases ::
    "('g, 'm, 'j, 'c, 'db) thread_env \<Rightarrow> driver_lib \<Rightarrow> 'c answers tick list \<Rightarrow> u8
       \<Rightarrow> ('g, 'm, 'j, 'db) phase list" where
  "thread_phases E L ticks level =
     load_library L #
     (if level = VSCP_DRIVER_LEVEL1 then
        [load_required L l1_required, load_optional L l1_optional, l1_open L, setup_client E,
         l1_connect E, l1_level L, l1_loop E ticks, close_driver E]
      else if level = VSCP_DRIVER_LEVEL2 then
        [load_l2 L l2_required, setup_client E, l2_open E L, l2_connect E,
         loop_phase (l2_body E) ticks, close_driver E]
      else [bad_level])"

definition deviceThread ::
    "('g, 'm, 'j, 'c, 'db) thread_env \<Rightarrow> driver_lib \<Rightarrow> 'c answers tick list
       \<Rightarrow> ('g, 'm, 'j, 'db) thread \<Rightarrow> (thread_exit \<times> ('g, 'm, 'j, 'db) thread) option" where
  "deviceThread E L ticks th =
     run_phases (thread_phases E L ticks (di_driverLevel (th_dev th))) th"

subsection \<open>The callback\<close>

text \<open>
  \<open>receive_event_callback\<close>, between locking and unlocking \<open>m_deviceMutex\<close>: what it does with the
  driver, given the event the broker delivered. A call is given with the address it goes to (0 is
  a call through a null pointer) and the handle.
\<close>

datatype 'c callback_action =
    CB_Returned | CB_NotConverted | CB_BadLevel
  | CB_CanalCall driver_proc nat int 'c
  | CB_EventCall driver_proc nat int vscp_event

definition receive_event_callback ::
    "'c vscp_api \<Rightarrow> vscp_event \<Rightarrow> ('g, 'm, 'j) device option \<Rightarrow> 'c callback_action" where
  "receive_event_callback V ev pobj =
     (case pobj of None \<Rightarrow> CB_Returned
      | Some d \<Rightarrow>
          if di_bQuit d \<or> di_openHandle d = 0 then CB_Returned
          else if di_driverLevel d = VSCP_DRIVER_LEVEL1 then
            (case vs_event_to_canal V ev of None \<Rightarrow> CB_NotConverted
             | Some msg \<Rightarrow>
                 (if di_procs d P_CanalBlockingSend \<noteq> 0
                  then CB_CanalCall P_CanalBlockingSend (di_procs d P_CanalBlockingSend)
                         (di_openHandle d) msg
                  else CB_CanalCall P_CanalSend (di_procs d P_CanalSend) (di_openHandle d) msg))
          else if di_driverLevel d = VSCP_DRIVER_LEVEL2 then
            CB_EventCall P_VSCPWrite (di_procs d P_VSCPWrite) (di_openHandle d) ev
          else CB_BadLevel)"

end
