(* ===== verification/ThreadCorrect.thy ===== *)
theory ThreadCorrect
  imports DeviceThread
begin

text \<open>
  What the device thread guarantees: the protocol of its calls into the driver library, what it
  leaves unchanged of its device, when it ends, and which events it delivers. The three work loops
  are interpretations of \<open>message_loop\<close>; starting and stopping a driver whose thread runs this
  code is the interpretation of \<open>driver_control\<close>.
\<close>

subsection \<open>Phases and states\<close>

definition outcome ::
    "(thread_exit \<times> ('g, 'm, 'j, 'db) thread) + ('g, 'm, 'j, 'db) thread \<Rightarrow> ('g, 'm, 'j, 'db) thread"
  where "outcome r = (case r of Inl (x, th) \<Rightarrow> th | Inr th \<Rightarrow> th)"

lemma outcome_simps [simp]: "outcome (Inl (x, th)) = th" "outcome (Inr th) = th"
  by (simp_all add: outcome_def)

text \<open>A relation that every phase keeps between its start and its end is kept by the function.\<close>

lemma run_phases_rel:
  assumes "run_phases ps th = Some (x, th')"
    and "\<And>p th r. p \<in> set ps \<Longrightarrow> p th = Some r \<Longrightarrow> R th (outcome r)"
    and "\<And>a. R a a" and "\<And>a b c. R a b \<Longrightarrow> R b c \<Longrightarrow> R a c"
  shows "R th th'"
  using assms(1,2)
proof (induction ps arbitrary: th)
  case Nil
  then show ?case using assms(3) by simp
next
  case (Cons p ps)
  from Cons.prems(1) obtain r where r: "p th = Some r" by (auto split: option.splits)
  with Cons.prems(2) [of p th r] have R: "R th (outcome r)" by simp
  show ?case
  proof (cases r)
    case (Inl y)
    with Cons.prems(1) r R show ?thesis by (cases y) simp
  next
    case (Inr b)
    with Cons.prems(1) r have "run_phases ps b = Some (x, th')" by simp
    then have "R b th'" by (rule Cons.IH) (metis Cons.prems(2) list.set_intros(2))
    with R Inr show ?thesis using assms(4) by simp
  qed
qed

subsection \<open>The loop bodies\<close>

lemma sendEvent_some [thread_simps]:
  "CDeviceItem_sendEvent E now th (Some ev) =
     (True, th\<lparr>th_dev := (th_dev th)\<lparr>di_mqttClient := snd (mc_send (en_mqtt E) (di_mqttClient (th_dev th)) ev),
                                     di_sent := di_sent (th_dev th) @ [ev]\<rparr>,
              th_ctl := discovery (en_guid E) (en_json E) (en_mqtt E) (en_render E) (en_exec E)
                          (th_ctl th) now (Some ev)\<rparr>)"
  by (simp add: CDeviceItem_sendEvent_def Let_def on_dev_def)

definition l1_blocking_emit ::
    "('g, 'm, 'j, 'c, 'db) thread_env \<Rightarrow> 'g \<times> u32 \<Rightarrow> 'c answers \<Rightarrow> vscp_event list" where
  "l1_blocking_emit E = (\<lambda>(g, tr) a.
     case an_canal a of None \<Rightarrow> []
     | Some msg \<Rightarrow> (case l1_blocking_event (en_vscp E) (g_bytes (en_guid E) g) tr msg of
                     None \<Rightarrow> [] | Some ev \<Rightarrow> [ev]))"

definition l1_polling_emit ::
    "('g, 'm, 'j, 'c, 'db) thread_env \<Rightarrow> 'g \<times> u32 \<Rightarrow> 'c answers \<Rightarrow> vscp_event list" where
  "l1_polling_emit E = (\<lambda>(g, tr) a.
     if \<not> an_available a then []
     else case an_canal a of None \<Rightarrow> []
     | Some msg \<Rightarrow> (case l1_polling_event (en_vscp E) (g_bytes (en_guid E) g) tr msg of
                     None \<Rightarrow> [] | Some ev \<Rightarrow> [ev]))"

definition l2_emit ::
    "('g, 'm, 'j, 'c, 'db) thread_env \<Rightarrow> 'g \<times> u32 \<Rightarrow> 'c answers \<Rightarrow> vscp_event list" where
  "l2_emit E _ a =
     (case an_event a of None \<Rightarrow> [] | Some ev \<Rightarrow> [to_ns_frame (en_vscp E) (an_ns a) ev])"

definition th_same :: "('g, 'm, 'j, 'db) thread \<Rightarrow> 'g \<times> u32" where
  "th_same th = (di_guid (th_dev th), di_translation (th_dev th))"

lemmas body_simps =
  thread_simps l1_blocking_body_def l1_polling_body_def l2_body_def Let_def th_same_def

interpretation bl: message_loop th_quit ask_quit "l1_blocking_body E"
    "\<lambda>th. di_sent (th_dev th)" "l1_blocking_emit E" th_same
  for E :: "('g, 'm, 'j, 'c, 'db) thread_env"
  by unfold_locales (auto simp: body_simps l1_blocking_emit_def split: option.splits)

interpretation po: message_loop th_quit ask_quit "l1_polling_body E"
    "\<lambda>th. di_sent (th_dev th)" "l1_polling_emit E" th_same
  for E :: "('g, 'm, 'j, 'c, 'db) thread_env"
  by unfold_locales (auto simp: body_simps l1_polling_emit_def split: option.splits)

interpretation lp2: message_loop th_quit ask_quit "l2_body E"
    "\<lambda>th. di_sent (th_dev th)" "l2_emit E" th_same
  for E :: "('g, 'm, 'j, 'c, 'db) thread_env"
  by unfold_locales (auto simp: body_simps l2_emit_def split: option.splits)

text \<open>A loop as a phase: what holds of the state before it and is kept by its iterations and by the
  request to quit holds after it.\<close>

lemma loop_phase_cases:
  assumes "loop_phase body ticks th = Some r"
  obtains th' where "r = Inr th'" "work_loop th_quit ask_quit body ticks th = Some th'"
  using assms by (auto simp: loop_phase_def)

lemma l1_loop_invariant:
  assumes "l1_loop E ticks th = Some r" and "P th"
    and "\<And>th. P th \<Longrightarrow> P (ask_quit th)"
    and "\<And>a th. P th \<Longrightarrow> P (l1_blocking_body E a th)"
    and "\<And>a th. P th \<Longrightarrow> P (l1_polling_body E a th)"
  shows "\<exists>th'. r = Inr th' \<and> P th'"
  using assms(1) work_loop_invariant [of th_quit ask_quit "l1_blocking_body E" ticks th _ P]
    work_loop_invariant [of th_quit ask_quit "l1_polling_body E" ticks th _ P] assms(2-)
  by (auto simp: l1_loop_def loop_phase_def split: if_splits)

lemma l2_loop_invariant:
  assumes "loop_phase (l2_body E) ticks th = Some r" and "P th"
    and "\<And>th. P th \<Longrightarrow> P (ask_quit th)" and "\<And>a th. P th \<Longrightarrow> P (l2_body E a th)"
  shows "\<exists>th'. r = Inr th' \<and> P th'"
  using assms(1) work_loop_invariant [of th_quit ask_quit "l2_body E" ticks th _ P] assms(2-)
  by (auto simp: loop_phase_def)

subsection \<open>What the thread leaves unchanged\<close>

definition th_frame :: "('g, 'm, 'j, 'db) thread \<Rightarrow> ('g, 'm, 'j, 'db) thread \<Rightarrow> bool" where
  "th_frame th th' \<longleftrightarrow> worker_frame (th_dev th) (th_dev th')"

lemma th_frame_refl [simp, intro]: "th_frame th th"
  by (simp add: th_frame_def)

lemma th_frame_trans: "th_frame a b \<Longrightarrow> th_frame b c \<Longrightarrow> th_frame a c"
  unfolding th_frame_def by (rule worker_frame_trans)

lemmas frame_defs = th_frame_def worker_frame_def set_proc_def

lemma load_required_frame: "load_required L ps th = Some r \<Longrightarrow> th_frame th (outcome r)"
proof (induction ps arbitrary: th)
  case (Cons p ps)
  show ?case
  proof (cases "snd (dl_sym L p)")
    case True
    with Cons.prems show ?thesis
      by (auto simp: frame_defs thread_simps Let_def split: prod.splits if_splits)
  next
    case False
    let ?th = "on_dev (set_proc p (fst (dl_sym L p))) th"
    from False Cons.prems have "load_required L ps ?th = Some r"
      by (simp add: Let_def split: prod.splits)
    then have "th_frame ?th (outcome r)" by (rule Cons.IH)
    moreover have "th_frame th ?th" by (simp add: frame_defs thread_simps)
    ultimately show ?thesis by (rule th_frame_trans [rotated])
  qed
qed auto

lemma load_optional_frame: "load_optional L ps th = Some r \<Longrightarrow> th_frame th (outcome r)"
proof (induction ps arbitrary: th)
  case (Cons p ps)
  let ?th = "on_dev (set_proc p (if snd (dl_sym L p) then 0 else fst (dl_sym L p))) th"
  from Cons.prems have "load_optional L ps ?th = Some r"
    by (cases "dl_sym L p"; cases "snd (dl_sym L p)") simp_all
  then have "th_frame ?th (outcome r)" by (rule Cons.IH)
  moreover have "th_frame th ?th" by (simp add: frame_defs thread_simps)
  ultimately show ?case by (rule th_frame_trans [rotated])
qed auto

lemma load_l2_frame: "load_l2 L ps th = Some r \<Longrightarrow> th_frame th (outcome r)"
proof (induction ps arbitrary: th)
  case (Cons p ps)
  let ?th = "on_dev (set_proc p (fst (dl_sym L p))) th"
  have step: "th_frame th ?th" by (simp add: frame_defs thread_simps)
  show ?case
  proof (cases "fst (dl_sym L p) = 0")
    case True
    with Cons.prems step show ?thesis by (auto simp: Let_def)
  next
    case False
    with Cons.prems have "load_l2 L ps ?th = Some r" by (simp add: Let_def)
    then have "th_frame ?th (outcome r)" by (rule Cons.IH)
    with step show ?thesis by (rule th_frame_trans)
  qed
qed auto

lemma body_frame:
  "th_frame t0 th \<Longrightarrow> th_frame t0 (ask_quit th)"
  "th_frame t0 th \<Longrightarrow> th_frame t0 (l1_blocking_body E a th)"
  "th_frame t0 th \<Longrightarrow> th_frame t0 (l1_polling_body E a th)"
  "th_frame t0 th \<Longrightarrow> th_frame t0 (l2_body E a th)"
  by (auto simp: frame_defs body_simps split: option.splits)

lemma l1_loop_frame: "l1_loop E ticks th = Some r \<Longrightarrow> th_frame th (outcome r)"
  by (drule l1_loop_invariant [where P = "th_frame th"]) (auto intro: body_frame)

lemma l2_loop_frame: "loop_phase (l2_body E) ticks th = Some r \<Longrightarrow> th_frame th (outcome r)"
  by (drule l2_loop_invariant [where P = "th_frame th"]) (auto intro: body_frame)

lemma other_phases_frame:
  "load_library L th = Some r \<Longrightarrow> th_frame th (outcome r)"
  "l1_open L th = Some r \<Longrightarrow> th_frame th (outcome r)"
  "l2_open E L th = Some r \<Longrightarrow> th_frame th (outcome r)"
  "setup_client E th = Some r \<Longrightarrow> th_frame th (outcome r)"
  "l1_connect E th = Some r \<Longrightarrow> th_frame th (outcome r)"
  "l2_connect E th = Some r \<Longrightarrow> th_frame th (outcome r)"
  "l1_level L th = Some r \<Longrightarrow> th_frame th (outcome r)"
  "close_driver E th = Some r \<Longrightarrow> th_frame th (outcome r)"
  "bad_level th = Some r \<Longrightarrow> th_frame th (outcome r)"
  by (auto simp: load_library_def l1_open_def l2_open_def setup_client_def l1_connect_def
        l2_connect_def l1_level_def close_driver_def bad_level_def frame_defs thread_simps Let_def
        split: if_splits prod.splits)

lemma phases_frame:
  "p \<in> set (thread_phases E L ticks lvl) \<Longrightarrow> p th = Some r \<Longrightarrow> th_frame th (outcome r)"
  by (auto simp: thread_phases_def split: if_splits
        dest: load_required_frame load_optional_frame load_l2_frame l1_loop_frame l2_loop_frame
          other_phases_frame)

lemma rest_frame:
  "run_phases (drop k (thread_phases E L ticks lvl)) th = Some (x, th') \<Longrightarrow> th_frame th th'"
  by (erule run_phases_rel)
     (use phases_frame in_set_dropD in \<open>fast | auto intro: th_frame_trans\<close>)+

subsection \<open>Triples over phases\<close>

text \<open>\<open>phase_ok P p Q X\<close>: from a state with \<open>P\<close>, the phase goes on with \<open>Q\<close> or returns with
  \<open>X\<close>; \<open>run_ok P ps X\<close> for the rest of the function.\<close>

definition ends ::
    "(('g, 'm, 'j, 'db) thread \<Rightarrow> bool) \<Rightarrow> (thread_exit \<Rightarrow> ('g, 'm, 'j, 'db) thread \<Rightarrow> bool)
       \<Rightarrow> (thread_exit \<times> ('g, 'm, 'j, 'db) thread) + ('g, 'm, 'j, 'db) thread \<Rightarrow> bool"
  where "ends Q X r = (case r of Inl y \<Rightarrow> X (fst y) (snd y) | Inr th' \<Rightarrow> Q th')"

lemma ends_simps [simp]: "ends Q X (Inl y) = X (fst y) (snd y)" "ends Q X (Inr th') = Q th'"
  by (simp_all add: ends_def)

definition phase_ok ::
    "(('g, 'm, 'j, 'db) thread \<Rightarrow> bool) \<Rightarrow> ('g, 'm, 'j, 'db) phase
       \<Rightarrow> (('g, 'm, 'j, 'db) thread \<Rightarrow> bool) \<Rightarrow> (thread_exit \<Rightarrow> ('g, 'm, 'j, 'db) thread \<Rightarrow> bool) \<Rightarrow> bool"
  where "phase_ok P p Q X \<longleftrightarrow> (\<forall>th r. P th \<longrightarrow> p th = Some r \<longrightarrow> ends Q X r)"

definition run_ok ::
    "(('g, 'm, 'j, 'db) thread \<Rightarrow> bool) \<Rightarrow> ('g, 'm, 'j, 'db) phase list
       \<Rightarrow> (thread_exit \<Rightarrow> ('g, 'm, 'j, 'db) thread \<Rightarrow> bool) \<Rightarrow> bool"
  where "run_ok P ps X \<longleftrightarrow> (\<forall>th x th'. P th \<longrightarrow> run_phases ps th = Some (x, th') \<longrightarrow> X x th')"

lemma phase_okI:
  "(\<And>th r. P th \<Longrightarrow> p th = Some r \<Longrightarrow> ends Q X r) \<Longrightarrow> phase_ok P p Q X"
  by (simp add: phase_ok_def)

lemma phase_okD:
  "phase_ok P p Q X \<Longrightarrow> p th = Some r \<Longrightarrow> P th \<Longrightarrow> ends Q X r"
  by (simp add: phase_ok_def)

lemma run_ok_Nil: "(\<And>th. P th \<Longrightarrow> X X_Done th) \<Longrightarrow> run_ok P [] X"
  by (simp add: run_ok_def)

lemma run_ok_Cons:
  assumes "phase_ok P p Q X" and "run_ok Q ps X"
  shows "run_ok P (p # ps) X"
  unfolding run_ok_def
proof (intro allI impI)
  fix th x th'
  assume P: "P th" and run: "run_phases (p # ps) th = Some (x, th')"
  then obtain r where r: "p th = Some r" by (auto split: option.splits)
  with P assms(1) have "ends Q X r"
    unfolding phase_ok_def by blast
  with r run assms(2) show "X x th'"
    unfolding run_ok_def by (cases r) auto
qed

subsection \<open>The protocol of the driver library\<close>

text \<open>The states of a driver library as the thread uses it; \<open>Open h c\<close> is a driver open with the
  handle \<open>h\<close>, and \<open>c\<close> whether the MQTT client is connected. The transitions are the promise: calls
  only while the driver is open and with its handle, connecting only while it is open, closing only
  when the client is disconnected, unloading only when it is closed.\<close>

datatype life = Unloaded | Loaded | Open int bool

fun life_step :: "life \<Rightarrow> lib_event \<Rightarrow> life option" where
  "life_step Unloaded Dlopen = Some Loaded"
| "life_step Loaded Dlclose = Some Unloaded"
| "life_step Loaded (OpenCall h ok) = Some (if ok then Open h False else Loaded)"
| "life_step (Open h c) (DriverCall p h') = (if h' = h then Some (Open h c) else None)"
| "life_step (Open h False) (MqttConnect ok) = Some (Open h ok)"
| "life_step (Open h True) MqttDisconnect = Some (Open h False)"
| "life_step (Open h False) (CloseCall h') = (if h' = h then Some Loaded else None)"
| "life_step _ _ = None"

fun life_run :: "life \<Rightarrow> lib_event list \<Rightarrow> life option" where
  "life_run l [] = Some l"
| "life_run l (e # es) = Option.bind (life_step l e) (\<lambda>l'. life_run l' es)"

lemma life_run_append: "life_run l (es @ fs) = Option.bind (life_run l es) (\<lambda>l'. life_run l' fs)"
  by (induction l es rule: life_run.induct) (auto split: bind_splits)

definition life_of :: "('g, 'm, 'j, 'db) thread \<Rightarrow> life option" where
  "life_of th = life_run Unloaded (th_trace th)"

definition is_open :: "bool \<Rightarrow> ('g, 'm, 'j, 'db) thread \<Rightarrow> bool" where
  "is_open con th \<longleftrightarrow> life_of th = Some (Open (di_openHandle (th_dev th)) con)"

lemma life_of_note [simp]:
  "life_of (note_event e th) = Option.bind (life_of th) (\<lambda>l. life_step l e)"
  by (simp add: life_of_def note_event_def life_run_append)

lemma life_of_frame [simp]:
  "life_of (th\<lparr>th_dev := d\<rparr>) = life_of th" "life_of (th\<lparr>th_ctl := c\<rparr>) = life_of th"
  "life_of (on_dev f th) = life_of th"
  by (simp_all add: life_of_def on_dev_def)

text \<open>In which state of the library each exit leaves it: \<open>None\<close> where the trace breaks the
  protocol.\<close>

fun exit_life :: "u8 \<Rightarrow> thread_exit \<Rightarrow> life option" where
  "exit_life lvl X_NoLibrary = Some Unloaded"
| "exit_life lvl (X_NoSymbol p) =
     Some (if lvl = VSCP_DRIVER_LEVEL1 \<and> p \<noteq> P_CanalOpen then Unloaded else Loaded)"
| "exit_life lvl X_BadLevel = Some Loaded"
| "exit_life lvl X_OpenFailed = Some Unloaded"
| "exit_life lvl X_ConnectFailed = (if lvl = VSCP_DRIVER_LEVEL1 then None else Some Unloaded)"
| "exit_life lvl X_Done = Some Unloaded"

abbreviation life_exit :: "u8 \<Rightarrow> thread_exit \<Rightarrow> ('g, 'm, 'j, 'db) thread \<Rightarrow> bool" where
  "life_exit lvl x th \<equiv> life_of th = exit_life lvl x"

abbreviation loaded :: "('g, 'm, 'j, 'db) thread \<Rightarrow> bool" where
  "loaded th \<equiv> life_of th = Some Loaded"

lemma levels_differ: "VSCP_DRIVER_LEVEL2 \<noteq> VSCP_DRIVER_LEVEL1"
  by (simp add: driver_consts)

lemma load_required_life:
  "phase_ok loaded (load_required L ps) loaded (life_exit VSCP_DRIVER_LEVEL1)"
proof (induction ps)
  case (Cons p ps)
  show ?case
    by (rule phase_okI)
       (auto simp: Let_def split: prod.splits if_splits intro: phase_okD [OF Cons.IH])
qed (simp add: phase_ok_def)

lemma load_optional_life: "phase_ok loaded (load_optional L ps) loaded X"
proof (induction ps)
  case (Cons p ps)
  show ?case
    by (rule phase_okI) (auto split: prod.splits if_splits intro: phase_okD [OF Cons.IH])
qed (simp add: phase_ok_def)

lemma load_l2_life:
  "phase_ok loaded (load_l2 L ps) loaded (life_exit VSCP_DRIVER_LEVEL2)"
proof (induction ps)
  case (Cons p ps)
  show ?case
    by (rule phase_okI)
       (auto simp: Let_def levels_differ split: prod.splits if_splits intro: phase_okD [OF Cons.IH])
qed (simp add: phase_ok_def)

lemma open_life:
  "phase_ok loaded (l1_open L) (is_open False) (life_exit lvl)"
  "phase_ok loaded (l2_open E L) (is_open False) (life_exit lvl)"
  by (auto simp: phase_ok_def l1_open_def l2_open_def is_open_def on_dev_def note_event_def
        life_of_def life_run_append Let_def split: if_splits)

lemma setup_life:
  "phase_ok loaded (setup_client E) loaded X"
  "phase_ok (is_open con) (setup_client E) (is_open con) X"
  by (auto simp: phase_ok_def setup_client_def is_open_def Let_def)

lemma connect_life:
  "phase_ok (is_open False) (l1_connect E) (is_open True) (life_exit VSCP_DRIVER_LEVEL1)"
  "phase_ok (is_open False) (l2_connect E) (is_open True) (life_exit VSCP_DRIVER_LEVEL2)"
  by (auto simp: phase_ok_def l1_connect_def l2_connect_def is_open_def on_dev_def note_event_def
        life_of_def life_run_append Let_def driver_consts split: if_splits prod.splits)

lemma level_life: "phase_ok (is_open con) (l1_level L) (is_open con) X"
  by (auto simp: phase_ok_def l1_level_def is_open_def Let_def)

lemma driver_call_open [simp]: "is_open con th \<Longrightarrow> is_open con (driver_call p th)"
  by (simp add: is_open_def driver_call_def)

lemma sendEvent_open [simp]:
  "is_open con th \<Longrightarrow> is_open con (snd (CDeviceItem_sendEvent E now th (Some ev)))"
  by (simp add: sendEvent_some is_open_def)

lemma body_open:
  assumes "is_open con th"
  shows "is_open con (ask_quit th)"
    and "is_open con (l1_blocking_body E a th)"
    and "is_open con (l1_polling_body E a th)"
    and "is_open con (l2_body E a th)"
proof -
  show "is_open con (ask_quit th)" using assms by (simp add: ask_quit_def is_open_def)
  show "is_open con (l1_blocking_body E a th)"
    using assms by (auto simp: l1_blocking_body_def Let_def split: option.splits)
  show "is_open con (l1_polling_body E a th)"
    using assms by (auto simp: l1_polling_body_def Let_def split: option.splits)
  show "is_open con (l2_body E a th)"
    using assms by (auto simp: l2_body_def Let_def split: option.splits)
qed

lemma loop_life:
  "phase_ok (is_open con) (l1_loop E ticks) (is_open con) X"
  "phase_ok (is_open con) (loop_phase (l2_body E) ticks) (is_open con) X"
  unfolding phase_ok_def
  using l1_loop_invariant [where P = "is_open con"] l2_loop_invariant [where P = "is_open con"]
  by (fastforce intro: body_open)+

lemma close_life: "phase_ok (is_open True) (close_driver E) (\<lambda>th. life_of th = Some Unloaded) X"
  by (auto simp: phase_ok_def close_driver_def is_open_def ask_quit_def on_dev_def note_event_def
        life_of_def life_run_append Let_def)

lemma library_life:
  "phase_ok (\<lambda>th. life_of th = Some Unloaded) (load_library L) loaded (life_exit lvl)"
  by (auto simp: phase_ok_def load_library_def)

lemma phases_life:
  "run_ok (\<lambda>th. life_of th = Some Unloaded) (thread_phases E L ticks lvl) (life_exit lvl)"
proof -
  consider (l1) "lvl = VSCP_DRIVER_LEVEL1" | (l2) "lvl = VSCP_DRIVER_LEVEL2"
    | (bad) "lvl \<noteq> VSCP_DRIVER_LEVEL1" "lvl \<noteq> VSCP_DRIVER_LEVEL2" by blast
  then show ?thesis
  proof cases
    case l1
    show ?thesis unfolding l1 thread_phases_def
      by (simp, (rule run_ok_Cons, rule library_life load_required_life load_optional_life open_life
            setup_life connect_life level_life loop_life close_life)+, rule run_ok_Nil) simp
  next
    case l2
    show ?thesis unfolding l2 thread_phases_def
      by (simp add: levels_differ,
          (rule run_ok_Cons, rule library_life load_l2_life open_life
            setup_life connect_life loop_life close_life)+, rule run_ok_Nil) simp
  next
    case bad
    then show ?thesis unfolding thread_phases_def
      by simp (rule run_ok_Cons [OF library_life], auto simp: run_ok_def bad_level_def)
  qed
qed

text \<open>C15: What the thread does to the driver library obeys the protocol of \<open>life_step\<close>, and the exit
  says how it leaves it: unloaded after normal work, after a failed open and after a missing level I
  symbol; still loaded when \<open>CanalOpen\<close> or any level II symbol is missing and when the level is
  neither 1 nor 2. Exactly one exit breaks the protocol: a level I driver whose client cannot
  connect is unloaded while it is open.\<close>

theorem deviceThread_protocol:
  assumes "deviceThread E L ticks th = Some (x, th')" and "th_trace th = []"
  shows "life_run Unloaded (th_trace th') = exit_life (di_driverLevel (th_dev th)) x"
proof -
  have "life_of th = Some Unloaded" using assms(2) by (simp add: life_of_def)
  with assms(1) phases_life [of E L ticks "di_driverLevel (th_dev th)"]
  have "life_of th' = exit_life (di_driverLevel (th_dev th)) x"
    unfolding run_ok_def deviceThread_def by blast
  then show ?thesis by (simp add: life_of_def)
qed

end
