(* ===== verification/ThreadDelivery.thy ===== *)
theory ThreadDelivery
  imports ThreadCorrect
begin

text \<open>
  When the device thread returns and how, which events it has handed to the broker by then, and
  what its MQTT callback calls while it works.
\<close>

subsection \<open>Symbol loading in closed form\<close>

definition bind_all ::
    "(driver_proc \<Rightarrow> nat) \<Rightarrow> driver_proc list \<Rightarrow> ('g, 'm, 'j) device \<Rightarrow> ('g, 'm, 'j) device" where
  "bind_all f ps d = d\<lparr>di_procs := (\<lambda>p. if p \<in> set ps then f p else di_procs d p)\<rparr>"

lemma bind_all_Nil [simp]: "bind_all f [] d = d"
  by (simp add: bind_all_def)

lemma bind_all_Cons: "bind_all f ps (set_proc p (f p) d) = bind_all f (p # ps) d"
  by (auto simp: bind_all_def set_proc_def fun_eq_iff)

lemma on_dev_on_dev [simp]: "on_dev f (on_dev g th) = on_dev (\<lambda>d. f (g d)) th"
  by (simp add: on_dev_def)

lemma on_dev_id [simp]: "on_dev (\<lambda>d. d) th = th"
  by (simp add: on_dev_def)

lemma load_required_all:
  "find (\<lambda>p. snd (dl_sym L p)) ps = None \<Longrightarrow>
     load_required L ps th = Some (Inr (on_dev (bind_all (\<lambda>p. fst (dl_sym L p)) ps) th))"
proof (induction ps arbitrary: th)
  case (Cons p ps)
  then show ?case
    by (cases "dl_sym L p") (auto simp: bind_all_Cons [symmetric] split: if_splits)
qed simp

lemma load_required_missing:
  "find (\<lambda>p. snd (dl_sym L p)) ps = Some p \<Longrightarrow>
     \<exists>th'. load_required L ps th = Some (Inl (X_NoSymbol p, th'))"
  by (induction ps arbitrary: th) (auto simp: Let_def split: if_splits prod.splits)

lemma load_optional_all:
  "load_optional L ps th =
     Some (Inr (on_dev (bind_all (\<lambda>p. if snd (dl_sym L p) then 0 else fst (dl_sym L p)) ps) th))"
proof (induction ps arbitrary: th)
  case (Cons p ps)
  then show ?case
    by (cases "dl_sym L p") (simp add: bind_all_Cons [symmetric])
qed simp

lemma load_l2_all:
  "find (\<lambda>p. fst (dl_sym L p) = 0) ps = None \<Longrightarrow>
     load_l2 L ps th = Some (Inr (on_dev (bind_all (\<lambda>p. fst (dl_sym L p)) ps) th))"
  by (induction ps arbitrary: th) (auto simp: bind_all_Cons [symmetric] Let_def split: if_splits)

lemma load_l2_missing:
  "find (\<lambda>p. fst (dl_sym L p) = 0) ps = Some p \<Longrightarrow>
     \<exists>th'. load_l2 L ps th = Some (Inl (X_NoSymbol p, th'))"
  by (induction ps arbitrary: th) (auto simp: Let_def split: if_splits)

subsection \<open>How the function returns\<close>

text \<open>The exit, read off the answers of the driver library and of the client.\<close>

definition exit_spec ::
    "('g, 'm, 'j, 'c, 'db) thread_env \<Rightarrow> driver_lib \<Rightarrow> ('g, 'm, 'j) device
       \<Rightarrow> ('g, 'm, 'j, 'db) control \<Rightarrow> thread_exit" where
  "exit_spec E L d c =
     (let connects = fst (mc_connect (en_mqtt E) (client_setup E d c))
      in if \<not> dl_opens L then X_NoLibrary
         else if di_driverLevel d = VSCP_DRIVER_LEVEL1 then
           (case find (\<lambda>p. snd (dl_sym L p)) l1_required of
              Some p \<Rightarrow> X_NoSymbol p
            | None \<Rightarrow> if dl_CanalOpen L (c_str (di_strParameter d)) (di_DeviceFlags d) \<le> 0
                      then X_OpenFailed
                      else if \<not> connects then X_ConnectFailed else X_Done)
         else if di_driverLevel d = VSCP_DRIVER_LEVEL2 then
           (case find (\<lambda>p. fst (dl_sym L p) = 0) l2_required of
              Some p \<Rightarrow> X_NoSymbol p
            | None \<Rightarrow> if dl_VSCPOpen L (c_str (di_strParameter d))
                                   (g_bytes (en_guid E) (di_guid d)) = 0
                      then X_OpenFailed
                      else if \<not> connects then X_ConnectFailed else X_Done)
         else X_BadLevel)"

text \<open>The state in which the work loop of a level I driver begins.\<close>

definition l1_ready ::
    "('g, 'm, 'j, 'c, 'db) thread_env \<Rightarrow> driver_lib \<Rightarrow> ('g, 'm, 'j, 'db) control
       \<Rightarrow> ('g, 'm, 'j) device \<Rightarrow> ('g, 'm, 'j) device" where
  "l1_ready E L c d =
     (let h = dl_CanalOpen L (c_str (di_strParameter d)) (di_DeviceFlags d);
          d1 = bind_all (\<lambda>p. if snd (dl_sym L p) then 0 else fst (dl_sym L p)) l1_optional
                 (bind_all (\<lambda>p. fst (dl_sym L p)) l1_required d)
      in d1\<lparr>di_openHandle := h,
            di_mqttClient := snd (mc_connect (en_mqtt E) (client_setup E d c)),
            di_driverLevel := ucast (dl_CanalGetLevel L h)\<rparr>)"

definition l2_ready ::
    "('g, 'm, 'j, 'c, 'db) thread_env \<Rightarrow> driver_lib \<Rightarrow> ('g, 'm, 'j, 'db) control
       \<Rightarrow> ('g, 'm, 'j) device \<Rightarrow> ('g, 'm, 'j) device" where
  "l2_ready E L c d =
     (bind_all (\<lambda>p. fst (dl_sym L p)) l2_required d)
       \<lparr>di_openHandle := dl_VSCPOpen L (c_str (di_strParameter d)) (g_bytes (en_guid E) (di_guid d)),
        di_mqttClient := snd (mc_connect (en_mqtt E) (client_setup E d c))\<rparr>"

lemma bind_all_sel [simp]:
  "di_mqttClient (bind_all f ps d) = di_mqttClient d" "di_guid (bind_all f ps d) = di_guid d"
  "di_strName (bind_all f ps d) = di_strName d" "di_driverLevel (bind_all f ps d) = di_driverLevel d"
  "di_strParameter (bind_all f ps d) = di_strParameter d"
  "di_DeviceFlags (bind_all f ps d) = di_DeviceFlags d"
  "di_bQuit (bind_all f ps d) = di_bQuit d" "di_sent (bind_all f ps d) = di_sent d"
  "di_translation (bind_all f ps d) = di_translation d"
  "di_procs (bind_all f ps d) p = (if p \<in> set ps then f p else di_procs d p)"
  by (simp_all add: bind_all_def)

lemma client_setup_bind_all [simp]:
  "client_setup E (bind_all f ps d) c = client_setup E d c"
  "client_setup E (d\<lparr>di_openHandle := h\<rparr>) c = client_setup E d c"
  by (simp_all add: client_setup_def)

lemmas phase_defs =
  load_library_def l1_open_def l2_open_def setup_client_def l1_connect_def l2_connect_def
  l1_level_def Let_def

text \<open>Running up to the work loop, and no further.\<close>

lemmas step_phases =
  run_phases.simps(2) [where p = "load_library L" for L]
  run_phases.simps(2) [where p = "load_required L ps" for L ps]
  run_phases.simps(2) [where p = "load_optional L ps" for L ps]
  run_phases.simps(2) [where p = "load_l2 L ps" for L ps]
  run_phases.simps(2) [where p = "l1_open L" for L]
  run_phases.simps(2) [where p = "l2_open E L" for E L]
  run_phases.simps(2) [where p = "setup_client E" for E]
  run_phases.simps(2) [where p = "l1_connect E" for E]
  run_phases.simps(2) [where p = "l2_connect E" for E]
  run_phases.simps(2) [where p = "l1_level L" for L]

text \<open>Either the function returns early with the exit of the specification, or the work loop begins
  in the state above.\<close>

lemma l1_early:
  assumes "di_driverLevel (th_dev th) = VSCP_DRIVER_LEVEL1"
    and "exit_spec E L (th_dev th) (th_ctl th) \<noteq> X_Done"
  shows "\<exists>th'. deviceThread E L ticks th = Some (exit_spec E L (th_dev th) (th_ctl th), th')"
proof (cases "find (\<lambda>p. snd (dl_sym L p)) l1_required")
  case None
  with assms show ?thesis
    by (cases "mc_connect (en_mqtt E) (client_setup E (th_dev th) (th_ctl th))")
       (auto simp: deviceThread_def thread_phases_def exit_spec_def load_required_all
          load_optional_all phase_defs split: if_splits)
next
  case (Some p)
  with load_required_missing [OF Some, of "note_event Dlopen th"] assms show ?thesis
    by (cases "dl_opens L") (auto simp: deviceThread_def thread_phases_def exit_spec_def
        load_library_def)
qed

lemma l1_late:
  assumes "di_driverLevel (th_dev th) = VSCP_DRIVER_LEVEL1"
    and "exit_spec E L (th_dev th) (th_ctl th) = X_Done"
  shows "\<exists>th1. deviceThread E L ticks th = run_phases [l1_loop E ticks, close_driver E] th1 \<and>
           th_dev th1 = l1_ready E L (th_ctl th) (th_dev th) \<and> th_ctl th1 = th_ctl th"
proof -
  obtain m where m: "mc_connect (en_mqtt E) (client_setup E (th_dev th) (th_ctl th)) = (True, m)"
    using assms by (cases "mc_connect (en_mqtt E) (client_setup E (th_dev th) (th_ctl th))")
      (auto simp: exit_spec_def Let_def split: if_splits option.splits)
  show ?thesis using assms m
    by (auto simp: deviceThread_def thread_phases_def exit_spec_def l1_ready_def load_required_all
          load_optional_all phase_defs step_phases simp del: run_phases.simps(2)
          split: if_splits option.splits intro!: exI)
qed

lemma l2_early:
  assumes "di_driverLevel (th_dev th) = VSCP_DRIVER_LEVEL2"
    and "exit_spec E L (th_dev th) (th_ctl th) \<noteq> X_Done"
  shows "\<exists>th'. deviceThread E L ticks th = Some (exit_spec E L (th_dev th) (th_ctl th), th')"
proof (cases "find (\<lambda>p. fst (dl_sym L p) = 0) l2_required")
  case None
  with assms show ?thesis
    by (cases "mc_connect (en_mqtt E) (client_setup E (th_dev th) (th_ctl th))")
       (auto simp: deviceThread_def thread_phases_def exit_spec_def load_l2_all levels_differ
          phase_defs split: if_splits)
next
  case (Some p)
  with load_l2_missing [OF Some, of "note_event Dlopen th"] assms show ?thesis
    by (cases "dl_opens L") (auto simp: deviceThread_def thread_phases_def exit_spec_def
        levels_differ load_library_def)
qed

lemma l2_late:
  assumes "di_driverLevel (th_dev th) = VSCP_DRIVER_LEVEL2"
    and "exit_spec E L (th_dev th) (th_ctl th) = X_Done"
  shows "\<exists>th1. deviceThread E L ticks th =
             run_phases [loop_phase (l2_body E) ticks, close_driver E] th1 \<and>
           th_dev th1 = l2_ready E L (th_ctl th) (th_dev th) \<and> th_ctl th1 = th_ctl th"
proof -
  obtain m where m: "mc_connect (en_mqtt E) (client_setup E (th_dev th) (th_ctl th)) = (True, m)"
    using assms by (cases "mc_connect (en_mqtt E) (client_setup E (th_dev th) (th_ctl th))")
      (auto simp: exit_spec_def Let_def levels_differ split: if_splits option.splits)
  show ?thesis using assms m
    by (auto simp: deviceThread_def thread_phases_def exit_spec_def l2_ready_def load_l2_all
          levels_differ phase_defs step_phases simp del: run_phases.simps(2)
          split: if_splits option.splits intro!: exI)
qed

lemma bad_early:
  assumes "di_driverLevel (th_dev th) \<noteq> VSCP_DRIVER_LEVEL1"
    and "di_driverLevel (th_dev th) \<noteq> VSCP_DRIVER_LEVEL2"
  shows "\<exists>th'. deviceThread E L ticks th = Some (exit_spec E L (th_dev th) (th_ctl th), th')"
  using assms
  by (auto simp: deviceThread_def thread_phases_def exit_spec_def load_library_def bad_level_def
        Let_def)

subsection \<open>The end of the work loop\<close>

lemma l1_loop_ends: "l1_loop E ticks th = None \<longleftrightarrow> \<not> (th_quit th \<or> Stop \<in> set ticks)"
  using bl.loop_ends_iff [of E ticks th] po.loop_ends_iff [of E ticks th]
  by (auto simp: l1_loop_def loop_phase_def)

lemma l2_loop_ends:
  "loop_phase (l2_body E) ticks th = None \<longleftrightarrow> \<not> (th_quit th \<or> Stop \<in> set ticks)"
  using lp2.loop_ends_iff [of E ticks th] by (auto simp: loop_phase_def)

lemma ready_quit:
  "th_dev th1 = l1_ready E L c d \<Longrightarrow> th_quit th1 = di_bQuit d"
  "th_dev th1 = l2_ready E L c d \<Longrightarrow> th_quit th1 = di_bQuit d"
  by (simp_all add: th_quit_def l1_ready_def l2_ready_def Let_def)

lemma finish_loop:
  assumes "p th1 = None \<or> (\<exists>th2. p th1 = Some (Inr th2))"
  shows "map_option fst (run_phases [p, close_driver E] th1) =
           (if p th1 = None then None else Some X_Done)"
  using assms by (auto simp: close_driver_def Let_def)

lemma l1_loop_inr: "l1_loop E ticks th = None \<or> (\<exists>th2. l1_loop E ticks th = Some (Inr th2))"
  by (cases "work_loop th_quit ask_quit (l1_blocking_body E) ticks th")
     (auto simp: l1_loop_def loop_phase_def)

lemma l2_loop_inr:
  "loop_phase (l2_body E) ticks th = None \<or> (\<exists>th2. loop_phase (l2_body E) ticks th = Some (Inr th2))"
  by (auto simp: loop_phase_def)

lemma deviceThread_exit:
  "map_option fst (deviceThread E L ticks th) =
     (if exit_spec E L (th_dev th) (th_ctl th) = X_Done \<and> \<not> di_bQuit (th_dev th) \<and> Stop \<notin> set ticks
      then None else Some (exit_spec E L (th_dev th) (th_ctl th)))"
proof -
  let ?x = "exit_spec E L (th_dev th) (th_ctl th)" and ?lvl = "di_driverLevel (th_dev th)"
  consider (early) "\<exists>th'. deviceThread E L ticks th = Some (?x, th')" "?x \<noteq> X_Done"
    | (l1) "?x = X_Done" "?lvl = VSCP_DRIVER_LEVEL1" | (l2) "?x = X_Done" "?lvl = VSCP_DRIVER_LEVEL2"
  proof (cases "?x = X_Done")
    case True
    then have "?lvl = VSCP_DRIVER_LEVEL1 \<or> ?lvl = VSCP_DRIVER_LEVEL2"
      by (auto simp: exit_spec_def Let_def split: if_splits)
    with True that show thesis by blast
  next
    case False
    with l1_early [of th E L ticks] l2_early [of th E L ticks] bad_early [of th E L ticks]
    have "\<exists>th'. deviceThread E L ticks th = Some (?x, th')" by blast
    with False that show thesis by blast
  qed
  then show ?thesis
  proof cases
    case l1
    with l1_late [of th E L ticks] obtain th1 where
      "deviceThread E L ticks th = run_phases [l1_loop E ticks, close_driver E] th1"
      and "th_dev th1 = l1_ready E L (th_ctl th) (th_dev th)" by blast
    with l1 show ?thesis
      using finish_loop [where p = "l1_loop E ticks" and ?th1.0 = th1 and E = E]
        l1_loop_inr [of E ticks th1] ready_quit(1) [of th1 E L "th_ctl th" "th_dev th"]
      by (simp only: l1_loop_ends) simp
  next
    case l2
    with l2_late [of th E L ticks] obtain th1 where
      "deviceThread E L ticks th = run_phases [loop_phase (l2_body E) ticks, close_driver E] th1"
      and "th_dev th1 = l2_ready E L (th_ctl th) (th_dev th)" by blast
    with l2 show ?thesis
      using finish_loop [where p = "loop_phase (l2_body E) ticks" and ?th1.0 = th1 and E = E]
        l2_loop_inr [of E ticks th1] ready_quit(2) [of th1 E L "th_ctl th" "th_dev th"]
      by (simp only: l2_loop_ends) simp
  qed auto
qed

text \<open>C25: When and how the device thread returns. The answers of the driver library and of the MQTT
  client determine the exit, whatever happens in the work loop; the thread runs for ever exactly if
  it reaches the work loop (the exit would be the normal one) and nobody asks it to quit, neither
  before it started nor at any point of the schedule.\<close>

theorem deviceThread_returns:
  "map_option fst (deviceThread E L ticks th) =
     (if exit_spec E L (th_dev th) (th_ctl th) = X_Done \<and> \<not> di_bQuit (th_dev th) \<and> Stop \<notin> set ticks
      then None else Some (exit_spec E L (th_dev th) (th_ctl th)))"
  by (rule deviceThread_exit)

subsection \<open>Delivered events\<close>

text \<open>The loop of a level I driver is the blocking one if the library has
  \<open>CanalBlockingReceive\<close>.\<close>

definition has_proc :: "driver_lib \<Rightarrow> driver_proc \<Rightarrow> bool" where
  "has_proc L p \<longleftrightarrow> \<not> snd (dl_sym L p) \<and> fst (dl_sym L p) \<noteq> 0"

definition thread_emit ::
    "('g, 'm, 'j, 'c, 'db) thread_env \<Rightarrow> driver_lib \<Rightarrow> ('g, 'm, 'j) device \<Rightarrow> 'c answers
       \<Rightarrow> vscp_event list" where
  "thread_emit E L d =
     (let k = (di_guid d, di_translation d)
      in if di_driverLevel d = VSCP_DRIVER_LEVEL1
         then (if has_proc L P_CanalBlockingReceive then l1_blocking_emit E k
               else l1_polling_emit E k)
         else l2_emit E k)"

lemma ready_sel:
  "di_sent (l1_ready E L c d) = di_sent d" "di_sent (l2_ready E L c d) = di_sent d"
  "di_guid (l1_ready E L c d) = di_guid d" "di_guid (l2_ready E L c d) = di_guid d"
  "di_translation (l1_ready E L c d) = di_translation d"
  "di_translation (l2_ready E L c d) = di_translation d"
  "di_procs (l1_ready E L c d) P_CanalBlockingReceive =
     (if snd (dl_sym L P_CanalBlockingReceive) then 0 else fst (dl_sym L P_CanalBlockingReceive))"
  by (simp_all add: l1_ready_def l2_ready_def Let_def l1_optional_def)

lemma l1_loop_out:
  assumes "l1_loop E ticks th1 = Some (Inr th2)" and "th_dev th1 = l1_ready E L c d"
    and "\<not> di_bQuit d" and "di_driverLevel d = VSCP_DRIVER_LEVEL1"
  shows "di_sent (th_dev th2) =
           di_sent d @ concat (map (thread_emit E L d) (before_stop ticks))"
proof -
  have q: "\<not> th_quit th1" using assms ready_quit by metis
  have k: "th_same th1 = (di_guid d, di_translation d)"
    using assms(2) by (simp add: th_same_def ready_sel)
  show ?thesis using assms bl.loop_out [OF q] po.loop_out [OF q] k
    by (cases "has_proc L P_CanalBlockingReceive")
       (fastforce simp: l1_loop_def loop_phase_def thread_emit_def has_proc_def ready_sel Let_def
          ask_quit_def split: if_splits)+
qed

lemma l2_loop_out:
  assumes "loop_phase (l2_body E) ticks th1 = Some (Inr th2)" and "th_dev th1 = l2_ready E L c d"
    and "\<not> di_bQuit d" and "di_driverLevel d = VSCP_DRIVER_LEVEL2"
  shows "di_sent (th_dev th2) =
           di_sent d @ concat (map (thread_emit E L d) (before_stop ticks))"
proof -
  have q: "\<not> th_quit th1" using assms ready_quit by metis
  have k: "th_same th1 = (di_guid d, di_translation d)"
    using assms(2) by (simp add: th_same_def ready_sel)
  show ?thesis using assms lp2.loop_out [OF q] k
    by (fastforce simp: loop_phase_def thread_emit_def ready_sel levels_differ Let_def)
qed

lemma close_driver_result:
  "\<exists>th3. close_driver E th2 = Some (Inr th3) \<and> di_sent (th_dev th3) = di_sent (th_dev th2) \<and>
     di_bQuit (th_dev th3) \<and> di_openHandle (th_dev th3) = 0"
  by (simp add: close_driver_def Let_def ask_quit_def)

lemma deviceThread_output:
  assumes "deviceThread E L ticks th = Some (X_Done, th')" and "\<not> di_bQuit (th_dev th)"
  shows "di_sent (th_dev th') =
           di_sent (th_dev th) @ concat (map (thread_emit E L (th_dev th)) (before_stop ticks))
         \<and> di_openHandle (th_dev th') = 0 \<and> di_bQuit (th_dev th')"
proof -
  let ?d = "th_dev th" and ?c = "th_ctl th"
  have x: "exit_spec E L ?d ?c = X_Done"
    using assms(1) deviceThread_exit [of E L ticks th] by (auto split: if_splits)
  then consider (l1) "di_driverLevel ?d = VSCP_DRIVER_LEVEL1" | (l2) "di_driverLevel ?d = VSCP_DRIVER_LEVEL2"
    by (auto simp: exit_spec_def Let_def split: if_splits)
  then show ?thesis
  proof cases
    case l1
    obtain th1 where run: "run_phases [l1_loop E ticks, close_driver E] th1 = Some (X_Done, th')"
      and r: "th_dev th1 = l1_ready E L ?c ?d" using l1_late [OF l1 x] assms(1) by metis
    then obtain th2 where th2: "l1_loop E ticks th1 = Some (Inr th2)"
      using l1_loop_inr [of E ticks th1] by fastforce
    from l1_loop_out [OF th2 r assms(2) l1] close_driver_result [of E th2] th2 run
    show ?thesis by auto
  next
    case l2
    obtain th1 where
      run: "run_phases [loop_phase (l2_body E) ticks, close_driver E] th1 = Some (X_Done, th')"
      and r: "th_dev th1 = l2_ready E L ?c ?d" using l2_late [OF l2 x] assms(1) by metis
    then obtain th2 where th2: "loop_phase (l2_body E) ticks th1 = Some (Inr th2)"
      using l2_loop_inr [of E ticks th1] by fastforce
    from l2_loop_out [OF th2 r assms(2) l2] close_driver_result [of E th2] th2 run
    show ?thesis by auto
  qed
qed

text \<open>C20: When the thread ends normally it has handed to the broker exactly what the driver gave it
  before the request to quit, in that order, each message converted by the loop of its kind, with
  nothing lost but the messages whose conversion failed, nothing repeated and nothing after the
  request; and it leaves the handle zero and the device quitting.\<close>

theorem deviceThread_delivers:
  assumes "deviceThread E L ticks th = Some (X_Done, th')" and "\<not> di_bQuit (th_dev th)"
  shows "di_sent (th_dev th') =
           di_sent (th_dev th) @ concat (map (thread_emit E L (th_dev th)) (before_stop ticks))
         \<and> di_openHandle (th_dev th') = 0 \<and> di_bQuit (th_dev th')"
  by (rule deviceThread_output [OF assms])

subsection \<open>A concrete thread\<close>

definition env0 :: "(u8 list, nat, jv, u8 list, nat) thread_env" where
  "env0 = \<lparr>en_guid = guid0, en_json = json0, en_mqtt = mqtt0, en_vscp = vscp0,
           en_render = render0, en_exec = (\<lambda>db sql. (True, Suc db))\<rparr>"

definition lib0 :: driver_lib where
  "lib0 = \<lparr>dl_opens = True, dl_sym = (\<lambda>p. (1, False)), dl_CanalOpen = (\<lambda>_ _. 7),
           dl_CanalGetLevel = (\<lambda>_. 1), dl_VSCPOpen = (\<lambda>_ _. 9)\<rparr>"

definition dev0 :: "u8 \<Rightarrow> (u8 list, nat, jv) device" where
  "dev0 lvl = (CDeviceItem_new guid0 mqtt0 json0)\<lparr>di_bEnable := True, di_driverLevel := lvl\<rparr>"

definition th0 :: "u8 \<Rightarrow> (u8 list, nat, jv, nat) thread" where
  "th0 lvl = \<lparr>th_dev = dev0 lvl, th_ctl = CControlObject_new guid0 mqtt0, th_trace = []\<rparr>"

definition rx0 :: "u8 list \<Rightarrow> u8 list answers" where
  "rx0 msg = \<lparr>an_available = True, an_canal = Some msg, an_event = None, an_ns = 5, an_time = ''t''\<rparr>"

lemma env0_sel [lib_simps]:
  "en_guid env0 = guid0" "en_json env0 = json0" "en_mqtt env0 = mqtt0" "en_vscp env0 = vscp0"
  "dl_opens lib0" "dl_sym lib0 = (\<lambda>p. (1, False))" "dl_CanalOpen lib0 s f = 7"
  "dl_CanalGetLevel lib0 h = 1" "dl_VSCPOpen lib0 s bs = 9"
  "th_dev (th0 lvl) = dev0 lvl" "th_trace (th0 lvl) = []"
  "di_driverLevel (dev0 lvl) = lvl" "\<not> di_bQuit (dev0 lvl)" "di_sent (dev0 lvl) = []"
  "di_translation (dev0 lvl) = 0" "di_guid (dev0 lvl) = replicate 16 0"
  by (simp_all add: env0_def lib0_def th0_def dev0_def CDeviceItem_new_def driver_consts guid0_def)

lemma exit_spec0: "lvl \<in> {1, 2} \<Longrightarrow> exit_spec env0 lib0 (dev0 lvl) c = X_Done"
  by (auto simp: exit_spec_def lib_simps driver_consts l1_required_def l2_required_def)

lemma thread0_done:
  assumes "lvl \<in> {1, 2}" and "Stop \<in> set ticks"
  shows "\<exists>th'. deviceThread env0 lib0 ticks (th0 lvl) = Some (X_Done, th')"
proof -
  have "map_option fst (deviceThread env0 lib0 ticks (th0 lvl)) = Some X_Done"
    unfolding deviceThread_exit using assms exit_spec0 [of lvl] by (simp add: lib_simps)
  then show ?thesis by auto
qed

theorem deviceThread_delivers_witness:
  "\<exists>th'. deviceThread env0 lib0 [Iter (rx0 [7, 8]), Iter (rx0 [9]), Stop, Iter (rx0 [1])] (th0 1)
           = Some (X_Done, th') \<and>
         map ev_pdata (di_sent (th_dev th')) = [[7, 8], [9]]"
proof -
  obtain th' where th': "deviceThread env0 lib0
      [Iter (rx0 [7, 8]), Iter (rx0 [9]), Stop, Iter (rx0 [1])] (th0 1) = Some (X_Done, th')"
    using thread0_done [of 1 "[Iter (rx0 [7, 8]), Iter (rx0 [9]), Stop, Iter (rx0 [1])]"] by auto
  from deviceThread_delivers [OF th'] have "di_sent (th_dev th') =
      concat (map (thread_emit env0 lib0 (dev0 1)) [rx0 [7, 8], rx0 [9]])"
    by (simp add: lib_simps)
  then show ?thesis using th'
    by (simp add: thread_emit_def driver_consts lib_simps has_proc_def l1_blocking_emit_def
          rx0_def l1_blocking_event_def outgoing_def)
qed

theorem deviceThread_protocol_witness:
  "\<exists>th'. deviceThread env0 lib0 [Stop] (th0 2) = Some (X_Done, th') \<and>
         life_run Unloaded (th_trace th') = Some Unloaded"
proof -
  obtain th' where th': "deviceThread env0 lib0 [Stop] (th0 2) = Some (X_Done, th')"
    using thread0_done [of 2 "[Stop]"] by auto
  with deviceThread_protocol [OF th'] show ?thesis by (simp add: lib_simps)
qed

subsection \<open>The callback while the thread works\<close>

text \<open>What the callback reads of the device: the function pointers, the handle and the level. The
  work loops leave all three as they were when the loop began.\<close>

definition same_binding :: "('g, 'm, 'j) device \<Rightarrow> ('g, 'm, 'j) device \<Rightarrow> bool" where
  "same_binding d d' \<longleftrightarrow>
     di_procs d' = di_procs d \<and> di_openHandle d' = di_openHandle d
     \<and> di_driverLevel d' = di_driverLevel d"

lemma work_same_binding:
  "same_binding d (th_dev th) \<Longrightarrow> same_binding d (th_dev (ask_quit th))"
  "same_binding d (th_dev th) \<Longrightarrow> same_binding d (th_dev (l1_blocking_body E a th))"
  "same_binding d (th_dev th) \<Longrightarrow> same_binding d (th_dev (l1_polling_body E a th))"
  "same_binding d (th_dev th) \<Longrightarrow> same_binding d (th_dev (l2_body E a th))"
  by (auto simp: same_binding_def body_simps split: option.splits)

text \<open>A call through a null pointer.\<close>

fun null_call :: "'c callback_action \<Rightarrow> bool" where
  "null_call (CB_CanalCall p a h msg) = (a = 0)"
| "null_call (CB_EventCall p a h ev) = (a = 0)"
| "null_call _ = False"

fun call_handle :: "'c callback_action \<Rightarrow> int option" where
  "call_handle (CB_CanalCall p a h msg) = Some h"
| "call_handle (CB_EventCall p a h ev) = Some h"
| "call_handle _ = None"

text \<open>\<open>dlsym\<close> reports an error exactly when it finds no address.\<close>

definition dlsym_law :: "driver_lib \<Rightarrow> bool" where
  "dlsym_law L \<longleftrightarrow> (\<forall>p. snd (dl_sym L p) \<longleftrightarrow> fst (dl_sym L p) = 0)"

lemma callback_silent:
  "di_bQuit d \<or> di_openHandle d = 0 \<Longrightarrow> receive_event_callback V ev (Some d) = CB_Returned"
  by (simp add: receive_event_callback_def)



text \<open>Once the work loop of a level II driver runs, every event the broker delivers is passed as
  it is to \<open>VSCPWrite\<close> of the loaded library, with the handle \<open>VSCPOpen\<close> returned, never through a
  null pointer.\<close>

lemma callback_level2:
  assumes "di_driverLevel d = VSCP_DRIVER_LEVEL2" and "exit_spec E L d c = X_Done"
    and "same_binding (l2_ready E L c d) d'" and "\<not> di_bQuit d'"
  shows "receive_event_callback V ev (Some d') =
           CB_EventCall P_VSCPWrite (fst (dl_sym L P_VSCPWrite))
             (dl_VSCPOpen L (c_str (di_strParameter d)) (g_bytes (en_guid E) (di_guid d))) ev
         \<and> fst (dl_sym L P_VSCPWrite) \<noteq> 0"
proof -
  have "find (\<lambda>p. fst (dl_sym L p) = 0) l2_required = None"
    and h: "dl_VSCPOpen L (c_str (di_strParameter d)) (g_bytes (en_guid E) (di_guid d)) \<noteq> 0"
    using assms(1,2)
    by (auto simp: exit_spec_def Let_def levels_differ split: if_splits option.splits)
  then have "fst (dl_sym L P_VSCPWrite) \<noteq> 0"
    unfolding find_None_iff by (auto simp: l2_required_def)
  with assms h show ?thesis
    by (auto simp: receive_event_callback_def same_binding_def l2_ready_def l2_required_def
        levels_differ)
qed

lemma callback_level2_witness:
  "receive_event_callback vscp0 zero_event
       (Some (l2_ready env0 lib0 (CControlObject_new guid0 mqtt0 :: (_, _, jv, nat) control) (dev0 2)))
     = CB_EventCall P_VSCPWrite 1 9 zero_event"
  using callback_level2 [of "dev0 2" env0 lib0 "CControlObject_new guid0 mqtt0"
      "l2_ready env0 lib0 (CControlObject_new guid0 mqtt0) (dev0 2)" vscp0 zero_event]
    exit_spec0 [of 2 "CControlObject_new guid0 mqtt0"]
  by (simp add: lib_simps driver_consts same_binding_def l2_ready_def)

end
