(* ===== verification/Drivers.thy ===== *)
theory Drivers
  imports ThreadDelivery
begin

text \<open>
  Starting and stopping all drivers (\<open>startDeviceWorkerThreads\<close> and \<open>stopDeviceWorkerThreads\<close> of
  \<open>controlobject.cpp\<close>), over \<open>startDriver\<close> and \<open>stopDriver\<close> with the device thread as the thread
  that \<open>pthread_join\<close> waits for. The contract \<open>driver_control\<close> is interpreted on exactly these
  operations.
\<close>

subsection \<open>What a join waits for\<close>

text \<open>
  The rest of the thread function from phase \<open>k\<close> of the level the thread was started with, for a
  device that has been asked to quit (which no phase resets): the device as the join finds it. The
  flag is not read inside an iteration of a work loop, so a thread asked to quit within one stands
  at its end.
\<close>

definition worker_rest ::
    "('g, 'm, 'j, 'c, 'db) thread_env \<Rightarrow> (string \<Rightarrow> driver_lib) \<Rightarrow> ('g, 'm, 'j, 'db) control
       \<Rightarrow> (('g, 'm, 'j) device \<Rightarrow> u8 \<times> nat) \<Rightarrow> ('g, 'm, 'j) device \<Rightarrow> ('g, 'm, 'j) device" where
  "worker_rest E libs c pos d =
     (case run_phases (drop (snd (pos d)) (thread_phases E (libs (di_strPath d)) [] (fst (pos d))))
             \<lparr>th_dev = d, th_ctl = c, th_trace = []\<rparr> of
        Some (x, th') \<Rightarrow> th_dev th'
      | None \<Rightarrow> d)"

lemma worker_rest_frame: "worker_frame d (worker_rest E libs c pos d)"
  using rest_frame [of "snd (pos d)" E "libs (di_strPath d)" "[]" "fst (pos d)"
      "\<lparr>th_dev = d, th_ctl = c, th_trace = []\<rparr>"]
  by (auto simp: worker_rest_def th_frame_def split: option.splits)

lemma worker_rest_ok: "join_ok (worker_rest E libs c pos)"
  by (simp add: join_ok_def worker_rest_frame)

interpretation drv: driver_control
    "\<lambda>d. startDriver (created d) d" "stopDriver (worker_rest E libs c pos)"
    di_bEnable di_bThreadStarted
  for created :: "('g, 'm, 'j) device \<Rightarrow> bool" and E :: "('g, 'm, 'j, 'c, 'db) thread_env"
    and libs c pos
  by unfold_locales
     (simp_all add: startDriver_frame stopDriver_frame [OF worker_rest_ok]
        stopDriver_again [OF worker_rest_ok])

text \<open>The join returns: from whatever phase, a thread whose device is quitting comes to an end.\<close>

lemma phases_quit:
  assumes "\<And>p th. p \<in> set ps \<Longrightarrow> th_quit th \<Longrightarrow> p th \<noteq> None"
    and "\<And>p th r. p \<in> set ps \<Longrightarrow> p th = Some r \<Longrightarrow> th_frame th (outcome r)" and "th_quit th"
  shows "run_phases ps th \<noteq> None"
  using assms
proof (induction ps arbitrary: th)
  case (Cons p ps)
  from Cons.prems(1) [of p th] Cons.prems(3) obtain r where r: "p th = Some r" by auto
  with Cons.prems(2) [of p th r] Cons.prems(3) have q: "th_quit (outcome r)"
    by (simp add: th_frame_def worker_frame_def th_quit_def)
  show ?case
  proof (cases r)
    case (Inr th')
    have "run_phases ps th' \<noteq> None"
    proof (rule Cons.IH)
      show "p' th \<noteq> None" if "p' \<in> set ps" "th_quit th" for p' th
        using Cons.prems(1) [of p' th] that by simp
      show "th_frame th (outcome r)" if "p' \<in> set ps" "p' th = Some r" for p' th r
        using Cons.prems(2) [of p' th r] that by simp
    qed (use q Inr in simp)
    with r Inr show ?thesis by simp
  qed (use r in simp)
qed simp

lemma load_total:
  "\<exists>r. load_required L ps th = Some r" "\<exists>r. load_l2 L ps th = Some r"
  by (induction ps arbitrary: th) (auto simp: Let_def split: prod.splits)

lemma phase_total:
  assumes "p \<in> set (thread_phases E L ticks lvl)" and "th_quit th"
  shows "p th \<noteq> None"
proof -
  from assms(2) have "l1_loop E ticks th \<noteq> None" "loop_phase (l2_body E) ticks th \<noteq> None"
    by (simp_all add: l1_loop_ends l2_loop_ends)
  with assms(1) show ?thesis
    by (auto simp: thread_phases_def load_library_def load_total load_optional_all l1_open_def
          l2_open_def setup_client_def l1_connect_def l2_connect_def l1_level_def close_driver_def
          bad_level_def Let_def simp del: not_None_eq split: if_splits prod.splits)
qed

text \<open>Joining a worker thread returns: a thread whose device has been asked to quit ends, from
  whatever point of its function it has reached, as long as the calls into the driver and the client
  return, and it never takes the request back.\<close>

lemma join_returns:
  assumes "di_bQuit (th_dev th)"
  shows "\<exists>x th'. run_phases (drop k (thread_phases E L ticks lvl)) th = Some (x, th')
           \<and> di_bQuit (th_dev th') \<and> worker_frame (th_dev th) (th_dev th')"
proof -
  have "run_phases (drop k (thread_phases E L ticks lvl)) th \<noteq> None"
  proof (rule phases_quit)
    fix p :: "('a, 'b, 'c, 'd) phase" and th
    assume p: "p \<in> set (drop k (thread_phases E L ticks lvl))"
    then show "p th \<noteq> None" if "th_quit th" using phase_total [OF in_set_dropD] that by blast
    from p show "th_frame th (outcome r)" if "p th = Some r" for r
      using phases_frame [OF in_set_dropD] that by blast
  qed (use assms in \<open>simp add: th_quit_def\<close>)
  then obtain x th' where r: "run_phases (drop k (thread_phases E L ticks lvl)) th = Some (x, th')"
    by auto
  with rest_frame [OF r] assms show ?thesis by (auto simp: th_frame_def worker_frame_def)
qed

subsection \<open>All drivers\<close>

text \<open>\<open>created\<close> is what \<open>pthread_create\<close> answers for each device. The result of \<open>startDriver\<close> is not
  looked at; both functions return true.\<close>

definition startDeviceWorkerThreads ::
    "(('g, 'm, 'j) device \<Rightarrow> bool) \<Rightarrow> ('g, 'm, 'j, 'db) control
       \<Rightarrow> bool \<times> ('g, 'm, 'j, 'db) control" where
  "startDeviceWorkerThreads created c =
     (True, c\<lparr>co_deviceList :=
        map (\<lambda>d. if \<not> di_bEnable d then d else snd (startDriver (created d) d)) (co_deviceList c)\<rparr>)"

definition stopDeviceWorkerThreads ::
    "('g, 'm, 'j, 'c, 'db) thread_env \<Rightarrow> (string \<Rightarrow> driver_lib)
       \<Rightarrow> (('g, 'm, 'j) device \<Rightarrow> u8 \<times> nat) \<Rightarrow> ('g, 'm, 'j, 'db) control
       \<Rightarrow> bool \<times> ('g, 'm, 'j, 'db) control" where
  "stopDeviceWorkerThreads E libs pos c =
     (True, c\<lparr>co_deviceList :=
        map (\<lambda>d. snd (stopDriver (worker_rest E libs c pos) d)) (co_deviceList c)\<rparr>)"

lemma start_all_map:
  "co_deviceList (snd (startDeviceWorkerThreads created c)) =
     map (\<lambda>d. snd (startDriver (created d) d)) (co_deviceList c)"
  by (auto simp: startDeviceWorkerThreads_def startDriver_frame)

text \<open>A list on which everything is stopped is left as it is.\<close>

lemma stop_stopped:
  assumes "\<forall>d\<in>set (co_deviceList c). \<not> di_bThreadStarted d \<and> (di_bEnable d \<longrightarrow> di_bQuit d)"
  shows "stopDeviceWorkerThreads E libs pos c = (True, c)"
proof -
  have "snd (stopDriver join d) = d" if "d \<in> set (co_deviceList c)" for join d
    using assms that by (auto simp: stopDriver_def)
  then show ?thesis by (simp add: stopDeviceWorkerThreads_def map_idI)
qed

text \<open>Starting the drivers and stopping them again, with any outcome of the thread creations: in
  between, a thread runs only for an enabled device, and for exactly the enabled ones whose thread
  could be created; afterwards no device has a running thread, every enabled one has been asked to
  quit, the disabled ones are as they were, the order, the names and the enabled flags of the list
  are unchanged, and stopping once more changes nothing.\<close>

lemma start_then_stop:
  assumes "\<forall>d\<in>set (co_deviceList c). \<not> di_bThreadStarted d"
  shows "let c1 = snd (startDeviceWorkerThreads created c);
             c2 = snd (stopDeviceWorkerThreads E libs pos c1)
         in map di_bThreadStarted (co_deviceList c1)
              = map (\<lambda>d. di_bEnable d \<and> created d) (co_deviceList c) \<and>
            (\<forall>d\<in>set (co_deviceList c2). \<not> di_bThreadStarted d \<and> (di_bEnable d \<longrightarrow> di_bQuit d)) \<and>
            map (\<lambda>d. (di_strName d, di_bEnable d)) (co_deviceList c2)
              = map (\<lambda>d. (di_strName d, di_bEnable d)) (co_deviceList c) \<and>
            filter (\<lambda>d. \<not> di_bEnable d) (co_deviceList c2)
              = filter (\<lambda>d. \<not> di_bEnable d) (co_deviceList c) \<and>
            stopDeviceWorkerThreads E libs' pos' c2 = (True, c2)"
proof -
  let ?c1 = "snd (startDeviceWorkerThreads created c)"
  let ?J = "worker_rest E libs ?c1 pos"
  let ?start = "\<lambda>d. snd (startDriver (created d) d)"
  let ?stop = "\<lambda>d. snd (stopDriver ?J d)"
  have l1: "co_deviceList ?c1 = map ?start (co_deviceList c)" by (rule start_all_map)
  have l2: "co_deviceList (snd (stopDeviceWorkerThreads E libs pos ?c1))
      = map (?stop \<circ> ?start) (co_deviceList c)"
    by (simp add: stopDeviceWorkerThreads_def l1)
  have run: "di_bThreadStarted (?start d) = (di_bEnable d \<and> created d)" if "d \<in> set (co_deviceList c)" for d
    using assms that by (auto simp: startDriver_def)
  have idle: "\<not> di_bThreadStarted d" if "d \<in> set (map ?stop (map ?start (co_deviceList c)))" for d
  proof -
    have "drv.only_enabled_run (co_deviceList c)"
      using assms by (simp add: drv.only_enabled_run_def)
    then have "drv.only_enabled_run (map ?start (co_deviceList c))"
      by (rule drv.start_all_only_enabled)
    then show ?thesis using that drv.stop_all_none_running by blast
  qed
  have quit: "di_bEnable (?stop (?start d)) \<longrightarrow> di_bQuit (?stop (?start d))" for d
    using stopDriver_frame [OF worker_rest_ok [of E libs ?c1 pos], of "?start d"] by auto
  have names: "di_strName (?stop (?start d)) = di_strName d" for d
    using worker_rest_frame [of "?start d\<lparr>di_bQuit := True\<rparr>" E libs ?c1 pos]
    by (auto simp: stopDriver_def startDriver_def worker_frame_def Let_def)
  have enabled: "di_bEnable (?stop (?start d)) = di_bEnable d" for d
    by (simp add: drv.stop_enabled startDriver_frame(1))
  have disabled: "?stop (?start d) = d" if "\<not> di_bEnable d" for d
    using that by (simp add: startDriver_def stopDriver_def)
  have "filter (\<lambda>d. \<not> di_bEnable d) (map (?stop \<circ> ?start) ds) = filter (\<lambda>d. \<not> di_bEnable d) ds" for ds
    by (induction ds) (auto simp: enabled disabled)
  moreover have "stopDeviceWorkerThreads E libs' pos' c2 = (True, c2)"
    if "c2 = snd (stopDeviceWorkerThreads E libs pos ?c1)" for c2
    using that l2 idle quit by (intro stop_stopped) auto
  ultimately show ?thesis unfolding Let_def l1 l2
    using run idle quit names enabled by auto
qed

lemma start_then_stop_witness:
  "map di_bThreadStarted (co_deviceList (snd (startDeviceWorkerThreads (\<lambda>d. True)
     ((CControlObject_new guid0 mqtt0 :: (_, _, jv, nat) control)
        \<lparr>co_deviceList := [dev0 1, (dev0 2)\<lparr>di_bEnable := False\<rparr>]\<rparr>)))) = [True, False]"
proof -
  let ?c = "(CControlObject_new guid0 mqtt0 :: (_, _, jv, nat) control)
      \<lparr>co_deviceList := [dev0 1, (dev0 2)\<lparr>di_bEnable := False\<rparr>]\<rparr>"
  have idle: "\<forall>d\<in>set (co_deviceList ?c). \<not> di_bThreadStarted d"
    by (simp add: dev0_def CDeviceItem_new_def)
  have "map di_bThreadStarted (co_deviceList (snd (startDeviceWorkerThreads (\<lambda>d. True) ?c)))
      = map (\<lambda>d. di_bEnable d \<and> True) (co_deviceList ?c)"
    using start_then_stop [OF idle, where created = "\<lambda>d. True" and E = env0] unfolding Let_def
    by (rule conjunct1)
  then show ?thesis by (simp add: dev0_def CDeviceItem_new_def)
qed

lemma join_returns_witness:
  "\<exists>x th'. run_phases (drop 6 (thread_phases env0 lib0 [] 1))
             ((th0 1)\<lparr>th_dev := (dev0 1)\<lparr>di_bQuit := True\<rparr>\<rparr>) = Some (x, th') \<and> di_bQuit (th_dev th')"
  using join_returns [of "(th0 1)\<lparr>th_dev := (dev0 1)\<lparr>di_bQuit := True\<rparr>\<rparr>" 6 env0 lib0 "[]" 1]
  by auto

subsection \<open>A stopped driver\<close>

lemma quit_sent:
  assumes "p \<in> set (thread_phases E L ticks lvl)" and "p th = Some r" and "th_quit th"
  shows "di_sent (th_dev (outcome r)) = di_sent (th_dev th)"
proof -
  have l1: "di_sent (th_dev (outcome r)) = di_sent (th_dev th)" if "l1_loop E ticks th = Some r"
    using that assms(3) bl.loop_quit [of th E ticks] po.loop_quit [of th E ticks]
    by (auto simp: l1_loop_def loop_phase_def ask_quit_def split: if_splits)
  have l2: "di_sent (th_dev (outcome r)) = di_sent (th_dev th)"
    if "loop_phase (l2_body E) ticks th = Some r"
    using that assms(3) lp2.loop_quit [of th E ticks] by (auto simp: loop_phase_def)
  have req: "load_required L ps th = Some r \<Longrightarrow> di_sent (th_dev (outcome r)) = di_sent (th_dev th)"
    "load_l2 L ps th = Some r \<Longrightarrow> di_sent (th_dev (outcome r)) = di_sent (th_dev th)" for ps th
    by (induction ps arbitrary: th)
       (auto simp: Let_def set_proc_def split: prod.splits if_splits)
  show ?thesis using assms(1,2) l1 l2 req
    by (auto simp: thread_phases_def load_library_def load_optional_all l1_open_def
          l2_open_def setup_client_def l1_connect_def l2_connect_def l1_level_def close_driver_def
          bad_level_def ask_quit_def Let_def split: if_splits prod.splits)
qed

lemma quit_run_sent:
  assumes "\<And>p th r. p \<in> set ps \<Longrightarrow> p th = Some r \<Longrightarrow> th_quit th \<Longrightarrow>
      di_sent (th_dev (outcome r)) = di_sent (th_dev th)"
    and "\<And>p th r. p \<in> set ps \<Longrightarrow> p th = Some r \<Longrightarrow> th_frame th (outcome r)"
    and "run_phases ps th = Some (x, th')" and "th_quit th"
  shows "di_sent (th_dev th') = di_sent (th_dev th)"
proof -
  let ?R = "\<lambda>a b. th_frame a b \<and> (th_quit a \<longrightarrow> di_sent (th_dev b) = di_sent (th_dev a))"
  have "?R th th'"
    by (rule run_phases_rel [OF assms(3), of ?R])
       (use assms(1,2) in \<open>auto intro: th_frame_trans simp: th_quit_def th_frame_def worker_frame_def\<close>)
  with assms(4) show ?thesis by blast
qed

text \<open>A stopped driver cannot be brought back: \<open>startDriver\<close> does not take the request to quit
  back, so a thread started on a device that was stopped ends, whatever its driver receives, without
  delivering a single event, and the device is still quitting.\<close>

lemma restart_is_dead:
  assumes "di_bEnable d" and "stopDriver (worker_rest E libs c pos) d = (True, d1)"
    and "startDriver True d1 = (True, d2)"
  shows "\<exists>x th'. deviceThread E L ticks \<lparr>th_dev = d2, th_ctl = c, th_trace = []\<rparr> = Some (x, th') \<and>
           di_sent (th_dev th') = di_sent d2 \<and> di_bQuit (th_dev th')"
proof -
  let ?th = "\<lparr>th_dev = d2, th_ctl = c, th_trace = []\<rparr>" and ?lvl = "di_driverLevel d2"
  have q: "th_quit ?th"
    using assms stopDriver_frame(2,4) [OF worker_rest_ok [of E libs c pos], of d]
    by (auto simp: startDriver_def th_quit_def split: if_splits)
  have "run_phases (thread_phases E L ticks ?lvl) ?th \<noteq> None"
    by (rule phases_quit) (fact phase_total phases_frame q)+
  then obtain x th' where r: "run_phases (thread_phases E L ticks ?lvl) ?th = Some (x, th')"
    by auto
  moreover have "di_sent (th_dev th') = di_sent (th_dev ?th)"
    by (rule quit_run_sent) (fact quit_sent phases_frame r q)+
  moreover have "di_bQuit (th_dev th')"
    using rest_frame [where k = 0, simplified, OF r] q
    by (simp add: th_frame_def worker_frame_def th_quit_def)
  ultimately show ?thesis by (auto simp: deviceThread_def)
qed

lemma restart_is_dead_witness:
  "\<exists>d1 d2 x th'. stopDriver (worker_rest env0 (\<lambda>_. lib0) (CControlObject_new guid0 mqtt0)
        (\<lambda>d. (1, 0))) (dev0 1) = (True, d1) \<and> startDriver True d1 = (True, d2) \<and>
     deviceThread env0 lib0 [Iter (rx0 [7])]
       \<lparr>th_dev = d2, th_ctl = CControlObject_new guid0 mqtt0, th_trace = []\<rparr> = Some (x, th') \<and>
     di_sent (th_dev th') = di_sent d2"
proof -
  let ?c = "CControlObject_new guid0 mqtt0 :: (_, _, jv, nat) control"
  let ?J = "worker_rest env0 (\<lambda>_. lib0) ?c (\<lambda>d. (1, 0))"
  obtain d1 where d1: "stopDriver ?J (dev0 1) = (True, d1)"
    using stopDriver_frame(1) [OF worker_rest_ok] by (metis (full_types) prod.collapse)
  obtain d2 where d2: "startDriver True d1 = (True, d2)"
    by (cases "di_bEnable d1") (auto simp: startDriver_def)
  have "di_bEnable (dev0 1)" by (simp add: dev0_def)
  from restart_is_dead [OF this d1 d2] d1 d2 show ?thesis by blast
qed

end
