(* ===== verification/HeartbeatCorrect.thy ===== *)
theory HeartbeatCorrect
  imports Heartbeat
begin

text \<open>
  What the addresses and the periodic events of \<open>Heartbeat\<close> are, byte for byte, and when the stores
  of the code stay inside their buffers.
\<close>

subsection \<open>Addresses\<close>

lemma copy_addrs_some:
  assumes "length la = 16" and "idx + length addrs < 16"
  shows "\<exists>la'. copy_addrs addrs idx la = Some la' \<and> length la' = 16 \<and> (\<forall>j<idx. la' ! j = la ! j)
           \<and> la' ! idx = (case addrs of [] \<Rightarrow> 0 | a # _ \<Rightarrow> a)"
  using assms
proof (induction addrs arbitrary: idx la)
  case (Cons a addrs)
  from Cons.IH [of "la[idx := a]" "Suc idx"] Cons.prems obtain la' where la':
    "copy_addrs addrs (Suc idx) (la[idx := a]) = Some la'" "length la' = 16"
    "\<forall>j<Suc idx. la' ! j = la[idx := a] ! j" by auto
  then show ?case using Cons.prems by (intro exI [of _ la']) auto
qed simp

lemma copy_addrs_none:
  assumes "length la = 16" and "16 \<le> idx + length addrs" and "idx \<le> 16"
  shows "copy_addrs addrs idx la = None"
  using assms
proof (induction addrs arbitrary: idx la)
  case (Cons a addrs)
  then show ?case by (cases "idx < 16") auto
qed simp

definition put_bytes :: "u8 list \<Rightarrow> (u8 \<times> u8) list \<Rightarrow> u8 list" where
  "put_bytes bs ivs = foldl (\<lambda>bs (i, v). bs[unat (i AND 0x0F) := v]) bs ivs"

lemma set_ats_bytes:
  assumes "guid_laws G"
  shows "g_bytes G (set_ats G g ivs) = put_bytes (g_bytes G g) ivs"
  unfolding set_ats_def put_bytes_def
  by (induction ivs arbitrary: g) (auto simp: guid_lawsD(3) [OF assms])

text \<open>The bytes of the address that end up in the GUID.\<close>

definition addr_bytes :: "u64 \<Rightarrow> u8 list" where
  "addr_bytes a =
     [ucast (drop_bit 24 a AND 0xff), ucast (drop_bit 16 a AND 0xff), ucast (drop_bit 8 a AND 0xff),
      ucast (a AND 0xff)]"

lemma length_addr_bytes [simp]: "length (addr_bytes a) = 4"
  by (simp add: addr_bytes_def)

definition first_addr :: "u64 list \<Rightarrow> u64" where
  "first_addr addrs = (case addrs of [] \<Rightarrow> 0 | a # _ \<Rightarrow> a)"

lemma zero_guid: "replicate 16 0 = [0 :: u8, 0, 0, 0, 0, 0, 0, 0, 0, 0, 0, 0, 0, 0, 0, 0]"
  by (simp add: numeral_eq_Suc)

lemma put_bytes_simps:
  "put_bytes bs [] = bs"
  "put_bytes bs ((i, v) # ivs) = put_bytes (bs[unat (i AND 0x0F) := v]) ivs"
  by (simp_all add: put_bytes_def)

lemma put_bytes_low:
  "put_bytes (replicate 16 0)
     [(0, a0), (1, a1), (2, a2), (3, a3), (4, a4), (5, a5), (6, a6), (7, a7)] =
     [a0, a1, a2, a3, a4, a5, a6, a7, 0, 0, 0, 0, 0, 0, 0, 0]"
  unfolding zero_guid put_bytes_simps by simp

lemma put_bytes_high:
  "put_bytes [a0, a1, a2, a3, a4, a5, a6, a7, 0, 0, 0, 0, 0, 0, 0, 0]
     [(8, b0), (9, b1), (10, b2), (11, b3), (12, b4), (13, b5), (14, b6), (15, b7)] =
     [a0, a1, a2, a3, a4, a5, a6, a7, b0, b1, b2, b3, b4, b5, b6, b7]"
  unfolding put_bytes_simps by simp

lemmas put_bytes_16 = put_bytes_low put_bytes_high

lemma getIPAddress_value:
  assumes "guid_laws G" and "length junk = 16"
  shows "host = None \<Longrightarrow> \<exists>g. getIPAddress G host junk guid = Some (False, g) \<and>
           g_bytes G g = replicate 7 0xff @ [0xfd] @ replicate 8 0"
    and "host = Some addrs \<Longrightarrow> length addrs < 16 \<Longrightarrow>
           \<exists>g. getIPAddress G host junk guid = Some (True, g) \<and>
           g_bytes G g = replicate 7 0xff @ [0xfd] @ addr_bytes (first_addr addrs) @ replicate 4 0"
    and "host = Some addrs \<Longrightarrow> 16 \<le> length addrs \<Longrightarrow> getIPAddress G host junk guid = None"
proof -
  assume "host = None"
  then show "\<exists>g. getIPAddress G host junk guid = Some (False, g) \<and>
           g_bytes G g = replicate 7 0xff @ [0xfd] @ replicate 8 0"
    by (simp add: getIPAddress_def Let_def set_ats_bytes [OF assms(1)] guid_lawsD [OF assms(1)]
        put_bytes_16) (simp add: numeral_eq_Suc)
next
  assume h: "host = Some addrs" and n: "length addrs < 16"
  with assms(2) copy_addrs_some [of junk 0 addrs] obtain la where
    "copy_addrs addrs 0 junk = Some la" "la ! 0 = first_addr addrs"
    by (auto simp: first_addr_def)
  with h show "\<exists>g. getIPAddress G host junk guid = Some (True, g) \<and>
           g_bytes G g = replicate 7 0xff @ [0xfd] @ addr_bytes (first_addr addrs) @ replicate 4 0"
    by (simp add: getIPAddress_def Let_def set_ats_bytes [OF assms(1)] guid_lawsD [OF assms(1)]
        put_bytes_16 addr_bytes_def) (simp add: numeral_eq_Suc)
next
  assume "host = Some addrs" and "16 \<le> length addrs"
  with assms(2) copy_addrs_none [of junk 0 addrs]
  show "getIPAddress G host junk guid = None" by (simp add: getIPAddress_def Let_def)
qed

text \<open>The \<open>unsigned long\<close> a little-endian machine reads from the bytes of an address in memory.\<close>

definition le_value :: "u8 list \<Rightarrow> u64" where
  "le_value bs = foldr (\<lambda>b acc. push_bit 8 acc OR ucast b) bs 0"

lemma addr_bytes_le:
  "addr_bytes (le_value (b0 # b1 # b2 # b3 # rest)) = [b3, b2, b1, b0]"
proof -
  have m: "(0xff :: u64) = mask 8" by (simp add: mask_eq_exp_minus_1)
  have high: "\<not> bit b (k + n)" if "8 \<le> k" for b :: u8 and k n
    using that bit_imp_le_length [of b "k + n"] by auto
  show ?thesis
    unfolding addr_bytes_def le_value_def m
    by (auto simp: bit_simps high intro!: bit_word_eqI)
qed

text \<open>C38: The address GUID. With fewer than 16 local addresses \<open>getIPAddress\<close> gives the eight bytes
  \<open>FF FF FF FF FF FF FF FD\<close>, the first address and four zeroes; the four octets of the address
  (network order in memory) come out in reverse on a little-endian machine. With 16 or more the
  loop stores behind the end of its array. Without a host entry it fails, leaving the prefix.\<close>

theorem getIPAddress_spec:
  assumes "guid_laws G" and "length junk = 16"
  shows "(\<exists>g. getIPAddress G None junk guid = Some (False, g) \<and>
            g_bytes G g = replicate 7 0xff @ [0xfd] @ replicate 8 0) \<and>
         (length addrs < 15 \<longrightarrow> (\<exists>g. getIPAddress G
              (Some (le_value (b0 # b1 # b2 # b3 # rest) # addrs)) junk guid = Some (True, g) \<and>
            g_bytes G g = replicate 7 0xff @ [0xfd] @ [b3, b2, b1, b0] @ replicate 4 0)) \<and>
         (15 \<le> length addrs \<longrightarrow> getIPAddress G (Some (a # addrs)) junk guid = None)"
  using getIPAddress_value(1) [OF assms refl]
    getIPAddress_value(2) [OF assms refl, where addrs = "le_value (b0 # b1 # b2 # b3 # rest) # addrs"]
    getIPAddress_value(3) [OF assms refl, where addrs = "a # addrs"]
  by (simp add: first_addr_def addr_bytes_le)

theorem getIPAddress_spec_witness:
  "\<exists>g. getIPAddress guid0 (Some [le_value [192, 168, 1, 7]]) (replicate 16 0) (replicate 16 0)
         = Some (True, g) \<and>
       g_bytes guid0 g = replicate 7 0xff @ [0xfd] @ [7, 1, 168, 192] @ replicate 4 0"
  using getIPAddress_spec [OF guid0_laws, of "replicate 16 0" "replicate 16 0" "[]" 192 168 1 7 "[]" 0]
  by simp

lemma getMacAddress_value:
  assumes "guid_laws G" and "length mac = 6"
  shows "\<exists>g. getMacAddress G True (Some mac) guid = (True, g) \<and>
           g_bytes G g = replicate 7 0xff @ [0xfe] @ mac @ [0, 0]"
proof -
  obtain m0 m1 m2 m3 m4 m5 where "mac = [m0, m1, m2, m3, m4, m5]"
    using assms(2) by (auto simp: numeral_eq_Suc length_Suc_conv)
  moreover have "put_bytes (replicate 16 0)
     [(0, a0), (1, a1), (2, a2), (3, a3), (4, a4), (5, a5), (6, a6), (7, a7),
      (8, b0), (9, b1), (10, b2), (11, b3), (12, b4), (13, b5), (14, b6), (15, b7)] =
     [a0, a1, a2, a3, a4, a5, a6, a7, b0, b1, b2, b3, b4, b5, b6, b7]"
    for a0 a1 a2 a3 a4 a5 a6 a7 b0 b1 b2 b3 b4 b5 b6 b7
    unfolding zero_guid put_bytes_simps by simp
  ultimately show ?thesis
    by (simp add: getMacAddress_def Let_def set_ats_bytes [OF assms(1)] guid_lawsD [OF assms(1)])
       (simp add: numeral_eq_Suc)
qed

lemma init_guid_value:
  assumes "guid_laws G" and "length junk = 16"
    and "\<forall>mac. hw = Some mac \<longrightarrow> length mac = 6" and "\<forall>as. host = Some as \<longrightarrow> length as < 16"
  shows "\<exists>g'. init_guid G sock hw host junk g = Some g' \<and> \<not> g_is_null G g' \<and>
           g_bytes G g' =
             (if \<not> g_is_null G g then g_bytes G g
              else case (if sock then hw else None) of
                Some mac \<Rightarrow> replicate 7 0xff @ [0xfe] @ mac @ [0, 0]
              | None \<Rightarrow> (case host of
                  Some as \<Rightarrow> replicate 7 0xff @ [0xfd] @ addr_bytes (first_addr as) @ replicate 4 0
                | None \<Rightarrow> replicate 7 0xff @ [0xfd] @ replicate 8 0))"
proof (cases "g_is_null G g")
  case True
  have null: "g_is_null G h \<longleftrightarrow> g_bytes G h = replicate 16 0" for h
    by (rule guid_lawsD(5) [OF assms(1)])
  have prefix: "\<not> g_is_null G h" if "g_bytes G h = replicate 7 0xff @ xs" for h xs
  proof
    assume "g_is_null G h"
    with that have "replicate 7 0xff @ xs = (replicate 16 0 :: u8 list)" by (simp add: null)
    then have "hd (replicate 7 0xff @ xs) = hd (replicate 16 (0 :: u8))" by simp
    then show False by simp
  qed
  show ?thesis
  proof (cases "if sock then hw else None")
    case None
    then have "getMacAddress G sock hw g = (False, g_clear G g)"
      by (auto simp: getMacAddress_def split: if_splits)
    moreover obtain ok h where "getIPAddress G host junk (g_clear G g) = Some (ok, h)"
      "g_bytes G h = (case host of
          Some as \<Rightarrow> replicate 7 0xff @ [0xfd] @ addr_bytes (first_addr as) @ replicate 4 0
        | None \<Rightarrow> replicate 7 0xff @ [0xfd] @ replicate 8 0)"
      using getIPAddress_value(1,2) [OF assms(1,2)] assms(4) by (cases host) force+
    ultimately show ?thesis using True None prefix [of h]
      by (cases host) (auto simp: init_guid_def)
  next
    case (Some mac)
    with assms(3) have "length mac = 6" "sock" "hw = Some mac" by (auto split: if_splits)
    with getMacAddress_value [OF assms(1), of mac g] obtain h where
      "getMacAddress G sock hw g = (True, h)"
      "g_bytes G h = replicate 7 0xff @ [0xfe] @ mac @ [0, 0]" by auto
    with True Some prefix [of h] show ?thesis by (auto simp: init_guid_def)
  qed
qed (simp add: init_guid_def)

text \<open>The GUID the daemon runs with: a configured one is kept; otherwise it is made of the
  hardware address of \<open>eth0\<close> (prefix ending in \<open>FE\<close>, two zero bytes behind), and of the first local IP
  address (prefix ending in \<open>FD\<close>) where there is no such hardware address; where neither is known
  it is the bare prefix. It is never the null GUID.\<close>

lemma init_guid_spec:
  assumes "guid_laws G" and "length junk = 16"
    and "\<forall>mac. hw = Some mac \<longrightarrow> length mac = 6" and "\<forall>as. host = Some as \<longrightarrow> length as < 16"
  shows "\<exists>g'. init_guid G sock hw host junk g = Some g' \<and> \<not> g_is_null G g' \<and>
           g_bytes G g' =
             (if \<not> g_is_null G g then g_bytes G g
              else case (if sock then hw else None) of
                Some mac \<Rightarrow> replicate 7 0xff @ [0xfe] @ mac @ [0, 0]
              | None \<Rightarrow> (case host of
                  Some as \<Rightarrow> replicate 7 0xff @ [0xfd] @ addr_bytes (first_addr as) @ replicate 4 0
                | None \<Rightarrow> replicate 7 0xff @ [0xfd] @ replicate 8 0))"
  by (rule init_guid_value [OF assms])

lemma init_guid_spec_witness:
  "\<exists>g'. init_guid guid0 True (Some [1, 2, 3, 4, 5, 6]) None (replicate 16 0) (replicate 16 0) = Some g'
     \<and> g_bytes guid0 g' = replicate 7 0xff @ [0xfe] @ [1, 2, 3, 4, 5, 6] @ [0, 0]"
  using init_guid_spec [OF guid0_laws, of "replicate 16 0" "Some [1, 2, 3, 4, 5, 6]" None True
      "replicate 16 0"] by (auto simp: lib_simps)

subsection \<open>Stores into the event\<close>

lemma put_Some:
  assumes "off + n \<le> length (ex_data ex)" and "length bs = n"
  obtains d where "put off bs ex = Some (ex\<lparr>ex_data := d\<rparr>)" and "length d = length (ex_data ex)"
    and "take n (drop off d) = bs"
    and "\<And>a m. a + m \<le> off \<or> off + n \<le> a \<Longrightarrow> take m (drop a d) = take m (drop a (ex_data ex))"
proof -
  obtain d where d: "store_at (ex_data ex) off bs = Some d"
    using assms by (simp add: store_at_Some)
  have other: "take m (drop a d) = take m (drop a (ex_data ex))" if "a + m \<le> off \<or> off + n \<le> a" for a m
  proof (rule nth_equalityI)
    show "length (take m (drop a d)) = length (take m (drop a (ex_data ex)))"
      by (simp add: store_at_length [OF d])
    fix i assume "i < length (take m (drop a d))"
    with that assms(2) store_at_length [OF d]
    show "take m (drop a d) ! i = take m (drop a (ex_data ex)) ! i"
      by (auto simp: store_at_nth [OF d])
  qed
  show thesis
    by (rule that [of d])
       (use d other assms(2) store_at_length [OF d] store_at_slice [OF d] in \<open>auto simp: put_def\<close>)
qed

lemma length_name_bytes: "length (name_bytes s) \<le> 64"
  by (simp add: name_bytes_def)

text \<open>The bytes of an event that are published.\<close>

definition published :: "vscp_event_ex \<Rightarrow> u8 list" where
  "published ex = take (unat (ex_sizeData ex)) (ex_data ex)"

text \<open>What every event of the daemon carries: the GUID, the class and type, object id and header zero, the
  time stamp that was read, and the date that was current then.\<close>

definition stamped ::
    "u8 list \<Rightarrow> u32 \<Rightarrow> (vscp_event_ex \<Rightarrow> vscp_event_ex) \<Rightarrow> u16 \<Rightarrow> u16 \<Rightarrow> vscp_event_ex \<Rightarrow> bool" where
  "stamped guid stamp set_now cls typ ex \<longleftrightarrow>
     ex_GUID ex = guid \<and> ex_vscp_class ex = cls \<and> ex_vscp_type ex = typ \<and> ex_obid ex = 0
     \<and> ex_head ex = 0 \<and> ex_timestamp ex = stamp \<and> (\<forall>x. ex_date ex = ex_date (set_now x))"

definition pad64 :: "u8 list \<Rightarrow> u8 list" where
  "pad64 bs = bs @ replicate (64 - length bs) 0"

lemma stamped_header:
  assumes "sets_now f"
  shows "stamped (g_bytes G g) t f cls typ ((ex_header G g t f cls typ ex)\<lparr>ex_sizeData := n, ex_data := d\<rparr>)"
    and "ex_data (ex_header G g t f cls typ ex) = ex_data ex"
proof -
  show "ex_data (ex_header G g t f cls typ ex) = ex_data ex"
    by (simp add: ex_header_def sets_nowD [OF assms])
  have d: "ex_date ((ex_header G g t f cls typ ex)\<lparr>ex_sizeData := n, ex_data := d\<rparr>) =
      ex_date (f (ex\<lparr>ex_obid := 0, ex_head := 0, ex_timestamp := t\<rparr>))"
    by (simp add: ex_header_def ex_date_def)
  have "ex_date ((ex_header G g t f cls typ ex)\<lparr>ex_sizeData := n, ex_data := d\<rparr>) = ex_date (f x)" for x
    unfolding d by (rule sets_nowD(9) [OF assms])
  moreover have "ex_obid (ex_header G g t f cls typ ex) = 0" "ex_head (ex_header G g t f cls typ ex) = 0"
    "ex_timestamp (ex_header G g t f cls typ ex) = t"
    by (simp_all add: ex_header_def sets_nowD [OF assms])
  ultimately show "stamped (g_bytes G g) t f cls typ
      ((ex_header G g t f cls typ ex)\<lparr>ex_sizeData := n, ex_data := d\<rparr>)"
    by (simp add: stamped_def) (simp add: ex_header_def)
qed

lemma class1_value:
  assumes "guid_laws G" and "caps_layout K" and "length (ex_data ex) = vk_max_data K" and "sets_now f"
  shows "\<exists>e. class1_heartbeat K G g t f ex = Some e \<and> length (ex_data e) = vk_max_data K \<and>
           stamped (g_bytes G g) t f (vk_CLASS1_INFORMATION K) (vk_INFORMATION_NODE_HEARTBEAT K) e \<and>
           published e = [0, 0, 0]"
proof -
  let ?x = "(ex_header G g t f (vk_CLASS1_INFORMATION K) (vk_INFORMATION_NODE_HEARTBEAT K) ex)
              \<lparr>ex_sizeData := 3\<rparr>"
  note h = stamped_header [OF assms(4)]
  obtain d1 where d1: "put (vk_OFFSET_GUID K) (g_bytes G g) ?x = Some (?x\<lparr>ex_data := d1\<rparr>)"
    "length d1 = length (ex_data ex)"
    by (rule put_Some [of "vk_OFFSET_GUID K" 16 ?x "g_bytes G g"])
       (use assms in \<open>auto simp: h caps_layout_def guid_lawsD(1)\<close>)
  obtain d2 where "put 0 [0, 0, 0] (?x\<lparr>ex_data := d1\<rparr>) = Some (?x\<lparr>ex_data := d2\<rparr>)"
    "length d2 = length (ex_data ex)" "take 3 d2 = [0, 0, 0]"
    by (rule put_Some [of 0 3 "?x\<lparr>ex_data := d1\<rparr>" "[0, 0, 0]"])
       (use assms d1 in \<open>auto simp: caps_layout_def\<close>)
  with d1 assms(3) show ?thesis
    by (auto simp: class1_heartbeat_def Let_def published_def h)
qed

lemma class2_value:
  assumes "guid_laws G" and "caps_layout K" and "length (ex_data ex) = vk_max_data K" and "sets_now f"
  shows "\<exists>e. class2_heartbeat K G g name t f ex = Some e \<and> length (ex_data e) = vk_max_data K \<and>
           stamped (g_bytes G g) t f (vk_CLASS2_INFORMATION K) (vk_INFORMATION_HEART_BEAT K) e \<and>
           published e = pad64 (name_bytes name)"
proof -
  let ?x = "(ex_header G g t f (vk_CLASS2_INFORMATION K) (vk_INFORMATION_HEART_BEAT K) ex)
              \<lparr>ex_sizeData := 64\<rparr>"
  let ?n = "name_bytes name"
  note h = stamped_header [OF assms(4)]
  have n: "length ?n \<le> 64" "104 \<le> vk_max_data K"
    using length_name_bytes assms(2) by (auto simp: caps_layout_def)
  obtain d1 where d1: "put (vk_OFFSET_GUID K) (g_bytes G g) ?x = Some (?x\<lparr>ex_data := d1\<rparr>)"
    "length d1 = length (ex_data ex)"
    by (rule put_Some [of "vk_OFFSET_GUID K" 16 ?x "g_bytes G g"])
       (use assms in \<open>auto simp: h caps_layout_def guid_lawsD(1)\<close>)
  let ?z = "?x\<lparr>ex_data := replicate (vk_max_data K) 0\<rparr>"
  have z: "zero_data (?x\<lparr>ex_data := d1\<rparr>) = ?z"
    using d1 assms(3) by (simp add: zero_data_def)
  have "put 0 ?n ?z = Some (?x\<lparr>ex_data := ?n @ replicate (vk_max_data K - length ?n) 0\<rparr>)"
    using n by (simp add: put_def store_at_Some)
  then have "class2_heartbeat K G g name t f ex
      = Some (?x\<lparr>ex_data := ?n @ replicate (vk_max_data K - length ?n) 0\<rparr>)"
    using d1 z by (simp add: class2_heartbeat_def Let_def)
  then show ?thesis using n
    by (auto simp: h published_def pad64_def min_def)
qed

lemma segctrl_value:
  assumes "guid_laws G" and "caps_layout K" and "length (ex_data ex) = vk_max_data K" and "sets_now f"
  shows "\<exists>e. segctrl_heartbeat K G g t f tnow ex = Some e \<and> length (ex_data e) = vk_max_data K \<and>
           stamped (g_bytes G g) t f (vk_CLASS1_PROTOCOL K) (vk_PROTOCOL_SEGCTRL_HEARTBEAT K) e \<and>
           published e = 0 # be_bytes (ucast tnow)"
proof -
  let ?x = "(ex_header G g t f (vk_CLASS1_PROTOCOL K) (vk_PROTOCOL_SEGCTRL_HEARTBEAT K) ex)
              \<lparr>ex_sizeData := 5\<rparr>"
  let ?b = "0 # be_bytes (ucast tnow)"
  note h = stamped_header [OF assms(4)]
  obtain d1 where d1: "put (vk_OFFSET_GUID K) (g_bytes G g) ?x = Some (?x\<lparr>ex_data := d1\<rparr>)"
    "length d1 = length (ex_data ex)"
    by (rule put_Some [of "vk_OFFSET_GUID K" 16 ?x "g_bytes G g"])
       (use assms in \<open>auto simp: h caps_layout_def guid_lawsD(1)\<close>)
  obtain d2 where "put 0 ?b (?x\<lparr>ex_data := d1\<rparr>) = Some (?x\<lparr>ex_data := d2\<rparr>)"
    "length d2 = length (ex_data ex)" "take 5 d2 = ?b"
    by (rule put_Some [of 0 5 "?x\<lparr>ex_data := d1\<rparr>" ?b])
       (use assms d1 in \<open>auto simp: caps_layout_def\<close>)
  with d1 assms(3) show ?thesis
    by (auto simp: segctrl_heartbeat_def Let_def published_def h)
qed

text \<open>The address field of the capability event.\<close>

definition ip_field :: "u64 list option \<Rightarrow> u8 list" where
  "ip_field host = (case host of None \<Rightarrow> replicate 4 0 | Some addrs \<Rightarrow> addr_bytes (first_addr addrs))"

lemma get_ats:
  assumes "guid_laws G" and "g_bytes G g = replicate 7 0xff @ [0xfd] @ addr_bytes a @ replicate 4 0"
  shows "[g_get_at G g 8, g_get_at G g 9, g_get_at G g 10, g_get_at G g 11] = addr_bytes a"
  unfolding guid_lawsD(4) [OF assms(1)] assms(2) by (simp add: addr_bytes_def nth_append)

text \<open>The capability event as it is published: zeroes with the GUID, the address and the name at their
  documented places.\<close>

definition caps_bytes :: "vscp_codes \<Rightarrow> u8 list \<Rightarrow> u8 list \<Rightarrow> u8 list \<Rightarrow> u8 list" where
  "caps_bytes K guid addr name =
     replicate (vk_OFFSET_GUID K) 0 @ guid @
     replicate (vk_OFFSET_IP_ADDR K - vk_OFFSET_GUID K - 16) 0 @ addr @
     replicate (vk_OFFSET_SRV_NAME K - vk_OFFSET_IP_ADDR K - 4) 0 @ name @
     replicate (104 - vk_OFFSET_SRV_NAME K - length name) 0"

text \<open>A store behind everything stored so far, in a buffer that is zero from there on.\<close>

lemma put_behind:
  assumes "ex_data ex = pre @ replicate (m - length pre) 0" and "length pre \<le> off" and "off + length bs \<le> m"
  shows "put off bs ex = Some (ex\<lparr>ex_data :=
           (pre @ replicate (off - length pre) 0 @ bs) @ replicate (m - (off + length bs)) 0\<rparr>)"
proof -
  have "min (off - length pre) (m - length pre) = off - length pre" using assms(2,3) by simp
  moreover have "m - length pre - (off + length bs - length pre) = m - (off + length bs)"
    using assms(2) by simp
  ultimately show ?thesis
    using assms by (simp add: put_def store_at_Some)
qed

lemma take_zeroes:
  "length pre \<le> k \<Longrightarrow> k \<le> m \<Longrightarrow>
     take k (pre @ replicate (m - length pre) 0) = pre @ replicate (k - length pre) 0"
  by (simp add: min_def)

lemma ip_known:
  assumes "guid_laws G" and "length junk = 16" and "\<forall>as. host = Some as \<longrightarrow> length as < 16"
  shows "\<exists>ok guid. getIPAddress G host junk (g_default G) = Some (ok, guid) \<and>
           (ok \<longrightarrow> [g_get_at G guid 8, g_get_at G guid 9, g_get_at G guid 10, g_get_at G guid 11] = ip_field host) \<and>
           (\<not> ok \<longrightarrow> ip_field host = replicate 4 0)"
proof (cases host)
  case None
  with getIPAddress_value(1) [OF assms(1,2), of host "g_default G"] obtain g where
    "getIPAddress G host junk (g_default G) = Some (False, g)" by blast
  with None show ?thesis by (intro exI [of _ False] exI [of _ g]) (auto simp: ip_field_def)
next
  case (Some addrs)
  with getIPAddress_value(2) [OF assms(1,2), of host addrs "g_default G"] assms(3)
  obtain g where g: "getIPAddress G host junk (g_default G) = Some (True, g)"
    "g_bytes G g = replicate 7 0xff @ [0xfd] @ addr_bytes (first_addr addrs) @ replicate 4 0"
    by auto
  with Some get_ats [OF assms(1) g(2)] show ?thesis
    by (intro exI [of _ True] exI [of _ g]) (auto simp: ip_field_def)
qed

lemma length_ip_field [simp]: "length (ip_field host) = 4"
  by (auto simp: ip_field_def addr_bytes_def split: option.split)

lemma caps_value:
  assumes "guid_laws G" and "caps_layout K" and "length (ex_data ex) = vk_max_data K" and "sets_now f"
    and "length junk = 16" and "\<forall>as. host = Some as \<longrightarrow> length as < 16"
  shows "\<exists>e. server_caps K G g name t f host junk ex = Some e \<and>
           stamped (g_bytes G g) t f (vk_CLASS2_PROTOCOL K) (vk_PROTOCOL_HIGH_END_SERVER_CAPS K) e \<and>
           published e = caps_bytes K (g_bytes G g) (ip_field host) (name_bytes name)"
proof -
  let ?x = "ex_header G g t f (vk_CLASS2_PROTOCOL K) (vk_PROTOCOL_HIGH_END_SERVER_CAPS K) ex"
  let ?n = "name_bytes name" and ?g = "g_bytes G g" and ?m = "vk_max_data K"
  let ?pre1 = "replicate (vk_OFFSET_GUID K) 0 @ ?g"
  let ?pre2 = "?pre1 @ replicate (vk_OFFSET_IP_ADDR K - length ?pre1) 0 @ ip_field host"
  let ?pre3 = "?pre2 @ replicate (vk_OFFSET_SRV_NAME K - length ?pre2) 0 @ ?n"
  let ?buf = "\<lambda>pre. ?x\<lparr>ex_data := pre @ replicate (?m - length pre) 0\<rparr>"
  note L = assms(2) [unfolded caps_layout_def] and h = stamped_header [OF assms(4)]
  note len = guid_lawsD(1) [OF assms(1)] length_name_bytes [of name]
  define b0 b1 b2 b3 where "b0 = ?buf []" and "b1 = ?buf ?pre1" and "b2 = ?buf ?pre2" and "b3 = ?buf ?pre3"
  note b = b0_def b1_def b2_def b3_def
  have z: "zero_data ?x = b0" using assms(3) by (simp add: b zero_data_def h)
  have d1: "put (vk_OFFSET_GUID K) ?g b0 = Some b1"
    unfolding b by (subst put_behind [of _ "[]" ?m]) (use L len in auto)
  obtain ok guid where ip: "getIPAddress G host junk (g_default G) = Some (ok, guid)"
    "ok \<longrightarrow> [g_get_at G guid 8, g_get_at G guid 9, g_get_at G guid 10, g_get_at G guid 11] = ip_field host"
    "\<not> ok \<longrightarrow> ip_field host = replicate 4 0"
    using ip_known [OF assms(1,5,6)] by blast
  have store: "put (vk_OFFSET_IP_ADDR K) (ip_field host) b1 = Some b2"
    unfolding b by (subst put_behind [of _ ?pre1 ?m]) (use L len in auto)
  have none: "b1 = b2" if "\<not> ok"
    unfolding b using ip(3) that L len by (simp flip: replicate_add)
  have d2: "(if ok then put (vk_OFFSET_IP_ADDR K)
       [g_get_at G guid 8, g_get_at G guid 9, g_get_at G guid 10, g_get_at G guid 11] b1
     else Some b1) = Some b2"
    using ip(2) store none by (cases ok) simp_all
  have d3: "put (vk_OFFSET_SRV_NAME K) ?n b2 = Some b3"
    unfolding b by (subst put_behind [of _ ?pre2 ?m]) (use L len in auto)
  let ?e = "b3\<lparr>ex_sizeData := 104, ex_GUID := ?g\<rparr>"
  have e: "server_caps K G g name t f host junk ex = Some ?e"
    by (simp add: server_caps_def Let_def z d1 ip(1) d2 d3 getVscpCapabilities_def)
  have "stamped ?g t f (vk_CLASS2_PROTOCOL K) (vk_PROTOCOL_HIGH_END_SERVER_CAPS K) ?e"
    using h(1) [of G g t "vk_CLASS2_PROTOCOL K" "vk_PROTOCOL_HIGH_END_SERVER_CAPS K"
        "?pre3 @ replicate (?m - length ?pre3) 0" 104 ex]
    by (simp add: stamped_def ex_date_def b)
  moreover have "published ?e = caps_bytes K ?g (ip_field host) ?n"
  proof -
    have l: "length ?pre3 = vk_OFFSET_SRV_NAME K + length ?n" using L len by simp
    have "published ?e = take 104 (?pre3 @ replicate (?m - length ?pre3) 0)" by (simp add: published_def b3_def)
    also have "\<dots> = ?pre3 @ replicate (104 - length ?pre3) 0"
      by (rule take_zeroes) (use L len l in simp_all)
    also have "\<dots> = caps_bytes K ?g (ip_field host) ?n"
      unfolding l caps_bytes_def using L len by simp
    finally show ?thesis .
  qed
  ultimately show ?thesis using e by blast
qed

lemma sent_event:
  "snd (CControlObject_sendEvent M c (Some e)) =
     c\<lparr>co_mqttClient := snd (mc_send_ex M (co_mqttClient c) e), co_sent := co_sent c @ [e]\<rparr>"
  by (simp add: CControlObject_sendEvent_def Let_def split: prod.splits)

text \<open>One heartbeat, as the shared fact of what follows.\<close>

lemma periodicEvents_heartbeat:
  assumes "guid_laws G" and "caps_layout K" and "length (ex_data ex) = vk_max_data K"
    and "length (ch_junk H) = 16" and "\<forall>as. ch_host H = Some as \<longrightarrow> length as < 16"
    and "\<forall>i. sets_now (ch_set_now H i)" and "ch_stamps H = (t1, t2, t3, t4)"
  shows "\<exists>e1 e2 e3 e4 c'. periodicEvents K G M H ex c = Some (True, c') \<and>
     co_sent c' = co_sent c @ [e1, e2, e3, e4] \<and>
     (let g = g_bytes G (co_guid c); n = name_bytes (co_strServerName c); now = ch_set_now H
      in stamped g t1 (now 0) (vk_CLASS1_INFORMATION K) (vk_INFORMATION_NODE_HEARTBEAT K) e1 \<and>
         stamped g t2 (now 1) (vk_CLASS2_INFORMATION K) (vk_INFORMATION_HEART_BEAT K) e2 \<and>
         stamped g t3 (now 2) (vk_CLASS1_PROTOCOL K) (vk_PROTOCOL_SEGCTRL_HEARTBEAT K) e3 \<and>
         stamped g t4 (now 3) (vk_CLASS2_PROTOCOL K) (vk_PROTOCOL_HIGH_END_SERVER_CAPS K) e4 \<and>
         published e1 = [0, 0, 0] \<and> published e2 = pad64 n \<and>
         published e3 = 0 # be_bytes (ucast (ch_time H)) \<and>
         published e4 = caps_bytes K g (ip_field (ch_host H)) n)"
proof -
  obtain e1 where e1: "class1_heartbeat K G (co_guid c) t1 (ch_set_now H 0) ex = Some e1"
    "length (ex_data e1) = vk_max_data K" "published e1 = [0, 0, 0]"
    "stamped (g_bytes G (co_guid c)) t1 (ch_set_now H 0) (vk_CLASS1_INFORMATION K)
       (vk_INFORMATION_NODE_HEARTBEAT K) e1"
    using class1_value [OF assms(1-3)] assms(6) by blast
  obtain e2 where e2: "class2_heartbeat K G (co_guid c) (co_strServerName c) t2 (ch_set_now H 1) e1 = Some e2"
    "length (ex_data e2) = vk_max_data K" "published e2 = pad64 (name_bytes (co_strServerName c))"
    "stamped (g_bytes G (co_guid c)) t2 (ch_set_now H 1) (vk_CLASS2_INFORMATION K)
       (vk_INFORMATION_HEART_BEAT K) e2"
    using class2_value [OF assms(1,2) e1(2)] assms(6) by blast
  obtain e3 where e3: "segctrl_heartbeat K G (co_guid c) t3 (ch_set_now H 2) (ch_time H) e2 = Some e3"
    "length (ex_data e3) = vk_max_data K" "published e3 = 0 # be_bytes (ucast (ch_time H))"
    "stamped (g_bytes G (co_guid c)) t3 (ch_set_now H 2) (vk_CLASS1_PROTOCOL K)
       (vk_PROTOCOL_SEGCTRL_HEARTBEAT K) e3"
    using segctrl_value [OF assms(1,2) e2(2)] assms(6) by blast
  obtain e4 where e4: "server_caps K G (co_guid c) (co_strServerName c) t4 (ch_set_now H 3) (ch_host H)
      (ch_junk H) e3 = Some e4"
    "stamped (g_bytes G (co_guid c)) t4 (ch_set_now H 3) (vk_CLASS2_PROTOCOL K)
       (vk_PROTOCOL_HIGH_END_SERVER_CAPS K) e4"
    "published e4 = caps_bytes K (g_bytes G (co_guid c)) (ip_field (ch_host H)) (name_bytes (co_strServerName c))"
    using caps_value [OF assms(1,2) e3(2) _ assms(4,5)] assms(6) by blast
  have "\<exists>c'. periodicEvents K G M H ex c = Some (True, c') \<and> co_sent c' = co_sent c @ [e1, e2, e3, e4]"
    by (simp add: periodicEvents_def assms(7) e1(1) e2(1) e3(1) e4(1) sent_event Let_def
        del: One_nat_def)
  with e1 e2 e3 e4 show ?thesis unfolding Let_def by blast
qed

text \<open>C29: One heartbeat, byte by byte. With the documented layout, and fewer than 16 local addresses,
  every store of \<open>periodicEvents\<close> stays inside the event, and exactly four events go out, in this
  order, each with the daemon's GUID, object id and header zero, the time stamp read for it and the
  date \<open>vscp_setEventExToNow\<close> has set: the class 1 node heartbeat with three zero bytes; the class 2
  heartbeat with the server name, cut or zero-padded to 64 bytes; the segment controller heartbeat
  with a zero byte and the 32-bit time, most significant byte first; and the capabilities, 104 bytes
  that are zero but for the GUID, the IP address (if one is known) and the server name at their
  documented places: the capability bytes themselves are all zero. The call reports success whatever
  the client answers. (A comment calls the first byte of the segment controller heartbeat the CRC of
  the daemon's GUID; it is always zero.)\<close>

theorem periodicEvents_sends:
  assumes "guid_laws G" and "caps_layout K" and "length (ex_data ex) = vk_max_data K"
    and "length (ch_junk H) = 16" and "\<forall>as. ch_host H = Some as \<longrightarrow> length as < 16"
    and "\<forall>i. sets_now (ch_set_now H i)" and "ch_stamps H = (t1, t2, t3, t4)"
  shows "\<exists>e1 e2 e3 e4 c'. periodicEvents K G M H ex c = Some (True, c') \<and>
     co_sent c' = co_sent c @ [e1, e2, e3, e4] \<and>
     (let g = g_bytes G (co_guid c); n = name_bytes (co_strServerName c); now = ch_set_now H
      in stamped g t1 (now 0) (vk_CLASS1_INFORMATION K) (vk_INFORMATION_NODE_HEARTBEAT K) e1 \<and>
         stamped g t2 (now 1) (vk_CLASS2_INFORMATION K) (vk_INFORMATION_HEART_BEAT K) e2 \<and>
         stamped g t3 (now 2) (vk_CLASS1_PROTOCOL K) (vk_PROTOCOL_SEGCTRL_HEARTBEAT K) e3 \<and>
         stamped g t4 (now 3) (vk_CLASS2_PROTOCOL K) (vk_PROTOCOL_HIGH_END_SERVER_CAPS K) e4 \<and>
         published e1 = [0, 0, 0] \<and> published e2 = pad64 n \<and>
         (\<exists>time. published e3 = 0 # time \<and> length time = 4 \<and> be_value time = ucast (ch_time H)) \<and>
         published e4 = caps_bytes K g (ip_field (ch_host H)) n)"
proof -
  have "length (be_bytes (ucast (ch_time H))) = 4" by (simp add: be_bytes_def)
  with periodicEvents_heartbeat [OF assms, of M c] show ?thesis
    unfolding Let_def by (metis be_value_be_bytes)
qed

text \<open>The layout of the VSCP specification: 8 bytes of capabilities, then the GUID, the address at 24
  and the server name at 40.\<close>

definition codes0 :: vscp_codes where
  "codes0 = \<lparr>vk_CLASS1_INFORMATION = 20, vk_INFORMATION_NODE_HEARTBEAT = 9,
     vk_CLASS2_INFORMATION = 1040, vk_INFORMATION_HEART_BEAT = 2, vk_CLASS1_PROTOCOL = 0,
     vk_PROTOCOL_SEGCTRL_HEARTBEAT = 1, vk_CLASS2_PROTOCOL = 1024,
     vk_PROTOCOL_HIGH_END_SERVER_CAPS = 20, vk_OFFSET_GUID = 8, vk_OFFSET_IP_ADDR = 24,
     vk_OFFSET_SRV_NAME = 40, vk_max_data = 512\<rparr>"

definition ex0 :: vscp_event_ex where
  "ex0 = \<lparr>ex_obid = 9, ex_head = 9, ex_year = 9, ex_month = 9, ex_day = 9, ex_hour = 9, ex_minute = 9,
     ex_second = 9, ex_timestamp = 9, ex_vscp_class = 9, ex_vscp_type = 9,
     ex_GUID = [], ex_sizeData = 9, ex_data = replicate 512 9\<rparr>"

definition host0 :: clock_host where
  "host0 = \<lparr>ch_stamps = (1, 2, 3, 4),
     ch_set_now = (\<lambda>i ex. ex\<lparr>ex_year := 2026, ex_month := 7, ex_day := 1, ex_hour := 12, ex_minute := 0,
        ex_second := of_nat i\<rparr>), ch_time = 0x6789ABCD, ch_host = Some [0x0100007F],
     ch_junk = replicate 16 0\<rparr>"

lemma host0_now: "\<forall>i. sets_now (ch_set_now host0 i)"
  unfolding sets_now_def host0_def clock_host.simps by blast

theorem periodicEvents_sends_witness:
  "\<exists>e1 e2 e3 e4 c'. periodicEvents codes0 guid0 mqtt0 host0 ex0
       (CControlObject_new guid0 mqtt0 :: (_, _, jv, nat) control) = Some (True, c') \<and>
     co_sent c' = [e1, e2, e3, e4] \<and> published e1 = [0, 0, 0] \<and> ex_timestamp e2 = 2 \<and>
     hd (published e3) = 0 \<and> be_value (tl (published e3)) = 0x6789ABCD \<and> length (published e4) = 104"
proof -
  let ?c = "CControlObject_new guid0 mqtt0 :: (_, _, jv, nat) control"
  have "co_sent ?c = []" by (simp add: CControlObject_new_def Let_def)
  moreover have "length (caps_bytes codes0 (g_bytes guid0 g) (ip_field h) (name_bytes s)) = 104" for g h s
    using length_name_bytes [of s] by (simp add: caps_bytes_def codes0_def guid_lawsD(1) [OF guid0_laws])
  ultimately show ?thesis
    using periodicEvents_sends [OF guid0_laws, of codes0 ex0 host0 1 2 3 4 mqtt0 ?c] host0_now
    unfolding Let_def by (force simp: caps_layout_def codes0_def ex0_def host0_def stamped_def)
qed

end
