(* ===== verification/Startup.thy ===== *)
theory Startup
  imports Init Drivers HeartbeatCorrect
begin

text \<open>
  What the control object does once it is initialised (\<open>controlobject.cpp\<close>): \<open>init_mqtt\<close>, the main
  loop of \<open>run\<close> with its heartbeat, and \<open>cleanup\<close>.
\<close>

subsection \<open>\<open>init_mqtt\<close>\<close>

definition MQTTVSCPD_DISPLAY_VERSION :: string where
  "MQTTVSCPD_DISPLAY_VERSION = ''26.09.74''"

text \<open>\<open>utc\<close> is the start time, \<open>None\<close> where it cannot be formatted.\<close>

definition daemon_client ::
    "('g, 'm) mqtt_api \<Rightarrow> string option \<Rightarrow> ('g, 'm, 'j, 'db) control \<Rightarrow> 'm" where
  "daemon_client M utc c =
     (let m1 = mc_set_srv_guid M (co_mqttClient c) (co_guid c);
          m2 = mc_set_if_guid M m1 (co_guid c);
          m3 = mc_set_user_escape M m2 ''server-name'' (co_strServerName c);
          m4 = mc_set_user_escape M m3 ''root-folder'' (co_rootFolder c);
          m5 = mc_set_user_escape M m4 ''server-user'' (co_runAsUser c);
          m6 = mc_set_user_escape M m5 ''server-version'' MQTTVSCPD_DISPLAY_VERSION;
          m7 = (case utc of None \<Rightarrow> m6 | Some t \<Rightarrow> mc_set_user_escape M m6 ''utc-start-time'' t);
          m8 = mc_set_user_escape M m7 ''server-debug-level'' ''enabled''
      in mc_set_token_maps M m8 (co_map_class_id2Token c) (co_map_type_id2Token c))"

definition announce :: "string \<Rightarrow> string \<Rightarrow> publish" where
  "announce topic payload =
     \<lparr>pub_topic = c_str topic, pub_payload = payload, pub_qos = 2, pub_retain = True\<rparr>"

definition announcements ::
    "'g guid_api \<Rightarrow> str_format \<Rightarrow> render \<Rightarrow> string option \<Rightarrow> ('g, 'm, 'j, 'db) control
       \<Rightarrow> publish list" where
  "announcements G fmt render utc c =
     (let keys = guid_keys G (co_guid c); base = co_topicDaemonBase c
      in [announce (render (base @ ''server-name'') keys) (co_strServerName c),
          announce (render (base @ ''server-version'') keys) MQTTVSCPD_DISPLAY_VERSION,
          announce (render (base @ ''server-started-utc'') keys) (case utc of None \<Rightarrow> [] | Some t \<Rightarrow> t),
          announce (render (co_topicDrivers c) keys) (getAllAsJSON fmt G (co_deviceList c)),
          announce (''vscp-daemon/index/'' @ co_strServerName c) (render ''{{srvguid}}'' keys)])"

fun publish_all :: "('g, 'm) mqtt_api \<Rightarrow> 'm \<Rightarrow> publish list \<Rightarrow> 'm" where
  "publish_all M m [] = m"
| "publish_all M m (p # ps) = publish_all M (snd (mosq_publish M m p)) ps"

text \<open>A publish that fails is only logged.\<close>

definition init_mqtt ::
    "'g guid_api \<Rightarrow> ('g, 'm) mqtt_api \<Rightarrow> str_format \<Rightarrow> render \<Rightarrow> string option
       \<Rightarrow> ('g, 'm, 'j, 'db) control \<Rightarrow> bool \<times> ('g, 'm, 'j, 'db) control" where
  "init_mqtt G M fmt render utc c =
     (let (ok, m) = mc_connect M (daemon_client M utc c);
          ps = announcements G fmt render utc c
      in if \<not> ok then (False, c\<lparr>co_mqttClient := m\<rparr>)
         else (True, c\<lparr>co_mqttClient := publish_all M m ps, co_published := co_published c @ ps\<rparr>))"

subsection \<open>\<open>cleanup\<close>\<close>

definition cleanup ::
    "('g, 'm, 'j, 'c, 'db) thread_env \<Rightarrow> (string \<Rightarrow> driver_lib)
       \<Rightarrow> (('g, 'm, 'j) device \<Rightarrow> u8 \<times> nat) \<Rightarrow> ('g, 'm, 'j, 'db) control
       \<Rightarrow> bool \<times> ('g, 'm, 'j, 'db) control" where
  "cleanup E libs pos c =
     (let c1 = snd (stopDeviceWorkerThreads E libs pos c)
      in (True, c1\<lparr>co_mqttClient := mc_disconnect (en_mqtt E) (co_mqttClient c1)\<rparr>))"

subsection \<open>The main loop\<close>

text \<open>One iteration: what the device threads have reported to \<open>discovery\<close> since the last one (the
  only way they change the control object), the clock when it is read, and when it is read again
  after a heartbeat has become due, with what the heartbeat reads.\<close>

record main_tick =
  mt_reports :: "(vscp_event \<times> string) list"
  mt_now :: int
  mt_saved :: int
  mt_clock :: clock_host
  mt_ex :: vscp_event_ex

record ('g, 'm, 'j, 'db) main_state =
  ms_old :: int
  ms_ctl :: "('g, 'm, 'j, 'db) control"
  ms_undefined :: bool

definition ms_quit :: "('g, 'm, 'j, 'db) main_state \<Rightarrow> bool" where
  "ms_quit s \<longleftrightarrow> co_bQuit (ms_ctl s) \<or> ms_undefined s"

text \<open>What the signal handlers do.\<close>

definition ms_signal :: "('g, 'm, 'j, 'db) main_state \<Rightarrow> ('g, 'm, 'j, 'db) main_state" where
  "ms_signal s = s\<lparr>ms_ctl := (ms_ctl s)\<lparr>co_bQuit := True\<rparr>\<rparr>"

definition take_reports ::
    "('g, 'm, 'j, 'c, 'db) thread_env \<Rightarrow> (vscp_event \<times> string) list \<Rightarrow> ('g, 'm, 'j, 'db) control
       \<Rightarrow> ('g, 'm, 'j, 'db) control" where
  "take_reports E rs c =
     foldl (\<lambda>c (ev, now). discovery (en_guid E) (en_json E) (en_mqtt E) (en_render E) (en_exec E)
                            c now (Some ev)) c rs"

definition main_body ::
    "('g, 'm, 'j, 'c, 'db) thread_env \<Rightarrow> vscp_codes \<Rightarrow> main_tick \<Rightarrow> ('g, 'm, 'j, 'db) main_state
       \<Rightarrow> ('g, 'm, 'j, 'db) main_state" where
  "main_body E K t s =
     (let c = take_reports E (mt_reports t) (ms_ctl s)
      in if mt_now t - ms_old s > 60
         then (case periodicEvents K (en_guid E) (en_mqtt E) (mt_clock t) (mt_ex t) c of
                 None \<Rightarrow> s\<lparr>ms_undefined := True\<rparr>
               | Some (ok, c') \<Rightarrow> s\<lparr>ms_old := mt_saved t, ms_ctl := c'\<rparr>)
         else s\<lparr>ms_ctl := c\<rparr>)"

datatype ('g, 'm, 'j, 'db) run_end =
  RunUndefined | RunReturns bool "('g, 'm, 'j, 'db) control"

text \<open>\<open>start\<close> is the clock before the loop, \<open>created\<close> what \<open>pthread_create\<close> answers, \<open>work\<close> what the
  worker threads have done to their devices when the main loop ends, \<open>pos\<close> where each of them is
  then. \<open>None\<close> is a run still in its main loop at the end of the
  schedule.\<close>

definition run ::
    "('g, 'm, 'j, 'c, 'db) thread_env \<Rightarrow> vscp_codes \<Rightarrow> str_format \<Rightarrow> string option
       \<Rightarrow> (('g, 'm, 'j) device \<Rightarrow> bool) \<Rightarrow> (string \<Rightarrow> driver_lib)
       \<Rightarrow> (('g, 'm, 'j) device \<Rightarrow> ('g, 'm, 'j) device) \<Rightarrow> (('g, 'm, 'j) device \<Rightarrow> u8 \<times> nat)
       \<Rightarrow> int \<Rightarrow> main_tick tick list
       \<Rightarrow> ('g, 'm, 'j, 'db) control \<Rightarrow> ('g, 'm, 'j, 'db) run_end option" where
  "run E K fmt utc created libs work pos start ticks c =
     (case init_mqtt (en_guid E) (en_mqtt E) fmt (en_render E) utc c of
        (False, c1) \<Rightarrow> Some (RunReturns False c1)
      | (True, c1) \<Rightarrow>
          (let c2 = snd (startDeviceWorkerThreads created c1)
           in case work_loop ms_quit ms_signal (main_body E K) ticks
                     \<lparr>ms_old = start - 60, ms_ctl = c2, ms_undefined = False\<rparr> of
                None \<Rightarrow> None
              | Some s \<Rightarrow>
                  if ms_undefined s then Some RunUndefined
                  else (let c3 = (ms_ctl s)\<lparr>co_deviceList := map work (co_deviceList (ms_ctl s))\<rparr>
                        in Some (RunReturns True (snd (cleanup E libs pos c3))))))"

end
