(* ===== verification/ConfigCorrect.thy ===== *)
theory ConfigCorrect
  imports Config
begin

text \<open>
  What the configuration reader guarantees: which keys a configuration must have and where they
  end up, what happens to every kind of failure, how log levels are recognised, how the topics are
  put together, and which drivers a configuration yields.
\<close>

subsection \<open>Required settings\<close>

lemma general_kept:
  "keeps (\<lambda>c. general_fields c = x)
     (then_step (read_vscpkey J read hex j)
     (then_step (read_logging J lower j)
     (then_step (read_mqtt J M j) (read_drivers J G M exists readval j))))"
  by (intro keeps_intros) (simp_all add: general_fields_def)

text \<open>A configuration is accepted only if it has all five required strings, and then the control
  object holds exactly these: user, server name and both database paths as written, and the GUID
  parsed from its string.\<close>

lemma readJSON_accepts:
  assumes "readJSON J G M E j c = (Inr True, c')"
  shows "\<exists>u g n t m.
           map (at_string J j) required_keys = map Inr [u, g, n, t, m] \<and>
           (\<forall>k\<in>set required_keys. js_contains J j k) \<and>
           general_fields c' = (u, g_from_string G (co_guid c) g, n, t, m)"
proof -
  let ?rest = "then_step (read_vscpkey J (ce_read E) (ce_hex E) j)
     (then_step (read_logging J (ce_lower E) j)
     (then_step (read_mqtt J M j) (read_drivers J G M (ce_exists E) (ce_readval E) j)))"
  from assms obtain d where d: "read_general J G j c = (Inr True, d)" "?rest d = (Inr True, c')"
    unfolding readJSON_def then_step_True by blast
  have "general_fields (snd (?rest d)) = general_fields d"
    by (rule keepsD [OF general_kept]) simp
  then have "general_fields c' = general_fields d" using d(2) by simp
  with d(1) show ?thesis
    unfolding read_general_True
    by (auto simp: required_keys_def general_fields_def)
qed

lemma readJSON_accepts_witness:
  "\<exists>u g n t m. map (at_string json0 (JObj
       [(''runasuser'', JStr ''vscp''), (''guid'', JStr ''G''), (''servername'', JStr ''S''),
        (''classtypedb'', JStr ''C''), (''maindb'', JStr ''M'')])) required_keys
     = map Inr [u, g, n, t, m]"
proof -
  let ?j = "JObj [(''runasuser'', JStr ''vscp''), (''guid'', JStr ''G''), (''servername'', JStr ''S''),
        (''classtypedb'', JStr ''C''), (''maindb'', JStr ''M'')]"
  let ?E = "\<lparr>ce_exists = (\<lambda>_. True), ce_read = (\<lambda>_. []), ce_hex = (\<lambda>k n s. (0, k)),
              ce_lower = id, ce_readval = (\<lambda>_. 0)\<rparr>"
  let ?r = "readJSON json0 guid0 mqtt0 ?E ?j
              (CControlObject_new guid0 mqtt0 :: (u8 list, nat, jv, unit) control)"
  have "?r = (Inr True, snd ?r)"
    by (simp add: readJSON_def read_general_def then_step_def read_required_def at_string_def
          read_vscpkey_def readEncryptionKey_def read_logging_def read_mqtt_def read_drivers_def
          with_object_def go_on_def lib_simps c_str_def)
  from readJSON_accepts [OF this] show ?thesis by blast
qed

text \<open>C22: A configuration object that lacks one of the five required strings, or has another type
  there, is rejected by \<open>return false\<close>, and neither the drivers, the log settings, the topics, the
  MQTT client nor the encryption key have been touched. The code and its error texts say "Must be
  present"; \<open>docs/configuring_the_vscp_daemon.md\<close> says otherwise: that without a \<open>guid\<close> one is formed
  from the MAC address (the code does so only for a \<open>guid\<close> of zeroes), and that \<open>servername\<close> and \<open>maindb\<close>
  have defaults.\<close>

theorem readJSON_rejects:
  assumes "json_laws J" and "k \<in> set required_keys" and "\<not> is_string_key J j k"
  shows "(let (r, c') = readJSON J G M E j c
          in r = Inr False \<and> co_deviceList c' = co_deviceList c \<and> co_log c' = co_log c \<and>
             co_mqttClient c' = co_mqttClient c \<and> co_vscp_key c' = co_vscp_key c \<and>
             co_topicDaemonBase c' = co_topicDaemonBase c \<and> co_topicDrivers c' = co_topicDrivers c \<and>
             co_topicDiscovery c' = co_topicDiscovery c)"
proof -
  let ?P = "\<lambda>c' :: ('b, 'c, 'a, 'd) control.
      co_deviceList c' = co_deviceList c \<and> co_log c' = co_log c \<and>
      co_mqttClient c' = co_mqttClient c \<and> co_vscp_key c' = co_vscp_key c \<and>
      co_topicDaemonBase c' = co_topicDaemonBase c \<and> co_topicDrivers c' = co_topicDrivers c \<and>
      co_topicDiscovery c' = co_topicDiscovery c"
  have either: "fst (read_required J j key f s) = (if is_string_key J j key then Inr True else Inr False)"
    for key f and s :: "('b, 'c, 'a, 'd) control"
  proof (cases "is_string_key J j key")
    case True
    then obtain v where "read_required J j key f s = (Inr True, f v s)"
      using read_required_True [of J j key f s] by (auto simp: is_string_key_def)
    with True show ?thesis by simp
  qed (simp add: read_required_stops [OF assms(1)])
  have F: "fst (read_general J G j c) = Inr False"
    using assms(2,3) unfolding read_general_def required_keys_def
    by (auto simp: then_step_def case_prod_unfold either)
  moreover have "keeps ?P (read_general J G j)" by (intro keeps_intros) simp_all
  then have "?P (snd (read_general J G j c))" by (rule keepsD) simp
  ultimately show ?thesis
    by (cases "read_general J G j c") (auto simp: readJSON_def then_step_def)
qed

theorem readJSON_rejects_witness:
  "fst (readJSON json0 guid0 mqtt0
         \<lparr>ce_exists = (\<lambda>_. True), ce_read = (\<lambda>_. []), ce_hex = (\<lambda>k n s. (0, k)),
          ce_lower = id, ce_readval = (\<lambda>_. 0)\<rparr> (JObj [(''runasuser'', JStr ''vscp'')])
         (CControlObject_new guid0 mqtt0 :: (u8 list, nat, jv, unit) control)) = Inr False"
proof -
  have "\<not> is_string_key json0 (JObj [(''runasuser'', JStr ''vscp'')]) ''maindb''"
    by (simp add: is_string_key_def lib_simps)
  moreover have "''maindb'' \<in> set required_keys" by (simp add: required_keys_def)
  ultimately show ?thesis
    using readJSON_rejects [OF json0_laws, of "''maindb''" "JObj [(''runasuser'', JStr ''vscp'')]"
        guid0 mqtt0 "\<lparr>ce_exists = (\<lambda>_. True), ce_read = (\<lambda>_. []), ce_hex = (\<lambda>k n s. (0, k)),
          ce_lower = id, ce_readval = (\<lambda>_. 0)\<rparr>" "CControlObject_new guid0 mqtt0 :: (u8 list, nat, jv, unit) control"]
    by (simp add: Let_def split: prod.splits)
qed

subsection \<open>Log levels\<close>

text \<open>The word that selects a level, and the order in which the words are looked for.\<close>

fun level_word :: "log_level \<Rightarrow> string" where
  "level_word L_trace = ''trace''"
| "level_word L_debug = ''debug''"
| "level_word L_info = ''info''"
| "level_word L_warn = ''warn''"
| "level_word L_err = ''err''"
| "level_word L_critical = ''critical''"
| "level_word L_off = ''off''"

definition level_order :: "log_level list" where
  "level_order = [L_off, L_critical, L_err, L_warn, L_info, L_debug, L_trace]"

lemma parse_level_find:
  "parse_level str cur =
     (case find (\<lambda>l. str_find str (level_word l) \<noteq> None) level_order of None \<Rightarrow> cur | Some l \<Rightarrow> l)"
  by (simp add: parse_level_def level_order_def)

lemma parse_level_word: "parse_level (level_word l) cur = l"
  by (cases l) (simp_all add: parse_level_def str_find.simps)

text \<open>The order in which the words are looked for is the order of the levels, highest first.\<close>

lemma find_level_Max:
  "find P level_order = (if {l. P l} = {} then None else Some (Max {l. P l}))"
proof -
  have fin: "finite A" for A :: "log_level set"
    by (rule finite_subset [of _ "set level_order"])
       (use log_level.exhaust in \<open>auto simp: level_order_def\<close>)
  have "find P level_order = Some m" if "P m" "\<And>l. P l \<Longrightarrow> l \<le> m" for m
    using that(1) that(2) [of L_off] that(2) [of L_critical] that(2) [of L_err] that(2) [of L_warn]
      that(2) [of L_info] that(2) [of L_debug]
    by (cases m) (auto simp: level_order_def level_le)
  from this [of "Max {l. P l}"] Max_in [OF fin, of "{l. P l}"] Max_ge [OF fin, of _ "{l. P l}"]
  have "{l. P l} \<noteq> {} \<Longrightarrow> find P level_order = Some (Max {l. P l})" by simp
  then show ?thesis by (auto simp: find_None_iff)
qed

text \<open>The text of a log level selects the highest level whose word occurs in it, so that every
  level is selected by its own word, and a text with none of the words leaves the level as it is; the
  sinks use the same rule on the lower-cased setting.\<close>

lemma parse_level_spec:
  "(let named = {l. \<exists>us vs. str = us @ level_word l @ vs}
    in parse_level str cur = (if named = {} then cur else Max named))
   \<and> parse_level (level_word l) cur = l
   \<and> read_level J lower L key cur =
       (if js_contains J L key
        then parse_level (lower (read_default J (js_get_string J) L key [])) cur else cur)"
proof -
  have "(\<lambda>l. str_find str (level_word l) \<noteq> None) = (\<lambda>l. \<exists>us vs. str = us @ level_word l @ vs)"
    by (auto simp: fun_eq_iff str_find_None_iff)
  then show ?thesis
    using parse_level_find [of str cur]
    by (simp add: parse_level_word read_level_def find_level_Max Let_def)
qed

subsection \<open>Topics\<close>

text \<open>With a base topic, a drivers topic and a discovery topic in the MQTT block, the daemon
  publishes its drivers under base followed by drivers and discoveries under base followed by
  discovery; an empty base leaves the two as they were given.\<close>

lemma configured_topics:
  assumes "js_contains J j ''mqtt''" and "js_at J j ''mqtt'' = Inr v" and "js_is_object J v"
    and "mc_init_json M (co_mqttClient c) (js_dump J v) = (True, m)"
    and "js_contains J v ''topic-daemon-base''" "at_string J v ''topic-daemon-base'' = Inr b"
    and "js_contains J v ''topic-drivers''" "at_string J v ''topic-drivers'' = Inr dr"
    and "js_contains J v ''topic-discovery''" "at_string J v ''topic-discovery'' = Inr di"
  shows "read_mqtt J M j c =
           (Inr True, c\<lparr>co_mqttClient := m, co_topicDaemonBase := b,
                        co_topicDrivers := b @ dr, co_topicDiscovery := b @ di\<rparr>)"
  using assms
  by (simp add: read_mqtt_def with_object_def then_step_def init_client_def read_topic_def
        add_base_prefix_def)

lemma configured_topics_witness:
  "read_mqtt json0 mqtt0
     (JObj [(''mqtt'', JObj [(''topic-daemon-base'', JStr ''b/''), (''topic-drivers'', JStr ''dr''),
                             (''topic-discovery'', JStr ''di'')])])
     (CControlObject_new guid0 mqtt0 :: (u8 list, nat, jv, unit) control) =
   (Inr True, (CControlObject_new guid0 mqtt0)
      \<lparr>co_mqttClient := 1, co_topicDaemonBase := ''b/'', co_topicDrivers := ''b/dr'',
       co_topicDiscovery := ''b/di''\<rparr>)"
  by (subst configured_topics [where v = "JObj [(''topic-daemon-base'', JStr ''b/''),
         (''topic-drivers'', JStr ''dr''), (''topic-discovery'', JStr ''di'')]"
        and b = "''b/''" and dr = "''dr''" and di = "''di''" and m = 1])
     (simp_all add: lib_simps at_string_def CControlObject_new_def Let_def)

text \<open>A daemon whose MQTT block names no topics does not publish on the documented default
  topics: the defaults of the constructor already start with the base topic, and the reader puts the
  base topic in front of them once more.\<close>

lemma default_topics_prefixed_twice:
  assumes "js_contains J j ''mqtt''" and "js_at J j ''mqtt'' = Inr v" and "js_is_object J v"
    and "mc_init_json M (mc_default M) (js_dump J v) = (True, m)"
    and "\<not> js_contains J v ''topic-daemon-base''" and "\<not> js_contains J v ''topic-drivers''"
    and "\<not> js_contains J v ''topic-discovery''"
  shows "(let c = snd (read_mqtt J M j (CControlObject_new G M))
          in co_topicDaemonBase c = ''vscp-daemon/{{srvguid}}/'' \<and>
             co_topicDrivers c =
               ''vscp-daemon/{{srvguid}}/vscp-daemon/{{srvguid}}/drivers'' \<and>
             co_topicDiscovery c =
               ''vscp-daemon/{{srvguid}}/vscp-daemon/{{srvguid}}/discovery'')"
  using assms
  by (simp add: read_mqtt_def with_object_def then_step_def init_client_def read_topic_def
        add_base_prefix_def CControlObject_new_def Let_def)

lemma default_topics_prefixed_twice_witness:
  "co_topicDrivers (snd (read_mqtt json0 mqtt0 (JObj [(''mqtt'', JObj [])])
      (CControlObject_new guid0 mqtt0 :: (u8 list, nat, jv, unit) control))) =
     ''vscp-daemon/{{srvguid}}/vscp-daemon/{{srvguid}}/drivers''"
proof -
  have "(let c = snd (read_mqtt json0 mqtt0 (JObj [(''mqtt'', JObj [])])
             (CControlObject_new guid0 mqtt0 :: (u8 list, nat, jv, unit) control))
         in co_topicDaemonBase c = ''vscp-daemon/{{srvguid}}/'' \<and>
            co_topicDrivers c =
              ''vscp-daemon/{{srvguid}}/vscp-daemon/{{srvguid}}/drivers'' \<and>
            co_topicDiscovery c =
              ''vscp-daemon/{{srvguid}}/vscp-daemon/{{srvguid}}/discovery'')"
    by (rule default_topics_prefixed_twice [where v = "JObj []" and m = 1])
       (simp_all add: lib_simps)
  then show ?thesis by (simp add: Let_def)
qed

subsection \<open>Drivers\<close>

text \<open>A driver as the configuration leaves it, ready to be started.\<close>

definition ready_driver :: "(string \<Rightarrow> bool) \<Rightarrow> ('g, 'm, 'j) device \<Rightarrow> bool" where
  "ready_driver exists d \<longleftrightarrow>
     di_bEnable d \<and> exists (di_strPath d) \<and> di_bActive d \<and> \<not> di_bQuit d \<and>
     \<not> di_bThreadStarted d \<and> di_openHandle d = 0 \<and> (\<forall>p. di_procs d p = 0) \<and> di_sent d = [] \<and>
     (di_driverLevel d = VSCP_DRIVER_LEVEL1 \<and> unat (di_translation d) < 256 \<or>
      di_driverLevel d = VSCP_DRIVER_LEVEL2 \<and> di_translation d = NO_TRANSLATION)"

text \<open>The arguments that an entry function may produce.\<close>

definition sound_entry :: "('j \<Rightarrow> json_exn + 'g item_args option) \<Rightarrow> bool" where
  "sound_entry entry \<longleftrightarrow>
     (\<forall>e name config path flags guid level tr.
        entry e = Inr (Some (name, config, path, flags, guid, level, tr)) \<longrightarrow>
        (level = VSCP_DRIVER_LEVEL1 \<and> unat tr < 256 \<or>
         level = VSCP_DRIVER_LEVEL2 \<and> tr = NO_TRANSLATION))"

lemma or_throw_Inr: "or_throw r f = Inr x \<longleftrightarrow> (\<exists>v. r = Inr v \<and> f v = Inr x)"
  by (cases r) (auto simp: or_throw_def)

lemma unat_ucast_u8: "unat (ucast (x :: u8) :: u32) = unat x"
  using unsigned_less [of x, where 'a = nat] by (simp add: unsigned_ucast_eq take_bit_nat_eq_self)

lemma sound_level1: "sound_entry (level1_entry J G readval)"
  using unsigned_less [where 'a = nat and 'b = 8]
  by (auto simp: sound_entry_def level1_entry_def or_throw_Inr unat_ucast_u8 split: if_splits)

lemma sound_level2: "sound_entry (level2_entry J G)"
  by (auto simp: sound_entry_def level2_entry_def or_throw_Inr split: if_splits)

lemma ready_new:
  "sound_entry entry \<Longrightarrow> entry e = Inr (Some (name, config, path, flags, guid, level, tr)) \<Longrightarrow>
     exists path \<Longrightarrow> ready_driver exists (new_item G M J sg name config path flags guid level tr)"
  by (auto simp: sound_entry_def ready_driver_def new_item_def CDeviceItem_new_def Let_def)

lemma ready_attach:
  "ready_driver exists (d\<lparr>di_mqttConfig := v, di_mqttClient := m\<rparr>) = ready_driver exists d"
  by (simp add: ready_driver_def)

lemma attach_ready:
  "keeps (\<lambda>c. \<forall>d\<in>set (co_deviceList c). ready_driver exists d) (attach_mqtt J M e name)"
proof (rule keepsI)
  fix c :: "('a, 'b, 'c, 'd) control"
  assume c: "\<forall>d\<in>set (co_deviceList c). ready_driver exists d"
  have upd: "ready_driver exists ((co_deviceList c ! i)\<lparr>di_mqttConfig := v, di_mqttClient := m\<rparr>)"
    if "getDeviceItemFromName (co_deviceList c) name = Some i" for i v m
    using that c reg.find_sound [of "co_deviceList c" name i] by (simp add: ready_attach)
  show "\<forall>d\<in>set (co_deviceList (snd (attach_mqtt J M e name c))). ready_driver exists d"
    using c
    by (auto simp: attach_mqtt_def with_object_def go_on_def Let_def
          dest!: subsetD [OF set_update_subset_insert] intro: upd
          split: sum.splits option.splits prod.splits)
qed

lemma add_driver_ready:
  assumes "sound_entry entry"
  shows "keeps (\<lambda>c. \<forall>d\<in>set (co_deviceList c). ready_driver exists d)
           (add_driver J G M exists entry e)"
proof (rule keepsI)
  fix c :: "('b, 'c, 'a, 'd) control"
  assume c: "\<forall>d\<in>set (co_deviceList c). ready_driver exists d"
  show "\<forall>d\<in>set (co_deviceList (snd (add_driver J G M exists entry e c))). ready_driver exists d"
  proof (cases "\<exists>a. entry e = Inr (Some a)")
    case True
    then obtain n p path fl g l tr where a: "entry e = Inr (Some (n, p, path, fl, g, l, tr))"
      by auto
    let ?c' = "c\<lparr>co_deviceList := co_deviceList c @ [new_item G M J (co_guid c) n p path fl g l tr]\<rparr>"
    have "\<forall>d\<in>set (co_deviceList (snd (attach_mqtt J M e n ?c'))). ready_driver exists d"
      if "exists path"
      by (rule keepsD [OF attach_ready]) (use that c ready_new [OF assms a] in auto)
    with a c show ?thesis by (auto simp: add_driver_def addItem_def)
  next
    case False
    with c show ?thesis by (auto simp: add_driver_def split: sum.splits option.splits)
  qed
qed

text \<open>Every section of the reader keeps the device list startable.\<close>

lemma readJSON_keeps_ready:
  assumes "list_all (ready_driver (ce_exists E)) (co_deviceList c)"
  shows "list_all (ready_driver (ce_exists E)) (co_deviceList (snd (readJSON J G M E j c)))"
proof -
  let ?P = "\<lambda>c :: ('a, 'b, 'c, 'd) control. \<forall>d\<in>set (co_deviceList c). ready_driver (ce_exists E) d"
  have D: "keeps ?P (read_drivers J G M (ce_exists E) (ce_readval E) j)"
    unfolding read_drivers_def
    by (intro keeps_with_object keeps_then keeps_go_on keeps_driver_list add_driver_ready
          sound_level1 sound_level2)
  have "keeps ?P (readJSON J G M E j)"
    unfolding readJSON_def
    by (intro keeps_then keeps_read_general keeps_vscpkey keeps_read_logging keeps_read_mqtt D)
       simp_all
  from keepsD [OF this] assms show ?thesis by (simp add: list_all_iff)
qed

text \<open>Whatever the configuration says, and whether it is accepted, rejected or ends with an
  exception, every driver in the device list is one that can be started: it is enabled, its file
  exists, it is idle with no open handle, and it is either a level I driver whose translation fits
  in the low eight bits or a level II driver without translation.\<close>

lemma readJSON_devices_ready:
  assumes "list_all (ready_driver (ce_exists E)) (co_deviceList c)"
  shows "list_all (ready_driver (ce_exists E)) (co_deviceList (snd (readJSON J G M E j c)))"
  by (rule readJSON_keeps_ready [OF assms])

lemma readJSON_devices_ready_witness:
  "list_all (ready_driver (\<lambda>_. True))
     (co_deviceList (snd (readJSON json0 guid0 mqtt0
         \<lparr>ce_exists = (\<lambda>_. True), ce_read = (\<lambda>_. []), ce_hex = (\<lambda>k n s. (0, k)),
          ce_lower = id, ce_readval = (\<lambda>_. 0)\<rparr> (JObj [])
         (CControlObject_new guid0 mqtt0 :: (u8 list, nat, jv, unit) control))))"
proof -
  let ?E = "\<lparr>ce_exists = (\<lambda>_. True), ce_read = (\<lambda>_. []), ce_hex = (\<lambda>k n s. (0, k)),
          ce_lower = id, ce_readval = (\<lambda>_. 0)\<rparr>"
  have "list_all (ready_driver (ce_exists ?E))
      (co_deviceList (CControlObject_new guid0 mqtt0 :: (u8 list, nat, jv, unit) control))"
    by (simp add: CControlObject_new_def Let_def)
  from readJSON_devices_ready [OF this] show ?thesis by simp
qed

text \<open>A drivers object without a list of level I drivers is fatal: the reader still takes the
  element of that name from the constant configuration, which is undefined behaviour (an assertion
  failure in a debug build) that no exception handler of the daemon sees.\<close>

lemma drivers_without_level1:
  assumes "json_laws J" and "js_contains J j ''drivers''" and "js_at J j ''drivers'' = Inr D"
    and "js_is_object J D" and "\<not> js_contains J D ''level1''"
  shows "read_drivers J G M exists readval j c = (Inl JsonUndefined, c)"
  using assms json_lawsD(3) [OF assms(1), of D "''level1''"]
  by (simp add: read_drivers_def with_object_def then_step_def read_driver_list_def)

lemma drivers_without_level1_witness:
  "read_drivers json0 guid0 mqtt0 (\<lambda>_. True) (\<lambda>_. 0)
     (JObj [(''drivers'', JObj [(''level2'', JArr [])])])
     (CControlObject_new guid0 mqtt0 :: (u8 list, nat, jv, unit) control)
   = (Inl JsonUndefined, CControlObject_new guid0 mqtt0)"
  by (rule drivers_without_level1 [OF json0_laws, where D = "JObj [(''level2'', JArr [])]"])
     (simp_all add: lib_simps)

text \<open>Driver lists written as JSON objects are passed over in silence: the device list stays as
  it was and the configuration counts as read.\<close>

lemma drivers_as_objects_ignored:
  assumes "js_contains J j ''drivers''" and "js_at J j ''drivers'' = Inr D" and "js_is_object J D"
    and "js_contains J D ''level1''" "js_at J D ''level1'' = Inr a" "js_is_object J a"
    and "js_contains J D ''level2''" "js_at J D ''level2'' = Inr b" "js_is_object J b"
  shows "read_drivers J G M exists readval j c = (Inr True, c)"
  using assms
  by (simp add: read_drivers_def with_object_def then_step_def read_driver_list_def go_on_def)

lemma drivers_as_objects_ignored_witness:
  "read_drivers json0 guid0 mqtt0 (\<lambda>_. True) (\<lambda>_. 0)
     (JObj [(''drivers'', JObj [(''level1'', JObj [(''a'', JObj [])]), (''level2'', JObj [])])])
     (CControlObject_new guid0 mqtt0 :: (u8 list, nat, jv, unit) control)
   = (Inr True, CControlObject_new guid0 mqtt0)"
  by (rule drivers_as_objects_ignored
        [where D = "JObj [(''level1'', JObj [(''a'', JObj [])]), (''level2'', JObj [])]"
           and a = "JObj [(''a'', JObj [])]" and b = "JObj []"])
     (simp_all add: lib_simps)

text \<open>The items a list of entries asks for, in order, where the driver files exist.\<close>

fun wanted_items ::
    "(string \<Rightarrow> bool) \<Rightarrow> ('j \<Rightarrow> json_exn + 'g item_args option) \<Rightarrow> 'j list \<Rightarrow> 'g item_args list" where
  "wanted_items exists entry [] = []"
| "wanted_items exists entry (e # es) =
     (case entry e of
        Inr (Some (n, p, path, rest)) \<Rightarrow>
          (if exists path then [(n, p, path, rest)] else []) @ wanted_items exists entry es
      | _ \<Rightarrow> wanted_items exists entry es)"

text \<open>A list of driver entries without MQTT blocks of their own adds, in the order of the
  configuration, one device for each entry that is enabled and complete and whose driver file
  exists, with the entry's name, parameter, path, flags, GUID, level and translation, and changes
  nothing else.\<close>

lemma driver_list_adds_in_order:
  assumes "\<forall>e\<in>set es. (\<exists>a. entry e = Inr a) \<and> \<not> js_contains J e ''mqtt''"
  shows "for_elems (add_driver J G M exists entry) es c =
           (Inr True, c\<lparr>co_deviceList := co_deviceList c @
              map (made_item G M J (co_guid c)) (wanted_items exists entry es)\<rparr>)"
  using assms
proof (induction es arbitrary: c)
  case (Cons e es)
  from Cons.prems obtain a where a: "entry e = Inr a" and m: "\<not> js_contains J e ''mqtt''" by auto
  let ?c = "case a of Some (n, p, path, r) \<Rightarrow>
      if exists path then c\<lparr>co_deviceList := co_deviceList c @
           [made_item G M J (co_guid c) (n, p, path, r)]\<rparr> else c | None \<Rightarrow> c"
  have step: "add_driver J G M exists entry e c = (Inr True, ?c)"
    using a m by (auto simp: add_driver_def addItem_def attach_mqtt_def with_object_def go_on_def
                    made_item_def split: option.splits prod.splits)
  have "for_elems (add_driver J G M exists entry) es ?c = (Inr True,
      ?c\<lparr>co_deviceList := co_deviceList ?c @
         map (made_item G M J (co_guid ?c)) (wanted_items exists entry es)\<rparr>)"
    using Cons.prems by (intro Cons.IH) simp
  with step show ?case
    using a by (cases a) (auto simp: then_step_def split: prod.splits if_splits)
qed simp

lemma driver_list_adds_in_order_witness:
  "length (co_deviceList (snd (for_elems
     (add_driver json0 guid0 mqtt0 (\<lambda>_. True) (level2_entry json0 guid0))
     [JObj [(''enable'', JBool True), (''name'', JStr ''a''), (''path-config'', JStr ''c''),
            (''path-driver'', JStr ''p''), (''guid'', JStr ''g'')],
      JObj [(''enable'', JBool False)]]
     (CControlObject_new guid0 mqtt0 :: (u8 list, nat, jv, unit) control)))) = 1"
proof -
  let ?es = "[JObj [(''enable'', JBool True), (''name'', JStr ''a''), (''path-config'', JStr ''c''),
            (''path-driver'', JStr ''p''), (''guid'', JStr ''g'')], JObj [(''enable'', JBool False)]]"
  have H: "\<forall>e\<in>set ?es. (\<exists>a. level2_entry json0 guid0 e = Inr a) \<and> \<not> js_contains json0 e ''mqtt''"
    by (simp add: level2_entry_def lib_simps or_throw_def index_get_def)
  show ?thesis
    by (subst driver_list_adds_in_order [OF H])
       (simp add: level2_entry_def lib_simps or_throw_def index_get_def CControlObject_new_def Let_def)
qed

end
