(* ===== verification/InitCorrect.thy ===== *)
theory InitCorrect
  imports Init ConfigCorrect HeartbeatCorrect
begin

text \<open>
  What a successful \<open>init\<close> establishes, and how the discovery database it opens or creates works
  together with \<open>discovery\<close>: a node is announced once in the life of the database, not once per
  start of the daemon.
\<close>

subsection \<open>The discovery database\<close>

lemma load_nodes_eq:
  "load_nodes rows m =
     (if \<forall>(g, n)\<in>set rows. g \<noteq> None \<and> n \<noteq> None
      then Some (m ++ map_of (rev (map (\<lambda>(g, n). (the g, the n)) rows))) else None)"
proof (induction rows arbitrary: m)
  case (Cons r rows)
  obtain g n where "r = (g, n)" by (cases r)
  then show ?case by (cases g; cases n) (simp_all add: Cons.IH)
qed simp

lemma load_nodes_dom:
  assumes "load_nodes rows m = Some m'"
  shows "dom m' = dom m \<union> {g. \<exists>n. (Some g, n) \<in> set rows}"
proof -
  have c: "\<forall>(g, n)\<in>set rows. g \<noteq> None \<and> n \<noteq> None"
    and m': "m' = m ++ map_of (rev (map (\<lambda>(g, n). (the g, the n)) rows))"
    using assms by (simp_all add: load_nodes_eq split: if_splits)
  have "fst ` set (map (\<lambda>(g, n). (the g, the n)) rows) = {g. \<exists>n. (Some g, n) \<in> set rows}"
    using c by (force simp: image_iff)
  then show ?thesis by (auto simp: m' dom_map_of_conv_image_fst)
qed

lemma open_discovery_known:
  assumes "open_discovery Q p = (Inr True, p')"
    and "sq_open Q (c_str (co_pathMainDb (pr_ctl p))) = (True, db)" and "sq_nodes Q db = Some rows"
  shows "{g. \<exists>n. (Some g, n) \<in> set rows} \<subseteq> dom (co_map_discoveryGuidToName (pr_ctl p'))"
proof (cases "load_nodes rows (co_map_discoveryGuidToName (pr_ctl p))")
  case (Some m)
  with assms have "co_map_discoveryGuidToName (pr_ctl p') = m"
    by (auto simp: open_discovery_def Let_def)
  with load_nodes_dom [OF Some] show ?thesis by simp
qed (use assms in \<open>simp add: open_discovery_def Let_def\<close>)

lemma create_discovery_known:
  assumes "create_discovery G Q now p = (Inr True, p')"
  shows "g_to_string G (co_guid (pr_ctl p)) \<in> dom (co_map_discoveryGuidToName (pr_ctl p'))"
  using assms
  by (cases "sq_open Q (c_str (co_pathMainDb (pr_ctl p)))")
     (auto simp: create_discovery_def Let_def simp del: exec_all.simps
        split: prod.splits bool.splits if_splits)

lemma known_not_announced:
  assumes "g_to_string G (g_of_bytes G (ev_GUID ev)) \<in> dom (co_map_discoveryGuidToName c)"
  shows "discovery G J M render exec c now (Some ev) = c"
  using assms disc.report_known [of "(g_to_string G (g_of_bytes G (ev_GUID ev)), now)" c G J M render exec]
  by (simp add: discovery_report)

text \<open>C34: Restarting the daemon does not announce a node again: after \<open>init\<close> has opened an existing
  discovery database, an event from any node that is stored in it, under whatever name, leaves
  the database, the topics and the memory as they are. After it has created the database, the same
  holds for the daemon's own GUID.\<close>

theorem known_nodes_after_init:
  assumes "co_pathMainDb (pr_ctl p) \<noteq> []"
    and "init_discovery G Q exists now p = (Inr True, p')"
    and "co_db_vscp_daemon (pr_ctl p') \<noteq> None"
    and "if exists (co_pathMainDb (pr_ctl p))
         then (\<exists>db rows n. sq_open Q (c_str (co_pathMainDb (pr_ctl p))) = (True, db) \<and>
                 sq_nodes Q db = Some rows \<and>
                 (Some (g_to_string G (g_of_bytes G (ev_GUID ev))), n) \<in> set rows)
         else g_to_string G (g_of_bytes G (ev_GUID ev)) = g_to_string G (co_guid (pr_ctl p))"
  shows "discovery G J M render exec (pr_ctl p') later (Some ev) = pr_ctl p'"
proof (rule known_not_announced)
  let ?gs = "g_to_string G (g_of_bytes G (ev_GUID ev))"
  show "?gs \<in> dom (co_map_discoveryGuidToName (pr_ctl p'))"
  proof (cases "exists (co_pathMainDb (pr_ctl p))")
    case True
    with assms(4) obtain db rows n where
      db: "sq_open Q (c_str (co_pathMainDb (pr_ctl p))) = (True, db)" "sq_nodes Q db = Some rows"
      and row: "(Some ?gs, n) \<in> set rows" by auto
    from True assms(1,2) have "open_discovery Q p = (Inr True, p')"
      by (simp add: init_discovery_def)
    from open_discovery_known [OF this db] row show ?thesis by blast
  next
    case False
    with assms(1,2) have "create_discovery G Q now p = (Inr True, p')"
      by (simp add: init_discovery_def)
    with create_discovery_known [OF this] False assms(4) show ?thesis by simp
  qed
qed

definition sql0 :: "(string option \<times> string option) list \<Rightarrow> nat sql_api" where
  "sql0 rows = \<lparr>sq_initialize = True, sq_classtype = (\<lambda>_. None), sq_open = (\<lambda>_. (True, 0)),
     sq_exec = (\<lambda>db q. (True, Suc db)), sq_nodes = (\<lambda>db. Some rows)\<rparr>"

definition process0 :: "(u8 list, nat, jv, nat) process" where
  "process0 = \<lparr>pr_ctl = (CControlObject_new guid0 mqtt0)\<lparr>co_pathMainDb := ''db''\<rparr>,
     pr_sinks = [], pr_gid = 0, pr_uid = 0\<rparr>"

theorem known_nodes_after_init_witness:
  "\<exists>p'. init_discovery guid0 (sql0 [(Some (replicate 16 (CHR 0x00)), Some ''n'')]) (\<lambda>_. True) ''t''
           process0 = (Inr True, p') \<and>
        discovery guid0 json0 mqtt0 render0 (\<lambda>db q. (True, Suc db)) (pr_ctl p') ''u'' (Some zero_event)
          = pr_ctl p'"
proof -
  let ?Q = "sql0 [(Some (replicate 16 (CHR 0x00)), Some ''n'')]"
  obtain p' where p': "init_discovery guid0 ?Q (\<lambda>_. True) ''t'' process0 = (Inr True, p')"
    "co_db_vscp_daemon (pr_ctl p') \<noteq> None"
    by (simp add: init_discovery_def open_discovery_def process0_def sql0_def)
  have g: "g_to_string guid0 (g_of_bytes guid0 (ev_GUID zero_event)) = replicate 16 (CHR 0x00)"
    by (simp add: zero_event_def lib_simps char_of_def)
  have "discovery guid0 json0 mqtt0 render0 (\<lambda>db q. (True, Suc db)) (pr_ctl p') ''u'' (Some zero_event)
      = pr_ctl p'"
    by (rule known_nodes_after_init [OF _ p']) (simp_all add: g, simp_all add: process0_def sql0_def)
  with p' show ?thesis by blast
qed

subsection \<open>A successful start\<close>

text \<open>What the configuration reader sets and no later section of \<open>init\<close> touches.\<close>

definition cfg_part where
  "cfg_part c =
     (co_runAsUser c, co_strServerName c, co_pathClassTypeDefinitionDb c, co_pathMainDb c,
      co_rootFolder c, co_topicDaemonBase c, co_topicDrivers c, co_topicDiscovery c,
      co_deviceList c, co_log c, co_mqttClient c, co_bQuit c, co_vscp_key c)"

lemma logging_kept: "init_logging S p = (r, p') \<Longrightarrow> pr_ctl p' = pr_ctl p"
  by (auto simp: init_logging_def Let_def split: if_splits)

lemma user_kept: "init_user S p = (r, p') \<Longrightarrow> pr_ctl p' = pr_ctl p"
  by (auto simp: init_user_def Let_def split: if_splits option.splits)

lemma classtype_kept:
  "init_classtype Q p = (r, p') \<Longrightarrow> cfg_part (pr_ctl p') = cfg_part (pr_ctl p) \<and>
     co_guid (pr_ctl p') = co_guid (pr_ctl p)"
  by (auto simp: init_classtype_def cfg_part_def Let_def split: if_splits option.splits prod.splits)

lemma discovery_kept:
  "init_discovery G Q exists now p = (r, p') \<Longrightarrow> cfg_part (pr_ctl p') = cfg_part (pr_ctl p) \<and>
     co_guid (pr_ctl p') = co_guid (pr_ctl p)"
  by (auto simp: init_discovery_def open_discovery_def create_discovery_def cfg_part_def Let_def
        simp del: exec_all.simps split: if_splits option.splits prod.splits bool.splits)

lemma guid_step_value:
  assumes "init_guid_step G S p = (Inr True, p')" and "guid_laws G" and "length (os_junk S) = 16"
    and "\<forall>mac. os_hwaddr S = Some mac \<longrightarrow> length mac = 6"
    and "\<forall>as. os_host S = Some as \<longrightarrow> length as < 16"
  shows "cfg_part (pr_ctl p') = cfg_part (pr_ctl p) \<and> \<not> g_is_null G (co_guid (pr_ctl p')) \<and>
         (\<not> g_is_null G (co_guid (pr_ctl p)) \<longrightarrow> co_guid (pr_ctl p') = co_guid (pr_ctl p))"
proof -
  obtain g where g: "init_guid G (os_socket S) (os_hwaddr S) (os_host S) (os_junk S)
      (co_guid (pr_ctl p)) = Some g" "p' = on_ctl (\<lambda>c. c\<lparr>co_guid := g\<rparr>) p"
    using assms(1) by (auto simp: init_guid_step_def split: option.splits)
  have "\<not> g_is_null G g"
    using init_guid_value [OF assms(2-5), of "os_socket S" "co_guid (pr_ctl p)"] g(1) by auto
  then show ?thesis using g by (auto simp: cfg_part_def init_guid_def split: if_splits)
qed

text \<open>The sections of a start that returns true, put together.\<close>

lemma init_accepted:
  assumes "init J G M E parse S Q cfg root p = (Inr True, p')" and "guid_laws G"
    and "length (os_junk S) = 16" and "\<forall>mac. os_hwaddr S = Some mac \<longrightarrow> length mac = 6"
    and "\<forall>as. os_host S = Some as \<longrightarrow> length as < 16"
  shows "ce_exists E (c_str root) \<and> ce_exists E (c_str cfg) \<and>
         (\<exists>j c1. parse cfg = Some j \<and>
            readJSON J G M E j ((pr_ctl p)\<lparr>co_rootFolder := root\<rparr>) = (Inr True, c1) \<and>
            cfg_part (pr_ctl p') = cfg_part c1 \<and> \<not> g_is_null G (co_guid (pr_ctl p')) \<and>
            (\<not> g_is_null G (co_guid c1) \<longrightarrow> co_guid (pr_ctl p') = co_guid c1))"
proof -
  from assms(1) obtain p1 p2 p3 p4 p5 p6 where
    s: "init_files (ce_exists E) cfg root p = (Inr True, p1)"
    "init_config J G M E parse cfg p1 = (Inr True, p2)" "init_logging S p2 = (Inr True, p3)"
    "init_user S p3 = (Inr True, p4)" "init_guid_step G S p4 = (Inr True, p5)"
    "init_classtype Q p5 = (Inr True, p6)"
    "init_discovery G Q (ce_exists E) (os_now S) p6 = (Inr True, p')"
    unfolding init_def then_step_True by blast
  from s(1) have f: "ce_exists E (c_str root) \<and> ce_exists E (c_str cfg)"
    "pr_ctl p1 = (pr_ctl p)\<lparr>co_rootFolder := root\<rparr>" by (auto simp: init_files_def Let_def)
  from s(2) f(2) obtain j where j: "parse cfg = Some j"
    "readJSON J G M E j ((pr_ctl p)\<lparr>co_rootFolder := root\<rparr>) = (Inr True, pr_ctl p2)"
    by (auto simp: init_config_def readConfiguration_def split: prod.splits sum.splits option.splits)
  have c: "pr_ctl p4 = pr_ctl p2" using logging_kept [OF s(3)] user_kept [OF s(4)] by simp
  from guid_step_value [OF s(5) assms(2-5)] classtype_kept [OF s(6)] discovery_kept [OF s(7)]
  show ?thesis using f(1) j unfolding c by (intro conjI exI [of _ j] exI [of _ "pr_ctl p2"]) auto
qed

text \<open>C23: When \<open>init\<close> returns true, the root folder and the configuration file exist, the file was
  parsed and accepted by \<open>readJSON\<close>, every setting and every driver is as \<open>readJSON\<close> left it, the
  control object has a GUID that is not null, and this is the configured one if that was not
  null.\<close>

theorem init_success:
  assumes "init J G M E parse S Q cfg root p = (Inr True, p')" and "guid_laws G"
    and "length (os_junk S) = 16" and "\<forall>mac. os_hwaddr S = Some mac \<longrightarrow> length mac = 6"
    and "\<forall>as. os_host S = Some as \<longrightarrow> length as < 16"
  shows "ce_exists E (c_str root) \<and> ce_exists E (c_str cfg) \<and>
         (\<exists>j c1. parse cfg = Some j \<and>
            readJSON J G M E j ((pr_ctl p)\<lparr>co_rootFolder := root\<rparr>) = (Inr True, c1) \<and>
            cfg_part (pr_ctl p') = cfg_part c1 \<and> \<not> g_is_null G (co_guid (pr_ctl p')) \<and>
            (\<not> g_is_null G (co_guid c1) \<longrightarrow> co_guid (pr_ctl p') = co_guid c1))"
  by (rule init_accepted [OF assms])

text \<open>The smallest configuration, on a machine without addresses.\<close>

definition cfg0 :: jv where
  "cfg0 = JObj [(''runasuser'', JStr []), (''guid'', JStr ''G''), (''servername'', JStr ''S''),
                (''classtypedb'', JStr []), (''maindb'', JStr [])]"

definition ce0 :: cfg_env where
  "ce0 = \<lparr>ce_exists = (\<lambda>_. True), ce_read = (\<lambda>_. []), ce_hex = (\<lambda>k n s. (0, k)), ce_lower = id,
          ce_readval = (\<lambda>_. 0)\<rparr>"

definition os0 :: os_api where
  "os0 = \<lparr>os_user = (\<lambda>_. None), os_setgid = (\<lambda>_. True), os_setuid = (\<lambda>_. True),
          os_log_file = (\<lambda>_. True), os_udp = (\<lambda>_ _. True), os_socket = True, os_hwaddr = None,
          os_host = None, os_junk = replicate 16 0, os_now = ''t''\<rparr>"

lemma guid0_G: "guid0_norm (bytes_of ''G'') \<noteq> replicate 16 0"
proof
  assume "guid0_norm (bytes_of ''G'') = replicate 16 0"
  then have "hd (guid0_norm (bytes_of ''G'')) = hd (replicate 16 (0 :: u8))" by simp
  then show False by (simp add: guid0_norm_def bytes_of_def)
qed

lemmas cfg0_defs = cfg0_def ce0_def readJSON_def read_general_def then_step_def read_required_def
  at_string_def read_vscpkey_def readEncryptionKey_def read_logging_def read_mqtt_def
  read_drivers_def with_object_def go_on_def lib_simps c_str_def guid0_def [THEN arg_cong [where f = g_from_string]]

lemma readJSON0:
  "readJSON json0 guid0 mqtt0 ce0 cfg0 c =
     (Inr True, c\<lparr>co_runAsUser := [], co_guid := guid0_norm (bytes_of ''G''), co_strServerName := ''S'',
                  co_pathClassTypeDefinitionDb := [], co_pathMainDb := []\<rparr>)"
  by (simp add: cfg0_defs)

lemma init0:
  "\<exists>p'. init json0 guid0 mqtt0 ce0 (\<lambda>_. Some cfg0) os0 (sql0 []) cfg root p = (Inr True, p')"
proof -
  have files: "\<exists>t. init_files (ce_exists ce0) cfg root p = (Inr True, t)"
    by (simp add: init_files_def ce0_def)
  have config: "\<exists>u. init_config json0 guid0 mqtt0 ce0 (\<lambda>_. Some cfg0) cfg t = (Inr True, u) \<and>
      co_runAsUser (pr_ctl u) = [] \<and> co_guid (pr_ctl u) = guid0_norm (bytes_of ''G'') \<and>
      co_pathClassTypeDefinitionDb (pr_ctl u) = [] \<and> co_pathMainDb (pr_ctl u) = []" for t
    by (simp add: init_config_def readConfiguration_def readJSON0)
  have logging: "\<exists>v. init_logging os0 u = (Inr True, v) \<and> pr_ctl v = pr_ctl u" for u
    by (simp add: init_logging_def os0_def Let_def)
  have rest: "\<exists>w. then_step (init_user os0) (then_step (init_guid_step guid0 os0)
      (then_step (init_classtype (sql0 [])) (init_discovery guid0 (sql0 []) ex now))) v = (Inr True, w)"
    if "co_runAsUser (pr_ctl v) = []" "co_guid (pr_ctl v) = guid0_norm (bytes_of ''G'')"
      "co_pathClassTypeDefinitionDb (pr_ctl v) = []" "co_pathMainDb (pr_ctl v) = []" for v ex now
    using that by (simp add: then_step_def init_user_def init_guid_step_def init_guid_def lib_simps
        guid0_G init_classtype_def init_discovery_def sql0_def)
  show ?thesis unfolding init_def then_step_True [of _ "then_step _ _"]
    using files config logging rest unfolding then_step_True by metis
qed

theorem init_success_witness:
  "\<exists>p'. init json0 guid0 mqtt0 ce0 (\<lambda>_. Some cfg0) os0 (sql0 []) ''c'' ''r'' process0 = (Inr True, p')
        \<and> co_guid (pr_ctl p') = guid0_norm (bytes_of ''G'')"
proof -
  obtain p' where r: "init json0 guid0 mqtt0 ce0 (\<lambda>_. Some cfg0) os0 (sql0 []) ''c'' ''r'' process0
      = (Inr True, p')" using init0 by blast
  have "length (os_junk os0) = 16" "\<forall>mac. os_hwaddr os0 = Some mac \<longrightarrow> length mac = 6"
    "\<forall>as. os_host os0 = Some as \<longrightarrow> length as < 16" by (simp_all add: os0_def)
  from init_success [OF r guid0_laws this] show ?thesis
    using r guid0_G by (auto simp: readJSON0 lib_simps)
qed

end
