(* ===== verification/Daemon.thy ===== *)
theory Daemon
  imports Startup InitCorrect
begin

text \<open>
  The program (\<open>mqttvscpd.cpp\<close>): the command line, turning into a daemon, the pid file, the signal
  handlers, the log directory and \<open>main\<close> itself, over \<open>init\<close>, \<open>run\<close> and \<open>cleanup\<close> of the control
  object. What \<open>main\<close> does to the pid file and the working directory is recorded in a list of actions;
  the directories it makes for the log are in the result of \<open>main_logging\<close>.
\<close>

subsection \<open>Directories\<close>

text \<open>The outcome of \<open>mkdir\<close>: made, failed with \<open>EEXIST\<close>, failed otherwise. \<open>dirs\<close> are the paths that
  exist.\<close>

datatype mkdir_result = MkMade | MkExists | MkFails

definition mkdir_one ::
    "(string list \<Rightarrow> string \<Rightarrow> mkdir_result) \<Rightarrow> string \<Rightarrow> string list \<Rightarrow> bool \<times> string list" where
  "mkdir_one mkdir sub dirs =
     (if sub = [] \<or> sub = ''/'' then (True, dirs)
      else if c_str sub \<in> set dirs then (True, dirs)
      else case mkdir dirs (c_str sub) of
             MkMade \<Rightarrow> (True, dirs @ [c_str sub])
           | MkExists \<Rightarrow> (True, dirs)
           | MkFails \<Rightarrow> (False, dirs))"

text \<open>The loop from the slash at \<open>pos\<close>; the last round, where \<open>find\<close> gives \<open>npos\<close>, takes the whole
  path.\<close>

function mkdir_loop ::
    "(string list \<Rightarrow> string \<Rightarrow> mkdir_result) \<Rightarrow> string \<Rightarrow> nat \<Rightarrow> string list \<Rightarrow> bool \<times> string list"
  where
  "mkdir_loop mkdir path pos dirs =
     (case find_char_from path (CHR ''/'') (Suc pos) of
        None \<Rightarrow> mkdir_one mkdir path dirs
      | Some q \<Rightarrow>
          (case mkdir_one mkdir (take q path) dirs of
             (False, ds) \<Rightarrow> (False, ds)
           | (True, ds) \<Rightarrow> mkdir_loop mkdir path q ds))"
  by pat_completeness auto

termination
  by (relation "measure (\<lambda>(mkdir, path, pos, dirs). length path - pos)")
     (auto dest!: find_char_from_Some)

declare mkdir_loop.simps [simp del]

definition createDirectoryRecursive ::
    "(string list \<Rightarrow> string \<Rightarrow> mkdir_result) \<Rightarrow> string list \<Rightarrow> string \<Rightarrow> bool \<times> string list" where
  "createDirectoryRecursive mkdir dirs path =
     (if path = [] then (False, dirs) else mkdir_loop mkdir path 0 dirs)"

subsection \<open>Signals\<close>

datatype signal = SIGPIPE | SIGQUIT | SIGABRT | SIGINT | SIGTERM | SIGHUP | SIGCHLD

datatype handler = H_default | H_ignore | H_stop | H_restart

definition setupSignalHandlers :: "(signal \<Rightarrow> handler) \<Rightarrow> signal \<Rightarrow> handler" where
  "setupSignalHandlers h =
     h(SIGPIPE := H_ignore, SIGQUIT := H_stop, SIGABRT := H_stop, SIGINT := H_stop,
       SIGTERM := H_stop, SIGHUP := H_stop)"

text \<open>The handlers with the global pointer \<open>gpobj\<close> and the flag \<open>gbStopDaemon\<close>: \<open>None\<close> is the access
  through a null pointer.\<close>

definition sighandlerStop ::
    "('g, 'm, 'j, 'db) control option \<Rightarrow> (('g, 'm, 'j, 'db) control \<times> bool) option" where
  "sighandlerStop gpobj =
     (case gpobj of None \<Rightarrow> None | Some c \<Rightarrow> Some (c\<lparr>co_bQuit := True\<rparr>, True))"

definition sighandlerRestart ::
    "('g, 'm, 'j, 'db) control option \<Rightarrow> (('g, 'm, 'j, 'db) control \<times> bool) option" where
  "sighandlerRestart gpobj =
     (case gpobj of None \<Rightarrow> None | Some c \<Rightarrow> Some (c\<lparr>co_bQuit := True\<rparr>, False))"

subsection \<open>The command line\<close>

text \<open>One result of \<open>getopt\<close>: the option letter and its argument. The settings it changes.\<close>

record options =
  op_standalone :: bool
  op_cfgfile :: string
  op_rootFolder :: string
  op_key :: "u8 list"

definition default_options :: options where
  "default_options =
     \<lparr>op_standalone = False, op_cfgfile = ''/etc/vscp/mqttvscpd.json'',
      op_rootFolder = ''/var/lib/vscp/mqttvscpd/'', op_key = default_vscp_key\<rparr>"

fun parse_options ::
    "(u8 list \<Rightarrow> nat \<Rightarrow> string \<Rightarrow> nat \<times> u8 list) \<Rightarrow> (char \<times> string) list \<Rightarrow> options
       \<Rightarrow> int + options" where
  "parse_options hex [] s = Inr s"
| "parse_options hex ((opt, optarg) # rest) s =
     (if opt = CHR ''s'' then parse_options hex rest (s\<lparr>op_standalone := True\<rparr>)
      else if opt = CHR ''c'' then parse_options hex rest (s\<lparr>op_cfgfile := optarg\<rparr>)
      else if opt = CHR ''d'' then parse_options hex rest s
      else if opt = CHR ''r'' then parse_options hex rest (s\<lparr>op_rootFolder := optarg\<rparr>)
      else if opt = CHR ''k'' then parse_options hex rest (s\<lparr>op_key := snd (hex (op_key s) 32 optarg)\<rparr>)
      else if opt = CHR ''g'' then Inl 0
      else if opt = CHR ''v'' then Inl 0
      else Inl (- 1))"

subsection \<open>Daemon and pid file\<close>

datatype fork_result = ForkFails | ForkParent | ForkChild

text \<open>The result of \<open>daemonize\<close>, where the parent process exits.\<close>

datatype daemon_result = D_Fails | D_ParentExits | D_Runs int

definition daemonize :: "bool \<Rightarrow> fork_result \<Rightarrow> int \<Rightarrow> daemon_result" where
  "daemonize dont_run fork sid =
     (if dont_run then D_Runs 0
      else case fork of
             ForkFails \<Rightarrow> D_Fails
           | ForkParent \<Rightarrow> D_ParentExits
           | ForkChild \<Rightarrow> if sid < 0 then D_Fails else D_Runs sid)"

text \<open>Decimal output (\<open>%u\<close>).\<close>

fun decimal :: "nat \<Rightarrow> string" where
  "decimal n = (if n < 10 then [char_of (48 + n)] else decimal (n div 10) @ [char_of (48 + n mod 10)])"

declare decimal.simps [simp del]

datatype file_action = WriteFile string string | Unlink string | Chdir string

definition writePidFile :: "bool \<Rightarrow> string \<Rightarrow> int \<Rightarrow> bool \<times> file_action list" where
  "writePidFile writable path sid =
     (if \<not> writable then (False, [])
      else (True, [WriteFile path (decimal (nat (sid mod 2 ^ 32)) @ [CHR 0x0A])]))"

definition pid_path :: string where "pid_path = ''/var/run/vscpd.pid''"

subsection \<open>Logging of \<open>main\<close>\<close>

text \<open>After \<open>init\<close>, \<open>main\<close> makes the log directory and replaces the default logger by one with a console
  and a file sink; an exception on the way ends the program. \<open>None\<close> is that exception.\<close>

definition main_console :: "log_config \<Rightarrow> log_sink" where
  "main_console g = ConsoleSink (if lg_bEnableConsoleLog g then lg_consoleLogLevel g else L_off)"

definition main_file :: "log_config \<Rightarrow> log_sink" where
  "main_file g = FileSink (c_str (lg_path_to_log_file g))
     (if lg_bEnableFileLog g then lg_fileLogLevel g else L_off)"

definition main_log_dir ::
    "(string list \<Rightarrow> string \<Rightarrow> mkdir_result) \<Rightarrow> string list \<Rightarrow> log_config \<Rightarrow> string list" where
  "main_log_dir mkdir dirs g =
     (case find_last_of (lg_path_to_log_file g) (CHR ''/'') of
        None \<Rightarrow> dirs
      | Some slashPos \<Rightarrow>
          (let logDir = take slashPos (lg_path_to_log_file g)
           in if length logDir \<noteq> 0 \<and> c_str logDir \<notin> set dirs
              then snd (createDirectoryRecursive mkdir dirs logDir) else dirs))"

definition main_logging ::
    "(string \<Rightarrow> bool) \<Rightarrow> (string list \<Rightarrow> string \<Rightarrow> mkdir_result) \<Rightarrow> string list
       \<Rightarrow> ('g, 'm, 'j, 'db) process \<Rightarrow> (string list \<times> ('g, 'm, 'j, 'db) process) option" where
  "main_logging log_file mkdir dirs p =
     (let g = co_log (pr_ctl p); dirs' = main_log_dir mkdir dirs g
      in if \<not> log_file (c_str (lg_path_to_log_file g)) then None
         else Some (dirs', p\<lparr>pr_sinks := [main_console g, main_file g]\<rparr>))"

subsection \<open>\<open>main\<close>\<close>

text \<open>What \<open>main\<close> asks of the operating system.\<close>

record main_os =
  mo_fork :: fork_result
  mo_setsid :: int
  mo_pid_writable :: bool
  mo_chdir :: "string \<Rightarrow> bool"
  mo_log_file :: "string \<Rightarrow> bool"
  mo_mkdir :: "string list \<Rightarrow> string \<Rightarrow> mkdir_result"
  mo_dirs :: "string list"

text \<open>How the program ends: by \<open>exit\<close> with a code, by an uncaught exception or undefined behaviour, or
  not within the schedule. The actions on the pid file and the working directory come with it.\<close>

datatype main_end = Exits int | Aborts | Runs

definition main_pid :: "main_os \<Rightarrow> options \<Rightarrow> int \<Rightarrow> file_action list" where
  "main_pid OS s sid =
     (if op_standalone s then [] else snd (writePidFile (mo_pid_writable OS) pid_path sid))"

text \<open>When the root folder cannot be entered the home folder is tried, and the pid file is
  removed.\<close>

definition main_chdir :: "main_os \<Rightarrow> options \<Rightarrow> file_action list" where
  "main_chdir OS s =
     (if mo_chdir OS (c_str (op_rootFolder s)) then [Chdir (c_str (op_rootFolder s))]
      else (if mo_chdir OS ''/var/lib/vscp/mqttvscpd'' then [Chdir ''/var/lib/vscp/mqttvscpd''] else [])
           @ [Unlink pid_path])"

text \<open>From the control object on; \<open>initf\<close> and \<open>runf\<close> are \<open>init\<close> and \<open>run\<close> applied to their
  surroundings. \<open>cleanup\<close> always returns true.\<close>

definition main_control ::
    "main_os \<Rightarrow> (string \<Rightarrow> string \<Rightarrow> ('g, 'm, 'j, 'db) process init_step)
       \<Rightarrow> (('g, 'm, 'j, 'db) control \<Rightarrow> ('g, 'm, 'j, 'db) run_end option) \<Rightarrow> options
       \<Rightarrow> ('g, 'm, 'j, 'db) process \<Rightarrow> main_end \<times> file_action list" where
  "main_control OS initf runf s p =
     (case initf (op_cfgfile s) (op_rootFolder s) p of
        (Inl e, p1) \<Rightarrow> (Aborts, [])
      | (Inr False, p1) \<Rightarrow> (Exits 1, [Unlink pid_path])
      | (Inr True, p1) \<Rightarrow>
          (case main_logging (mo_log_file OS) (mo_mkdir OS) (mo_dirs OS) p1 of
             None \<Rightarrow> (Exits 1, [])
           | Some (dirs, p2) \<Rightarrow>
               (case runf (pr_ctl p2) of
                  None \<Rightarrow> (Runs, [])
                | Some RunUndefined \<Rightarrow> (Aborts, [])
                | Some (RunReturns False c) \<Rightarrow> (Exits 1, [Unlink pid_path])
                | Some (RunReturns True c) \<Rightarrow> (Exits 0, [Unlink ''/var/run/vscp/vscpd.pid'']))))"

text \<open>The process before \<open>init\<close>: the new control object, the key from the command line, the default
  logger of the logging library.\<close>

definition main_process ::
    "'g guid_api \<Rightarrow> ('g, 'm) mqtt_api \<Rightarrow> nat \<times> nat \<Rightarrow> options \<Rightarrow> ('g, 'm, 'j, 'db) process" where
  "main_process G M ids s =
     \<lparr>pr_ctl = (CControlObject_new G M)\<lparr>co_vscp_key := op_key s\<rparr>,
      pr_sinks = [ConsoleSink L_trace], pr_gid = fst ids, pr_uid = snd ids\<rparr>"

definition daemon_main ::
    "(u8 list \<Rightarrow> nat \<Rightarrow> string \<Rightarrow> nat \<times> u8 list) \<Rightarrow> main_os
       \<Rightarrow> (string \<Rightarrow> string \<Rightarrow> ('g, 'm, 'j, 'db) process init_step)
       \<Rightarrow> (('g, 'm, 'j, 'db) control \<Rightarrow> ('g, 'm, 'j, 'db) run_end option)
       \<Rightarrow> 'g guid_api \<Rightarrow> ('g, 'm) mqtt_api \<Rightarrow> nat \<times> nat \<Rightarrow> (char \<times> string) list
       \<Rightarrow> main_end \<times> file_action list" where
  "daemon_main hex OS initf runf G M ids args =
     (case parse_options hex args default_options of
        Inl code \<Rightarrow> (Exits code, [])
      | Inr s \<Rightarrow>
          (case daemonize (op_standalone s) (mo_fork OS) (mo_setsid OS) of
             D_Fails \<Rightarrow> (Exits (- 1), [])
           | D_ParentExits \<Rightarrow> (Exits 0, [])
           | D_Runs sid \<Rightarrow>
               (let (e, acts) = main_control OS initf runf s (main_process G M ids s)
                in (e, main_pid OS s sid @ main_chdir OS s @ acts))))"

end
