(* ===== verification/DaemonCorrect.thy ===== *)
theory DaemonCorrect
  imports Daemon
begin

text \<open>
  What the program guarantees around the control object: the directories it makes, how the command
  line is read, which log sinks are left once \<open>main\<close> runs, and what becomes of the pid file.
\<close>

subsection \<open>Directories\<close>

text \<open>The directories of a path from position \<open>pos\<close> on: the prefixes that end before a slash, and the
  path itself.\<close>

definition dirs_from :: "nat \<Rightarrow> string \<Rightarrow> string set" where
  "dirs_from pos path =
     insert path {take k path |k. pos < k \<and> k < length path \<and> path ! k = CHR ''/''}"

lemma dirs_from_None:
  assumes "find_char_from path (CHR ''/'') (Suc pos) = None"
  shows "dirs_from pos path = {path}"
proof -
  have "path ! k \<noteq> CHR ''/''" if "pos < k" "k < length path" for k
  proof
    assume "path ! k = CHR ''/''"
    with that have "CHR ''/'' \<in> set (drop (Suc pos) path)"
      by (auto simp: in_set_conv_nth intro!: exI [of _ "k - Suc pos"])
    with assms show False by (simp add: find_char_from_def find_char_None)
  qed
  then show ?thesis by (auto simp: dirs_from_def)
qed

lemma dirs_from_Some:
  assumes "find_char_from path (CHR ''/'') (Suc pos) = Some q"
  shows "dirs_from pos path = insert (take q path) (dirs_from q path)"
proof -
  note f = find_char_from_Some [OF assms]
  have "k = q \<or> q < k" if "pos < k" "path ! k = CHR ''/''" for k
    using f that by (meson Suc_leI linorder_neqE_nat)
  with f show ?thesis by (auto simp: dirs_from_def intro: exI [of _ q])
qed

lemma dirs_from_longer: "s \<in> dirs_from pos path \<Longrightarrow> pos < length path \<Longrightarrow> pos < length s"
  by (auto simp: dirs_from_def)

lemma c_str_id: "CHR 0x00 \<notin> set s \<Longrightarrow> c_str s = s"
  by (induction s) (auto simp: c_str_def)

lemma c_str_take: "CHR 0x00 \<notin> set s \<Longrightarrow> CHR 0x00 \<notin> set (take k s)"
  by (auto dest: in_set_takeD)

text \<open>The promise, for the directories \<open>C\<close> that are asked for.\<close>

definition dirs_made ::
    "(string list \<Rightarrow> string \<Rightarrow> mkdir_result) \<Rightarrow> string set \<Rightarrow> string list \<Rightarrow> bool \<times> string list \<Rightarrow> bool"
  where "dirs_made mkdir C dirs r \<longleftrightarrow>
    (\<exists>new. snd r = dirs @ new \<and> set new \<subseteq> C \<and> sorted_wrt (\<lambda>a b. length a < length b) new) \<and>
    (fst r \<longrightarrow> (\<forall>s\<in>C. s \<in> set (snd r) \<or> s = ''/'')) \<and>
    (\<not> fst r \<longrightarrow> (\<exists>s\<in>C. mkdir (snd r) s = MkFails))"

lemma mkdir_one_made:
  assumes "\<forall>ds s. mkdir ds s \<noteq> MkExists" and "CHR 0x00 \<notin> set sub" and "sub \<noteq> []"
  shows "dirs_made mkdir {sub} dirs (mkdir_one mkdir sub dirs)"
  using assms by (auto simp: dirs_made_def mkdir_one_def c_str_id split: mkdir_result.splits)

lemma dirs_made_insert:
  assumes "dirs_made mkdir {s} dirs (True, ds)" and "dirs_made mkdir C ds r"
    and "\<And>t. t \<in> C \<Longrightarrow> length s < length t"
  shows "dirs_made mkdir (insert s C) dirs r"
proof -
  from assms(1) obtain n1 where n1: "ds = dirs @ n1" "set n1 \<subseteq> {s}"
    "sorted_wrt (\<lambda>a b. length a < length b) n1" and s: "s \<in> set ds \<or> s = ''/''"
    by (auto simp: dirs_made_def)
  from assms(2) obtain n2 where n2: "snd r = ds @ n2" "set n2 \<subseteq> C"
    "sorted_wrt (\<lambda>a b. length a < length b) n2"
    by (auto simp: dirs_made_def)
  have "sorted_wrt (\<lambda>a b. length a < length b) (n1 @ n2)"
    using n1 n2 assms(3) by (auto simp: sorted_wrt_append)
  then have "\<exists>new. snd r = dirs @ new \<and> set new \<subseteq> insert s C \<and>
      sorted_wrt (\<lambda>a b. length a < length b) new"
    using n1 n2 by (intro exI [of _ "n1 @ n2"]) auto
  with assms(2) s n2(1) show ?thesis by (auto simp: dirs_made_def)
qed

lemma dirs_made_fail: "dirs_made mkdir {s} dirs (False, ds) \<Longrightarrow> dirs_made mkdir (insert s C) dirs (False, ds)"
  by (auto simp: dirs_made_def)

lemma mkdir_loop_made:
  assumes "\<forall>ds s. mkdir ds s \<noteq> MkExists" and "CHR 0x00 \<notin> set path" and "pos < length path"
  shows "dirs_made mkdir (dirs_from pos path) dirs (mkdir_loop mkdir path pos dirs)"
  using assms
proof (induction mkdir path pos dirs rule: mkdir_loop.induct)
  case (1 mkdir path pos dirs)
  show ?case
  proof (cases "find_char_from path (CHR ''/'') (Suc pos)")
    case None
    from "1.prems" have "path \<noteq> []" by auto
    with "1.prems" None show ?thesis
      by (simp add: mkdir_loop.simps [of mkdir path pos] dirs_from_None mkdir_one_made)
  next
    case (Some q)
    from find_char_from_Some [OF Some] have q: "q < length path" "0 < q" by auto
    obtain ok ds where one: "mkdir_one mkdir (take q path) dirs = (ok, ds)" by fastforce
    have "dirs_made mkdir {take q path} dirs (mkdir_one mkdir (take q path) dirs)"
      by (rule mkdir_one_made) (use "1.prems" q c_str_take in auto)
    then have m: "dirs_made mkdir {take q path} dirs (ok, ds)" by (simp add: one)
    show ?thesis
    proof (cases ok)
      case True
      with one Some "1.IH" [OF Some _ _ _ _ q(1)] "1.prems"(1,2)
      have rest: "dirs_made mkdir (dirs_from q path) ds (mkdir_loop mkdir path q ds)" by simp
      have "length (take q path) < length t" if "t \<in> dirs_from q path" for t
        using dirs_from_longer [OF that q(1)] q(1) by simp
      from True m have "dirs_made mkdir {take q path} dirs (True, ds)" by simp
      from dirs_made_insert [OF this rest \<open>\<And>t. t \<in> dirs_from q path \<Longrightarrow> length (take q path) < length t\<close>]
      show ?thesis
        using one True Some by (simp add: mkdir_loop.simps [of mkdir path pos] dirs_from_Some)
    next
      case False
      with m have "dirs_made mkdir {take q path} dirs (False, ds)" by simp
      from dirs_made_fail [OF this, of "dirs_from q path"] show ?thesis
        using one False Some by (simp add: mkdir_loop.simps [of mkdir path pos] dirs_from_Some)
    qed
  qed
qed

text \<open>\<open>createDirectoryRecursive\<close> is \<open>mkdir -p\<close>: for a path without NUL it makes only
  directories of the path, every parent before its children and none twice; when it returns true,
  the path and all its parents exist (the root aside, which it never asks for); when it returns
  false, the path was empty or making one of them failed.\<close>

lemma createDirectoryRecursive_spec:
  assumes "\<forall>ds s. mkdir ds s \<noteq> MkExists" and "CHR 0x00 \<notin> set path"
    and "createDirectoryRecursive mkdir dirs path = (ok, dirs')"
  shows "(\<exists>new. dirs' = dirs @ new \<and> set new \<subseteq> dirs_from 0 path \<and>
            sorted_wrt (\<lambda>a b. length a < length b) new) \<and>
         (ok \<longrightarrow> path \<noteq> [] \<and> (\<forall>s\<in>dirs_from 0 path. s \<in> set dirs' \<or> s = ''/'')) \<and>
         (\<not> ok \<longrightarrow> path = [] \<or> (\<exists>s\<in>dirs_from 0 path. mkdir dirs' s = MkFails))"
proof (cases "path = []")
  case True
  with assms(3) show ?thesis by (simp add: createDirectoryRecursive_def)
next
  case False
  with mkdir_loop_made [OF assms(1,2), of 0 dirs] assms(3)
  have "dirs_made mkdir (dirs_from 0 path) dirs (ok, dirs')"
    by (simp add: createDirectoryRecursive_def)
  with False show ?thesis unfolding dirs_made_def by simp
qed

lemma createDirectoryRecursive_spec_witness:
  "createDirectoryRecursive (\<lambda>_ _. MkMade) [''/a''] ''/a/b/c'' = (True, [''/a'', ''/a/b'', ''/a/b/c''])
   \<and> ''/a/b'' \<in> dirs_from 0 ''/a/b/c''"
proof -
  have r: "createDirectoryRecursive (\<lambda>_ _. MkMade) [''/a''] ''/a/b/c''
      = (True, [''/a'', ''/a/b'', ''/a/b/c''])"
    by (simp add: createDirectoryRecursive_def mkdir_loop.simps find_char_from_def mkdir_one_def
        c_str_def)
  from createDirectoryRecursive_spec [OF _ _ r] have "{''/a/b'', ''/a/b/c''} \<subseteq> dirs_from 0 ''/a/b/c''"
    by auto
  with r show ?thesis by simp
qed

subsection \<open>The command line\<close>

definition goes_on :: "char \<Rightarrow> bool" where
  "goes_on o1 \<longleftrightarrow> o1 \<in> {CHR ''s'', CHR ''c'', CHR ''d'', CHR ''r'', CHR ''k''}"

text \<open>The last argument given with an option.\<close>

definition last_arg :: "char \<Rightarrow> (char \<times> string) list \<Rightarrow> string \<Rightarrow> string" where
  "last_arg o1 args dflt =
     (case find (\<lambda>(o', _). o' = o1) (rev args) of None \<Rightarrow> dflt | Some (_, a) \<Rightarrow> a)"

lemma find_append:
  "find P (xs @ ys) = (case find P xs of None \<Rightarrow> find P ys | Some x \<Rightarrow> Some x)"
  by (induction xs) auto

lemma last_arg_Cons:
  "last_arg o1 ((o', a) # args) dflt = last_arg o1 args (if o' = o1 then a else dflt)"
  by (simp add: last_arg_def find_append split: option.splits)

lemma last_arg_Nil [simp]: "last_arg o1 [] dflt = dflt"
  by (simp add: last_arg_def)

text \<open>The command line is read from the left: the first option that is none of \<open>s c d r k\<close> ends the
  program, with code 0 for \<open>g\<close> and \<open>v\<close> and -1 for everything else, whatever follows it; without
  such an option the program goes on with the last configuration file and root folder given (or the
  defaults), in the foreground exactly if \<open>s\<close> was given, and with the keys given by \<open>k\<close> decoded
  into the key one over the other.\<close>

lemma parse_options_spec:
  "parse_options hex args s =
     (case find (\<lambda>(o1, _). \<not> goes_on o1) args of
        Some (o1, _) \<Rightarrow> Inl (if o1 = CHR ''g'' \<or> o1 = CHR ''v'' then 0 else - 1)
      | None \<Rightarrow> Inr (s\<lparr>op_standalone := (op_standalone s \<or> CHR ''s'' \<in> fst ` set args),
                     op_cfgfile := last_arg (CHR ''c'') args (op_cfgfile s),
                     op_rootFolder := last_arg (CHR ''r'') args (op_rootFolder s),
                     op_key := foldl (\<lambda>key (o1, a). if o1 = CHR ''k'' then snd (hex key 32 a) else key)
                                 (op_key s) args\<rparr>))"
proof (induction args arbitrary: s)
  case (Cons x args)
  obtain o1 a where x: "x = (o1, a)" by (cases x)
  show ?case
    by (cases "goes_on o1")
       (auto simp: x goes_on_def last_arg_Cons Cons.IH split: option.splits)
qed simp

subsection \<open>Log sinks\<close>

text \<open>Whether a message of level \<open>l\<close> is written to the file \<open>path\<close>.\<close>

definition logged :: "log_sink list \<Rightarrow> string \<Rightarrow> log_level \<Rightarrow> bool" where
  "logged sinks path l \<longleftrightarrow>
     list_ex (\<lambda>s. case s of FileSink q lv \<Rightarrow> q = path \<and> lv \<le> l | _ \<Rightarrow> False) sinks"

text \<open>The syslog and UDP sinks that \<open>init\<close> sets up from the configuration do not survive: once
  \<open>main\<close> has set its own logger, the default logger has exactly a console and a file sink, with the
  configured levels, or switched off. In between, \<open>init\<close> logs every message to the log file even
  when file logging is disabled; from then on the file gets those of at least the configured level,
  and none when it is disabled.\<close>

lemma configured_sinks_dropped:
  assumes "init_logging S p = (Inr True, p1)"
    and "main_logging log_file mkdir dirs p1 = Some (dirs', p2)" and "l < L_off"
  shows "let g = co_log (pr_ctl p); file = c_str (lg_path_to_log_file g)
         in logged (pr_sinks p1) file l \<and>
            (lg_bEnableSysLog g \<longrightarrow> SyslogSink (c_str (lg_sysLogIdent g)) (lg_sysLogLevel g) \<in> set (pr_sinks p1)) \<and>
            map (\<lambda>s. case s of ConsoleSink _ \<Rightarrow> True | FileSink f _ \<Rightarrow> f = file | _ \<Rightarrow> False) (pr_sinks p2)
              = [True, True] \<and>
            (logged (pr_sinks p2) file l \<longleftrightarrow> lg_bEnableFileLog g \<and> lg_fileLogLevel g \<le> l)"
proof -
  have off: "\<not> L_off \<le> l" using assms(3) by simp
  show ?thesis using assms(1,2) off
    by (auto simp: init_logging_def main_logging_def main_console_def main_file_def logged_def Let_def
          split: if_splits)
qed

lemma configured_sinks_dropped_witness:
  "\<exists>S p p1 p2. init_logging S p = (Inr True, p1) \<and> SyslogSink ''mqttvscpd'' L_info \<in> set (pr_sinks p1) \<and>
     main_logging (\<lambda>_. True) (\<lambda>_ _. MkMade) [] p1 = Some ([''/var'', ''/var/log'', ''/var/log/vscp''], p2) \<and>
     logged (pr_sinks p1) ''/var/log/vscp/mqttvscpd.log'' L_debug \<and>
     \<not> logged (pr_sinks (p2 :: (u8 list, nat, jv, nat) process)) ''/var/log/vscp/mqttvscpd.log'' L_critical"
proof -
  let ?S = "\<lparr>os_user = (\<lambda>_. None), os_setgid = (\<lambda>_. True), os_setuid = (\<lambda>_. True),
              os_log_file = (\<lambda>_. True), os_udp = (\<lambda>_ _. True), os_socket = True,
              os_hwaddr = None, os_host = None, os_junk = [], os_now = []\<rparr>"
  let ?p = "on_ctl (\<lambda>c. c\<lparr>co_log := default_log\<lparr>lg_bEnableSysLog := True\<rparr>\<rparr>) process0"
  obtain p1 where p1: "init_logging ?S ?p = (Inr True, p1)"
    by (simp add: init_logging_def Let_def)
  then have "co_log (pr_ctl p1) = default_log\<lparr>lg_bEnableSysLog := True\<rparr>"
    using logging_kept [OF p1] by simp
  then obtain p2 where p2: "main_logging (\<lambda>_. True) (\<lambda>_ _. MkMade) [] p1
      = Some ([''/var'', ''/var/log'', ''/var/log/vscp''], p2)"
    by (simp add: main_logging_def main_log_dir_def default_log_def find_last_of_def Let_def
        createDirectoryRecursive_def mkdir_loop.simps find_char_from_def mkdir_one_def c_str_def)
  have "SyslogSink ''mqttvscpd'' L_info \<in> set (pr_sinks p1)"
    "logged (pr_sinks p1) ''/var/log/vscp/mqttvscpd.log'' L_debug"
    using configured_sinks_dropped [OF p1 p2, of L_debug]
    by (simp_all add: default_log_def Let_def c_str_def level_le)
  moreover have "\<not> logged (pr_sinks p2) ''/var/log/vscp/mqttvscpd.log'' L_critical"
    using configured_sinks_dropped [OF p1 p2, of L_critical]
    by (simp add: default_log_def Let_def c_str_def level_le)
  ultimately show ?thesis using p1 p2 by blast
qed

subsection \<open>The pid file\<close>

text \<open>Whether a file is there after a sequence of actions.\<close>

fun present :: "string \<Rightarrow> bool \<Rightarrow> file_action list \<Rightarrow> bool" where
  "present path b [] = b"
| "present path b (WriteFile q s # acts) = present path (q = path \<or> b) acts"
| "present path b (Unlink q # acts) = present path (q \<noteq> path \<and> b) acts"
| "present path b (_ # acts) = present path b acts"

lemma present_append: "present path b (xs @ ys) = present path (present path b xs) ys"
  by (induction path b xs rule: present.induct) auto

text \<open>C40: The pid file. When the daemon could write it and could enter its root folder, it is removed
  when \<open>init\<close> or \<open>run\<close> fails, but it is still there after every regular shutdown (exit code 0), which
  removes another file; it also stays when the program ends, with code 1, because its log file cannot
  be opened, and, before the daemon has even started, it is removed when the root folder cannot be entered.\<close>

theorem pid_file_after_main:
  assumes "parse_options hex args default_options = Inr s" and "\<not> op_standalone s"
    and "mo_fork OS = ForkChild" and "0 \<le> mo_setsid OS" and "mo_pid_writable OS"
    and "daemon_main hex OS initf runf G M ids args = (e, acts)"
  shows "(mo_chdir OS (c_str (op_rootFolder s)) \<longrightarrow>
            (e = Exits 0 \<longrightarrow> present pid_path False acts) \<and>
            (e = Exits 1 \<longrightarrow> mo_log_file OS = (\<lambda>_. True) \<longrightarrow> \<not> present pid_path False acts) \<and>
            (\<forall>p. initf (op_cfgfile s) (op_rootFolder s) (main_process G M ids s) = (Inr True, p) \<and>
                 \<not> mo_log_file OS (c_str (lg_path_to_log_file (co_log (pr_ctl p)))) \<longrightarrow>
               e = Exits 1 \<and> present pid_path False acts)) \<and>
         (\<not> mo_chdir OS (c_str (op_rootFolder s)) \<longrightarrow> \<not> present pid_path False acts)"
proof -
  obtain e' acts' where c: "main_control OS initf runf s (main_process G M ids s) = (e', acts')"
    by fastforce
  from assms have m: "e = e'" "acts = main_pid OS s (mo_setsid OS) @ main_chdir OS s @ acts'"
    by (auto simp: daemon_main_def daemonize_def c)
  have w: "present pid_path False (main_pid OS s (mo_setsid OS))"
    using assms(2,5) by (simp add: main_pid_def writePidFile_def)
  have ctl: "(e' = Exits 0 \<longrightarrow> present pid_path b acts' = b) \<and>
      (e' = Exits 1 \<longrightarrow> mo_log_file OS = (\<lambda>_. True) \<longrightarrow> \<not> present pid_path b acts') \<and>
      (\<not> b \<longrightarrow> \<not> present pid_path b acts')" for b
    using c by (auto simp: main_control_def main_logging_def pid_path_def Let_def
        split: prod.splits sum.splits bool.splits option.splits run_end.splits if_splits)
  have no_log: "e' = Exits 1 \<and> acts' = []"
    if "initf (op_cfgfile s) (op_rootFolder s) (main_process G M ids s) = (Inr True, p)"
      "\<not> mo_log_file OS (c_str (lg_path_to_log_file (co_log (pr_ctl p))))" for p
    using c that by (simp add: main_control_def main_logging_def Let_def)
  show ?thesis using w ctl [of True] ctl [of False] no_log
    by (auto simp: m present_append main_chdir_def pid_path_def)
qed

theorem pid_file_after_main_witness:
  "\<exists>OS e acts. mo_fork OS = ForkChild \<and>
     daemon_main (\<lambda>k n s. (0, k)) OS (\<lambda>cfg root p. (Inr True, p))
       (\<lambda>c :: (u8 list, nat, jv, nat) control. Some (RunReturns True c)) guid0 (mqtt0 :: (_, nat) mqtt_api) (0, 0) [] = (e, acts) \<and> e = Exits 0 \<and>
     present pid_path False acts"
proof -
  let ?O = "\<lparr>mo_fork = ForkChild, mo_setsid = 7, mo_pid_writable = True, mo_chdir = (\<lambda>_. True),
              mo_log_file = (\<lambda>_. True), mo_mkdir = (\<lambda>_ _. MkMade), mo_dirs = []\<rparr>"
  obtain e acts where m: "daemon_main (\<lambda>k n s. (0, k)) ?O (\<lambda>cfg root p. (Inr True, p))
      (\<lambda>c :: (u8 list, nat, jv, nat) control. Some (RunReturns True c)) guid0 (mqtt0 :: (_, nat) mqtt_api) (0, 0) [] = (e, acts)"
    by fastforce
  then have "e = Exits 0"
    by (auto simp: daemon_main_def daemonize_def main_control_def main_logging_def default_options_def
        Let_def)
  moreover have "present pid_path False acts"
    using pid_file_after_main [OF _ _ _ _ _ m, of default_options] \<open>e = Exits 0\<close>
    by (simp add: default_options_def)
  ultimately show ?thesis using m by (intro exI [of _ ?O] exI [of _ e] exI [of _ acts]) simp
qed

subsection \<open>Exit code 0\<close>

text \<open>A \<open>main\<close> that has got past its options and the fork ends with code 0 only after a successful
  \<open>init\<close> and \<open>run\<close>, and does so whenever both succeed and the log file can be opened.\<close>

lemma main_logging_ctl:
  "main_logging log_file mkdir dirs p = Some (dirs', p') \<Longrightarrow> pr_ctl p' = pr_ctl p"
  by (auto simp: main_logging_def Let_def split: if_splits)

text \<open>All the ways to exit code 0: the licence or the version was asked for, the process is the parent of
  the daemon, or the daemon has lived its life.\<close>

lemma main_exits_0_cases:
  assumes "daemon_main hex OS initf runf G M ids args = (Exits 0, acts)"
  obtains (message) o1 a where "find (\<lambda>(o1, _). \<not> goes_on o1) args = Some (o1, a)" and "o1 \<in> set ''gv''" and "acts = []"
    | (parent) s where "parse_options hex args default_options = Inr s" and "\<not> op_standalone s"
        and "mo_fork OS = ForkParent" and "acts = []"
    | (life) s p c where "parse_options hex args default_options = Inr s"
        and "op_standalone s \<or> mo_fork OS = ForkChild \<and> 0 \<le> mo_setsid OS"
        and "initf (op_cfgfile s) (op_rootFolder s) (main_process G M ids s) = (Inr True, p)"
        and "mo_log_file OS (c_str (lg_path_to_log_file (co_log (pr_ctl p))))"
        and "runf (pr_ctl p) = Some (RunReturns True c)"
        and "acts = main_pid OS s (mo_setsid OS) @ main_chdir OS s @ [Unlink ''/var/run/vscp/vscpd.pid'']"
proof (cases "parse_options hex args default_options")
  case (Inl code)
  with assms have e: "code = 0" "acts = []" by (simp_all add: daemon_main_def)
  from Inl obtain o1 a where o: "find (\<lambda>(o1, _). \<not> goes_on o1) args = Some (o1, a)"
    "code = (if o1 = CHR ''g'' \<or> o1 = CHR ''v'' then 0 else - 1)"
    unfolding parse_options_spec by (auto split: option.splits)
  then show ?thesis using e by (intro message [of o1 a]) (auto split: if_splits)
next
  case (Inr s)
  show ?thesis
  proof (cases "daemonize (op_standalone s) (mo_fork OS) (mo_setsid OS)")
    case D_Fails
    with assms Inr show ?thesis by (simp add: daemon_main_def)
  next
    case D_ParentExits
    then have "\<not> op_standalone s" "mo_fork OS = ForkParent"
      by (auto simp: daemonize_def split: if_splits fork_result.splits)
    moreover from D_ParentExits assms Inr have "acts = []" by (simp add: daemon_main_def)
    ultimately show ?thesis using Inr by (intro parent)
  next
    case (D_Runs sid)
    then have d: "op_standalone s \<or> mo_fork OS = ForkChild \<and> 0 \<le> mo_setsid OS"
      "main_pid OS s sid = main_pid OS s (mo_setsid OS)"
      by (auto simp: daemonize_def main_pid_def split: if_splits fork_result.splits)
    obtain e' acts' where m: "main_control OS initf runf s (main_process G M ids s) = (e', acts')" by fastforce
    with assms Inr D_Runs have a: "e' = Exits 0" "acts = main_pid OS s sid @ main_chdir OS s @ acts'"
      by (simp_all add: daemon_main_def)
    from m a(1) obtain p c where "initf (op_cfgfile s) (op_rootFolder s) (main_process G M ids s) = (Inr True, p)"
      "mo_log_file OS (c_str (lg_path_to_log_file (co_log (pr_ctl p))))" "runf (pr_ctl p) = Some (RunReturns True c)"
      "acts' = [Unlink ''/var/run/vscp/vscpd.pid'']"
      by (auto simp: main_control_def main_logging_def Let_def
          split: prod.splits sum.splits bool.splits option.splits run_end.splits if_splits)
    with Inr d a(2) show ?thesis by (intro life) simp_all
  qed
qed

lemma main_exits_0I:
  assumes "parse_options hex args default_options = Inr s"
    and "daemonize (op_standalone s) (mo_fork OS) (mo_setsid OS) = D_Runs sid"
    and "initf (op_cfgfile s) (op_rootFolder s) (main_process G M ids s) = (Inr True, p)"
    and "mo_log_file OS (c_str (lg_path_to_log_file (co_log (pr_ctl p))))"
    and "runf (pr_ctl p) = Some (RunReturns True c)"
  shows "\<exists>acts. daemon_main hex OS initf runf G M ids args = (Exits 0, acts)"
  using assms by (simp add: daemon_main_def main_control_def main_logging_def Let_def)

end
