(* ===== verification/CommandLine.thy ===== *)
theory CommandLine
  imports DaemonCorrect
begin

text \<open>
  From \<open>argv\<close> to the settings of \<open>main\<close> (\<open>mqttvscpd.cpp\<close>): the option string, the loop over the results
  of \<open>getopt\<close> (\<open>Daemon.parse_options\<close>), what is written to the standard error stream by \<open>help\<close>,
  \<open>copyleft\<close> and \<open>-v\<close>, and what is handed to the console logger, which writes to standard output.
  \<open>getopt\<close> belongs to the C library; what it documents is written out here for any option string, for
  an environment without \<open>POSIXLY_CORRECT\<close>: operands are passed over, \<open>--\<close> ends the options. The option
  string is the program's.
\<close>

subsection \<open>The option string, and \<open>getopt\<close>\<close>

definition option_string :: string where
  "option_string = ''d:c:r:k:hgsv''"

text \<open>Whether an option string has a letter, and whether the letter takes an argument.\<close>

fun opt_kind :: "string \<Rightarrow> char \<Rightarrow> bool option" where
  "opt_kind [] c = None"
| "opt_kind (x # xs) c =
     (if x = c \<and> c \<noteq> CHR '':'' then Some (xs \<noteq> [] \<and> hd xs = CHR '':'') else opt_kind xs c)"

text \<open>An element of \<open>argv\<close> that holds options: a dash and at least one more character.\<close>

definition is_option :: "string \<Rightarrow> bool" where
  "is_option a \<longleftrightarrow> length a \<ge> 2 \<and> hd a = CHR ''-''"

text \<open>\<open>cluster\<close> is what is left of the element being read, \<open>args\<close> the elements after it. The results
  are the returned characters with \<open>optarg\<close>; \<open>?\<close> is an unknown option or a missing argument.\<close>

function getopt :: "string \<Rightarrow> string \<Rightarrow> string list \<Rightarrow> (char \<times> string) list" where
  "getopt os (c # cluster) args =
     (case opt_kind os c of
        Some True \<Rightarrow>
          (if cluster \<noteq> [] then (c, cluster) # getopt os [] args
           else (case args of [] \<Rightarrow> [(CHR ''?'', [])] | a # rest \<Rightarrow> (c, a) # getopt os [] rest))
      | Some False \<Rightarrow> (c, []) # getopt os cluster args
      | None \<Rightarrow> (CHR ''?'', []) # getopt os cluster args)"
| "getopt os [] (a # args) =
     (if a = ''--'' then [] else if is_option a then getopt os (tl a) args else getopt os [] args)"
| "getopt os [] [] = []"
  by pat_completeness auto

termination
  by (relation "measure (\<lambda>(os, cluster, args). length cluster + sum_list (map (\<lambda>a. Suc (length a)) args))") auto

subsection \<open>Texts\<close>

definition line :: "string \<Rightarrow> string" where
  "line s = s @ [CHR 0x0A]"

definition tab :: string where
  "tab = [CHR 0x09]"

definition MQTTVSCPD_COPYRIGHT :: string where
  "MQTTVSCPD_COPYRIGHT =
     ''Copyright (C) 2000-2026 Ake Hedman, contributors, the VSCP project, '' @ ''https://www.vscp.org''"

definition license_lines :: "string list" where
  "license_lines =
     [''The MIT License (MIT)'',
      ''Copyright (C) 2000-2026 Ake Hedman,  contributors,, contributors, the VSCP project'',
      ''<info@vscp.org>'',
      [],
      ''Permission is hereby granted, free of charge, to any person obtaining a copy'',
      ''of this software and associated documentation files (the '' @ quote @ ''Software'' @ quote @ ''), to deal'',
      ''in the Software without restriction, including without limitation the rights'',
      ''to use, copy, modify, merge, publish, distribute, sublicense, and/or sell'',
      ''copies of the Software, and to permit persons to whom the Software is'',
      ''furnished to do so, subject to the following conditions:'',
      [],
      ''The above copyright notice and this permission notice shall be included in'',
      ''all copies or substantial portions of the Software.'',
      [],
      ''THE SOFTWARE IS PROVIDED '' @ quote @ ''AS IS'' @ quote @ '', WITHOUT WARRANTY OF ANY KIND, EXPRESS OR'',
      ''IMPLIED, INCLUDING BUT NOT LIMITED TO THE WARRANTIES OF MERCHANTABILITY,'',
      ''FITNESS FOR A PARTICULAR PURPOSE AND NONINFRINGEMENT. IN NO EVENT SHALL THE'',
      ''AUTHORS OR COPYRIGHT HOLDERS BE LIABLE FOR ANY CLAIM, DAMAGES OR OTHER'',
      ''LIABILITY, WHETHER IN AN ACTION OF CONTRACT, TORT OR OTHERWISE, ARISING FROM,'',
      ''OUT OF OR IN CONNECTION WITH THE SOFTWARE OR THE USE OR OTHER DEALINGS IN THE'',
      ''SOFTWARE.'']"

definition copyleft :: string where
  "copyleft =
     line [] @ line [] @ ''vscpd - '' @ MQTTVSCPD_DISPLAY_VERSION @ line [] @
     MQTTVSCPD_COPYRIGHT @ line [] @ line [] @ concat (map line license_lines) @ line []"

definition print_help :: "string \<Rightarrow> string" where
  "print_help szPrgname =
     concat (map line
       [''Usage: '' @ szPrgname @ '' [-hg] [-r rootfolder] [-c config-file] [-k key] '' @ ''-dd0,d1,d2...'',
        tab @ ''-h'' @ tab @ ''This help message.'',
        tab @ ''-v'' @ tab @ ''Print version. '',
        tab @ ''-s'' @ tab @ ''Standalone (don'' @ quote @ ''t run as daemon). '',
        tab @ ''-r'' @ tab @ ''Specify VSCP root folder (default:'' @ op_rootFolder default_options @ ''). '',
        tab @ ''-c'' @ tab @ ''Specify a configuration file (with path). '',
        tab @ ''-k'' @ tab @ ''32 byte encryption key string in hex format. '',
        ''that should be used (default: '' @ op_cfgfile default_options @ '').'',
        tab @ ''-g'' @ tab @ ''Print MIT license.''])"

text \<open>What the loop over the options writes to the standard error stream.\<close>

fun option_output :: "string \<Rightarrow> (char \<times> string) list \<Rightarrow> string" where
  "option_output prg [] = []"
| "option_output prg ((opt, optarg) # rest) =
     (if opt \<in> set ''scdrk'' then option_output prg rest
      else if opt = CHR ''g'' then copyleft
      else if opt = CHR ''v'' then line MQTTVSCPD_DISPLAY_VERSION
      else print_help prg)"

text \<open>What is handed to the console logger, as the template and the arguments: by the loop over the
  options, and behind it up to the start of the daemon. The logger formats in the manner of \<open>{}\<close>, so
  that of the templates with \<open>%s\<close> the arguments do not show.\<close>

type_synonym log_call = "string \<times> fmt_arg list"

fun option_log :: "(char \<times> string) list \<Rightarrow> log_call list" where
  "option_log [] = []"
| "option_log ((opt, optarg) # rest) =
     (if opt = CHR ''s'' then
        (''I will ***NOT*** run as a daemon! (use ctrl+c to terminate)'', []) # option_log rest
      else if opt = CHR ''c'' then option_log rest
      else if opt = CHR ''d'' then (line ''Debug flags=%s'', [FStr optarg]) # option_log rest
      else if opt = CHR ''r'' then (''Will use rootfolder = %s'', [FStr (c_str optarg)]) # option_log rest
      else if opt = CHR ''k'' then option_log rest
      else [])"

definition start_log :: "main_os \<Rightarrow> options \<Rightarrow> log_call list" where
  "start_log OS s =
     [(''Starting the VSCP MQTT daemon...'', []), (''Configfile = {}'', [FStr (op_cfgfile s)])] @
     (case daemonize (op_standalone s) (mo_fork OS) (mo_setsid OS) of
        D_Fails \<Rightarrow> [(''Failed to initialize daemon process.'', [])] | _ \<Rightarrow> [])"

definition main_log ::
    "(u8 list \<Rightarrow> nat \<Rightarrow> string \<Rightarrow> nat \<times> u8 list) \<Rightarrow> main_os \<Rightarrow> (char \<times> string) list \<Rightarrow> log_call list" where
  "main_log hex OS opts =
     option_log opts @
     (case parse_options hex opts default_options of Inl code \<Rightarrow> [] | Inr s \<Rightarrow> start_log OS s)"

text \<open>The program from its command line: how it ends with its actions on files, the standard error
  stream, and the calls of the console logger up to the start of the daemon.\<close>

definition program ::
    "(u8 list \<Rightarrow> nat \<Rightarrow> string \<Rightarrow> nat \<times> u8 list) \<Rightarrow> main_os
       \<Rightarrow> (string \<Rightarrow> string \<Rightarrow> ('g, 'm, 'j, 'db) process init_step)
       \<Rightarrow> (('g, 'm, 'j, 'db) control \<Rightarrow> ('g, 'm, 'j, 'db) run_end option)
       \<Rightarrow> 'g guid_api \<Rightarrow> ('g, 'm) mqtt_api \<Rightarrow> nat \<times> nat \<Rightarrow> string list
       \<Rightarrow> (main_end \<times> file_action list) \<times> string \<times> log_call list" where
  "program hex OS initf runf G M ids argv =
     (let prg = (case argv of [] \<Rightarrow> [] | a # _ \<Rightarrow> a); opts = getopt option_string [] (tl argv)
      in (daemon_main hex OS initf runf G M ids opts, option_output prg opts, main_log hex OS opts))"

subsection \<open>The command line as it is documented\<close>

text \<open>The letters of the usage text: with an argument, and without.\<close>

definition takes_arg :: "char \<Rightarrow> bool" where
  "takes_arg c \<longleftrightarrow> c \<in> set ''dcrk''"

definition is_flag :: "char \<Rightarrow> bool" where
  "is_flag c \<longleftrightarrow> c \<in> set ''hgsv''"

lemma option_string_kind:
  "opt_kind option_string c = (if takes_arg c then Some True else if is_flag c then Some False else None)"
  unfolding option_string_def takes_arg_def is_flag_def by auto

text \<open>The words of a command line: an operand, or one dash with flags and at most one option with an
  argument behind them, the argument in the same element of \<open>argv\<close> or in the next one.\<close>

datatype cmd_word = Operand string | Flags string | WithArg string char string | WithNext string char string

fun word_ok :: "cmd_word \<Rightarrow> bool" where
  "word_ok (Operand a) \<longleftrightarrow> \<not> is_option a"
| "word_ok (Flags fs) \<longleftrightarrow> fs \<noteq> [] \<and> list_all is_flag fs"
| "word_ok (WithArg fs c v) \<longleftrightarrow> list_all is_flag fs \<and> takes_arg c \<and> v \<noteq> []"
| "word_ok (WithNext fs c v) \<longleftrightarrow> list_all is_flag fs \<and> takes_arg c"

fun word_args :: "cmd_word \<Rightarrow> string list" where
  "word_args (Operand a) = [a]"
| "word_args (Flags fs) = [CHR ''-'' # fs]"
| "word_args (WithArg fs c v) = [CHR ''-'' # fs @ c # v]"
| "word_args (WithNext fs c v) = [CHR ''-'' # fs @ [c], v]"

fun word_options :: "cmd_word \<Rightarrow> (char \<times> string) list" where
  "word_options (Operand a) = []"
| "word_options (Flags fs) = map (\<lambda>f. (f, [])) fs"
| "word_options (WithArg fs c v) = map (\<lambda>f. (f, [])) fs @ [(c, v)]"
| "word_options (WithNext fs c v) = map (\<lambda>f. (f, [])) fs @ [(c, v)]"

text \<open>The operands after \<open>--\<close>, or none.\<close>

definition ends_options :: "string list \<Rightarrow> bool" where
  "ends_options tail \<longleftrightarrow> tail = [] \<or> hd tail = ''--''"

lemma flag_no_arg: "is_flag c \<Longrightarrow> \<not> takes_arg c"
  by (auto simp: is_flag_def takes_arg_def)

lemma getopt_flags:
  "list_all is_flag fs \<Longrightarrow>
     getopt option_string (fs @ cs) args = map (\<lambda>f. (f, [])) fs @ getopt option_string cs args"
  by (induction fs) (simp_all add: flag_no_arg option_string_kind)

lemma getopt_tail: "ends_options tail \<Longrightarrow> getopt os [] tail = []"
  by (cases tail) (simp_all add: ends_options_def)

lemma dash_option [simp]: "is_option (CHR ''-'' # cs) \<longleftrightarrow> cs \<noteq> []"
  by (cases cs) (simp_all add: is_option_def)

lemma dash_no_letter: "\<not> is_flag (CHR ''-'')" "\<not> takes_arg (CHR ''-'')"
  by (simp_all add: is_flag_def takes_arg_def)

lemma getopt_dash:
  assumes "list_all is_flag fs" and "cs = [] \<or> takes_arg (hd cs)" and "fs @ cs \<noteq> []"
  shows "getopt option_string [] ((CHR ''-'' # fs @ cs) # args) =
           map (\<lambda>f. (f, [])) fs @ getopt option_string cs args"
proof -
  have "fs @ cs \<noteq> ''-''" using assms(1,2) dash_no_letter by (cases fs) auto
  with assms(3) show ?thesis by (simp add: getopt_flags [OF assms(1)])
qed

lemma getopt_word:
  "word_ok w \<Longrightarrow>
     getopt option_string [] (word_args w @ args) = word_options w @ getopt option_string [] args"
  by (cases w) (use getopt_dash [of _ "[]"] in
    \<open>auto simp: getopt_dash is_option_def option_string_kind simp del: getopt.simps(2)\<close>,
    auto simp: is_option_def)

subsection \<open>What the command line does\<close>

lemma parse_goes_on:
  "parse_options hex (as @ bs) s =
     (case find (\<lambda>(o1, _). \<not> goes_on o1) as of
        Some (o1, _) \<Rightarrow> Inl (if o1 = CHR ''g'' \<or> o1 = CHR ''v'' then 0 else - 1)
      | None \<Rightarrow> (case parse_options hex as s of Inl n \<Rightarrow> Inl n | Inr s' \<Rightarrow> parse_options hex bs s'))"
  by (induction as arbitrary: s) (auto simp: goes_on_def split: option.splits)

lemma find_SomeD: "find P xs = Some x \<Longrightarrow> x \<in> set xs \<and> P x"
  by (induction xs) (auto split: if_splits)

lemma parse_all_go_on:
  "find (\<lambda>(o1, _). \<not> goes_on o1) opts = None \<Longrightarrow> \<exists>s'. parse_options hex opts s = Inr s'"
  by (induction opts arbitrary: s) (auto simp: goes_on_def split: if_splits)

lemma output_goes_on:
  "option_output prg (as @ bs) =
     (case find (\<lambda>(o1, _). \<not> goes_on o1) as of
        Some (o1, _) \<Rightarrow> (if o1 = CHR ''g'' then copyleft
                         else if o1 = CHR ''v'' then line MQTTVSCPD_DISPLAY_VERSION else print_help prg)
      | None \<Rightarrow> option_output prg bs)"
  by (induction as) (auto simp: goes_on_def)

lemma log_goes_on:
  "option_log (as @ bs) =
     (case find (\<lambda>(o1, _). \<not> goes_on o1) as of
        Some x \<Rightarrow> option_log as | None \<Rightarrow> option_log as @ option_log bs)"
  by (induction as) (auto simp: goes_on_def split: option.splits)

text \<open>An unknown option letter, or an option at the end of the command line whose argument is
  missing, ends the program at once with code -1 and the usage text on the standard error stream:
  nothing is forked and no file read or written, however the command line goes on. Only a \<open>-g\<close> or \<open>-v\<close> before it
  makes the code 0, and the text the licence or the version.\<close>

lemma bad_option_ends_program:
  assumes "list_all word_ok ws" and "list_all is_flag fs"
    and "bad = (CHR ''-'' # fs @ c # others) # rest" and "c \<noteq> CHR ''-''"
    and "\<not> is_flag c \<and> \<not> takes_arg c \<or> takes_arg c \<and> others = [] \<and> rest = []"
  shows "let opts = concat (map word_options ws) @ map (\<lambda>f. (f, [])) fs;
             ends = find (\<lambda>(o1, _). \<not> goes_on o1) opts
         in program hex OS initf runf G M ids (prg # concat (map word_args ws) @ bad) =
              (case ends of
                 Some (o1, _) \<Rightarrow>
                   ((Exits (if o1 = CHR ''g'' \<or> o1 = CHR ''v'' then 0 else - 1), []),
                    if o1 = CHR ''g'' then copyleft
                    else if o1 = CHR ''v'' then line MQTTVSCPD_DISPLAY_VERSION else print_help prg,
                    option_log opts)
               | None \<Rightarrow> ((Exits (- 1), []), print_help prg, option_log opts))"
proof -
  let ?opts = "concat (map word_options ws) @ map (\<lambda>f. (f, [])) fs"
  have "fs @ c # others \<noteq> ''-''" using assms(2,4) dash_no_letter by (cases fs) auto
  then have "getopt option_string [] bad = map (\<lambda>f. (f, [])) fs @ getopt option_string (c # others) rest"
    by (simp add: assms(3) getopt_flags [OF assms(2)])
  moreover obtain q where "getopt option_string (c # others) rest = (CHR ''?'', []) # q"
    using assms(5) by (auto simp: option_string_kind flag_no_arg)
  moreover have "getopt option_string [] (concat (map word_args ws) @ bad) =
      concat (map word_options ws) @ getopt option_string [] bad"
    using assms(1) by (induction ws) (simp_all add: getopt_word)
  ultimately have *: "getopt option_string [] (concat (map word_args ws) @ bad) = ?opts @ (CHR ''?'', []) # q"
    by simp
  have q: "parse_options hex ((CHR ''?'', []) # q) s = Inl (- 1)" "option_output prg ((CHR ''?'', []) # q) = print_help prg"
    "option_log ((CHR ''?'', []) # q) = []" for s by simp_all
  have run: "program hex OS initf runf G M ids (prg # concat (map word_args ws) @ bad) =
      (daemon_main hex OS initf runf G M ids (?opts @ (CHR ''?'', []) # q),
       option_output prg (?opts @ (CHR ''?'', []) # q), main_log hex OS (?opts @ (CHR ''?'', []) # q))"
    by (simp only: program_def list.case list.sel * Let_def)
  show ?thesis
  proof (cases "find (\<lambda>(o1, _). \<not> goes_on o1) ?opts")
    case None
    then obtain s' where "parse_options hex ?opts default_options = Inr s'" using parse_all_go_on by blast
    with None q show ?thesis
      unfolding run Let_def daemon_main_def main_log_def parse_goes_on [of hex ?opts]
        output_goes_on [of prg ?opts] log_goes_on [of ?opts] by simp
  next
    case (Some x)
    then show ?thesis
      unfolding run Let_def daemon_main_def main_log_def parse_goes_on [of hex ?opts]
        output_goes_on [of prg ?opts] log_goes_on [of ?opts] by (cases x) simp
  qed
qed

lemma bad_option_ends_program_witness:
  "program (\<lambda>k n s. (0, k)) OS initf runf G M ids [''vscpd'', ''-s'', ''-x'', ''-c'', ''a.json''] =
     ((Exits (- 1), []), print_help ''vscpd'',
      [(''I will ***NOT*** run as a daemon! (use ctrl+c to terminate)'', [])])"
  using bad_option_ends_program [of "[Flags ''s'']" "[]" "[''-x'', ''-c'', ''a.json'']" "CHR ''x''" "[]"
      "[''-c'', ''a.json'']" "\<lambda>k n s. (0, k)" OS initf runf G M ids "''vscpd''"]
  by (simp add: is_flag_def takes_arg_def goes_on_def Let_def)

text \<open>Reading a command line gives back what was written into it: however its options are written, flags
  one by one or several behind one dash, arguments in the same element or in the next one (where they
  may look like options themselves), with operands anywhere between and anything behind \<open>--\<close>.\<close>

lemma getopt_words:
  assumes "list_all word_ok ws" and "ends_options tail"
  shows "getopt option_string [] (concat (map word_args ws) @ tail) = concat (map word_options ws)"
    and "list_all (\<lambda>(o1, _). is_flag o1 \<or> takes_arg o1) (concat (map word_options ws))"
proof -
  show "getopt option_string [] (concat (map word_args ws) @ tail) = concat (map word_options ws)"
    using assms(1) by (induction ws) (simp_all add: getopt_word getopt_tail [OF assms(2)])
  show "list_all (\<lambda>(o1, _). is_flag o1 \<or> takes_arg o1) (concat (map word_options ws))"
    using assms(1)
  proof (induction ws)
    case (Cons w ws)
    then show ?case by (cases w) (auto simp: list_all_iff)
  qed simp
qed

text \<open>Among known options, those that end the program are \<open>h\<close>, \<open>g\<close> and \<open>v\<close>.\<close>

lemma known_ends:
  "list_all (\<lambda>(o1, _). is_flag o1 \<or> takes_arg o1) opts \<Longrightarrow>
     find (\<lambda>(o1, _). o1 \<in> set ''hgv'') opts = find (\<lambda>(o1, _). \<not> goes_on o1) opts"
  by (induction opts) (auto simp: is_flag_def takes_arg_def goes_on_def)

text \<open>The key: the arguments of \<open>k\<close> decoded into the built-in key, one over the other.\<close>

definition given_key ::
    "(u8 list \<Rightarrow> nat \<Rightarrow> string \<Rightarrow> nat \<times> u8 list) \<Rightarrow> (char \<times> string) list \<Rightarrow> u8 list" where
  "given_key hex opts =
     foldl (\<lambda>key a. snd (hex key 32 a)) default_vscp_key (map snd (filter (\<lambda>(o1, _). o1 = CHR ''k'') opts))"

lemma given_key_fold:
  "foldl (\<lambda>key a. snd (hex key 32 a)) k (map snd (filter (\<lambda>(o1, _). o1 = CHR ''k'') opts)) =
     foldl (\<lambda>key (o1, a). if o1 = CHR ''k'' then snd (hex key 32 a) else key) k opts"
  by (induction opts arbitrary: k) auto

text \<open>The settings a command line gives.\<close>

definition given_options ::
    "(u8 list \<Rightarrow> nat \<Rightarrow> string \<Rightarrow> nat \<times> u8 list) \<Rightarrow> (char \<times> string) list \<Rightarrow> options" where
  "given_options hex opts =
     \<lparr>op_standalone = (CHR ''s'' \<in> fst ` set opts),
      op_cfgfile = last_arg (CHR ''c'') opts ''/etc/vscp/mqttvscpd.json'',
      op_rootFolder = last_arg (CHR ''r'') opts ''/var/lib/vscp/mqttvscpd/'',
      op_key = given_key hex opts\<rparr>"

lemma options_go_on:
  assumes "find (\<lambda>(o1, _). \<not> goes_on o1) opts = None"
  shows "parse_options hex opts default_options = Inr (given_options hex opts)"
  by (simp only: parse_options_spec assms option.case)
     (simp add: default_options_def given_options_def given_key_def given_key_fold)

lemma options_end:
  assumes "find (\<lambda>(o1, _). \<not> goes_on o1) opts = Some (o1, a)"
  shows "parse_options hex opts default_options = Inl (if o1 = CHR ''g'' \<or> o1 = CHR ''v'' then 0 else - 1)"
    and "option_output prg opts = (if o1 = CHR ''g'' then copyleft
           else if o1 = CHR ''v'' then line MQTTVSCPD_DISPLAY_VERSION else print_help prg)"
proof -
  show "parse_options hex opts default_options = Inl (if o1 = CHR ''g'' \<or> o1 = CHR ''v'' then 0 else - 1)"
    using parse_goes_on [of hex opts "[]" default_options] by (simp only: assms append_Nil2) simp
  show "option_output prg opts = (if o1 = CHR ''g'' then copyleft
           else if o1 = CHR ''v'' then line MQTTVSCPD_DISPLAY_VERSION else print_help prg)"
    using output_goes_on [of prg opts "[]"] by (simp only: assms append_Nil2) simp
qed

text \<open>The message one option leaves at the console, and those of a command line: of the options before the
  first that ends the program.\<close>

definition message_of :: "char \<times> string \<Rightarrow> log_call list" where
  "message_of opt =
     (case opt of (o1, a) \<Rightarrow>
        if o1 = CHR ''s'' then [(''I will ***NOT*** run as a daemon! (use ctrl+c to terminate)'', [])]
        else if o1 = CHR ''d'' then [(''Debug flags=%s'' @ [CHR 0x0A], [FStr a])]
        else if o1 = CHR ''r'' then [(''Will use rootfolder = %s'', [FStr (c_str a)])]
        else [])"

definition messages :: "(char \<times> string) list \<Rightarrow> log_call list" where
  "messages opts = concat (map message_of (takeWhile (\<lambda>(o1, _). o1 \<notin> set ''hgv'') opts))"

lemma option_log_messages:
  "list_all (\<lambda>(o1, _). is_flag o1 \<or> takes_arg o1) opts \<Longrightarrow> option_log opts = messages opts"
  by (induction opts) (auto simp: messages_def message_of_def line_def is_flag_def takes_arg_def)

text \<open>C31: A command line whose options are all in the usage text, however they are written (flags one by
  one or clustered, arguments in the same element of \<open>argv\<close> or in the next, operands between): the
  first of \<open>h g v\<close> writes the usage, the licence or the version to the standard error stream and ends
  the program, with code -1 for \<open>h\<close> and 0 for the others, before anything is forked or any file touched;
  of the options before it only \<open>s\<close>, \<open>d\<close> and \<open>r\<close> leave a message at the console. Without them nothing goes
  to standard error, the console is told that the daemon starts and with which configuration file,
  and the daemon starts with exactly the settings given: the last configuration file and root folder,
  the keys decoded into the built-in key one over the other, in the foreground exactly if \<open>s\<close> was
  given, and \<open>d\<close> changing nothing. The defaults are the paths compiled in, \<open>/etc/vscp/mqttvscpd.json\<close> and
  \<open>/var/lib/vscp/mqttvscpd/\<close>; the manual page and the list of switches name other ones, promise that \<open>d\<close>
  sets debug bits, and list a switch \<open>w\<close> that does not exist.\<close>

theorem known_options_start_program:
  assumes "list_all word_ok ws" and "ends_options tail"
  shows "let opts = concat (map word_options ws); s = given_options hex opts;
             result = program hex OS initf runf G M ids (prg # concat (map word_args ws) @ tail)
         in case find (\<lambda>(o1, _). o1 \<in> set ''hgv'') opts of
              Some (o1, _) \<Rightarrow>
                result = ((Exits (if o1 = CHR ''h'' then - 1 else 0), []),
                  if o1 = CHR ''g'' then copyleft
                  else if o1 = CHR ''v'' then line MQTTVSCPD_DISPLAY_VERSION else print_help prg,
                  messages opts)
            | None \<Rightarrow>
                result = ((case daemonize (op_standalone s) (mo_fork OS) (mo_setsid OS) of
                        D_Fails \<Rightarrow> (Exits (- 1), []) | D_ParentExits \<Rightarrow> (Exits 0, [])
                      | D_Runs sid \<Rightarrow> (let (e, acts) = main_control OS initf runf s (main_process G M ids s)
                          in (e, main_pid OS s sid @ main_chdir OS s @ acts))),
                  [], messages opts @
                    [(''Starting the VSCP MQTT daemon...'', []), (''Configfile = {}'', [FStr (op_cfgfile s)])] @
                    (if \<not> op_standalone s \<and>
                        (mo_fork OS = ForkFails \<or> mo_fork OS = ForkChild \<and> mo_setsid OS < 0)
                     then [(''Failed to initialize daemon process.'', [])] else []))"
proof -
  let ?opts = "concat (map word_options ws)"
  note w = getopt_words [OF assms]
  note log = option_log_messages [OF w(2)]
  have start: "start_log OS s =
      [(''Starting the VSCP MQTT daemon...'', []), (''Configfile = {}'', [FStr (op_cfgfile s)])] @
      (if \<not> op_standalone s \<and> (mo_fork OS = ForkFails \<or> mo_fork OS = ForkChild \<and> mo_setsid OS < 0)
       then [(''Failed to initialize daemon process.'', [])] else [])" for s
    by (auto simp: start_log_def daemonize_def split: fork_result.splits)
  note unfolds = log known_ends [OF w(2)] program_def list.case list.sel w(1) Let_def daemon_main_def main_log_def
    option.case
  show ?thesis
  proof (cases "find (\<lambda>(o1, _). \<not> goes_on o1) ?opts")
    case None
    from output_goes_on [of prg ?opts "[]"] None have "option_output prg ?opts = []" by simp
    with options_go_on [OF None] show ?thesis unfolding unfolds None by (simp only: sum.case start)
  next
    case (Some x)
    obtain o1 a where x: "x = (o1, a)" by (cases x)
    from find_SomeD [OF Some] have "x \<in> set ?opts" "\<not> goes_on o1" by (simp_all add: x)
    moreover from w(2) [unfolded list_all_iff, rule_format, OF this(1)] have "is_flag o1 \<or> takes_arg o1" by (simp add: x)
    ultimately have "o1 \<in> set ''hgv''" by (auto simp: is_flag_def takes_arg_def goes_on_def)
    with options_end [OF Some [unfolded x]] show ?thesis
      unfolding unfolds Some x prod.case by (simp only: sum.case append_Nil2) auto
  qed
qed

theorem known_options_start_program_witness:
  "\<forall>OS initf runf G M ids.
     program (\<lambda>k n s. (0, k)) OS initf runf G M ids [''vscpd'', ''-vs''] =
       ((Exits 0, []), line MQTTVSCPD_DISPLAY_VERSION, []) \<and>
     program (\<lambda>k n s. (0, k)) (OS\<lparr>mo_fork := ForkFails\<rparr>) initf runf G M ids
       [''vscpd'', ''-c'', ''-h'', ''-r/x'', ''-cy''] =
       ((Exits (- 1), []), [],
        [(''Will use rootfolder = %s'', [FStr ''/x'']), (''Starting the VSCP MQTT daemon...'', []),
         (''Configfile = {}'', [FStr ''y'']), (''Failed to initialize daemon process.'', [])])"
proof (intro allI)
  fix OS :: main_os and initf runf G M ids
  let ?P = "\<lambda>OS. program (\<lambda>k n s. (0, k)) OS initf runf G M ids"
  show "?P OS [''vscpd'', ''-vs''] = ((Exits 0, []), line MQTTVSCPD_DISPLAY_VERSION, []) \<and>
     ?P (OS\<lparr>mo_fork := ForkFails\<rparr>) [''vscpd'', ''-c'', ''-h'', ''-r/x'', ''-cy''] =
       ((Exits (- 1), []), [],
        [(''Will use rootfolder = %s'', [FStr ''/x'']), (''Starting the VSCP MQTT daemon...'', []),
         (''Configfile = {}'', [FStr ''y'']), (''Failed to initialize daemon process.'', [])])"
    using known_options_start_program [of "[Flags ''vs'']" "[]" "\<lambda>k n s. (0, k)" OS initf runf G M ids "''vscpd''"]
      known_options_start_program [of "[WithNext [] (CHR ''c'') ''-h'', WithArg [] (CHR ''r'') ''/x'',
        WithArg [] (CHR ''c'') ''y'']" "[]" "\<lambda>k n s. (0, k)" "OS\<lparr>mo_fork := ForkFails\<rparr>" initf runf G M ids "''vscpd''"]
    by (simp add: is_flag_def takes_arg_def ends_options_def daemonize_def messages_def message_of_def given_options_def
        last_arg_def c_str_def Let_def)
qed

end
