(* ===== verification/StartupCorrect.thy ===== *)
theory StartupCorrect
  imports Startup
begin

text \<open>
  What a start, a run and a shutdown of the control object guarantee: the announcements, the end of
  the main loop, the times of the heartbeats and the state of the drivers afterwards.
\<close>

subsection \<open>The main loop\<close>

text \<open>An iteration whose heartbeat, if it is due, stays inside its buffers: the event object has its full
  data array, the host has fewer than 16 addresses, and the library's \<open>vscp_setEventExToNow\<close> only sets
  the date.\<close>

definition tick_ok :: "vscp_codes \<Rightarrow> main_tick \<Rightarrow> bool" where
  "tick_ok K t \<longleftrightarrow>
     length (ex_data (mt_ex t)) = vk_max_data K \<and> length (ch_junk (mt_clock t)) = 16
     \<and> (\<forall>as. ch_host (mt_clock t) = Some as \<longrightarrow> length as < 16)
     \<and> (\<forall>i. sets_now (ch_set_now (mt_clock t) i))"

text \<open>The clock readings at which a heartbeat goes out, from the time \<open>old\<close> of the last one.\<close>

fun beats :: "int \<Rightarrow> main_tick list \<Rightarrow> int list" where
  "beats old [] = []"
| "beats old (t # ts) =
     (if mt_now t - old > 60 then mt_now t # beats (mt_saved t) ts else beats old ts)"

fun spaced :: "int \<Rightarrow> int list \<Rightarrow> bool" where
  "spaced old [] = True"
| "spaced old (b # bs) = (b - old > 60 \<and> spaced b bs)"

lemma spaced_weaken: "spaced old bs \<Longrightarrow> old' \<le> old \<Longrightarrow> spaced old' bs"
  by (cases bs) auto

lemma beats_spaced:
  "\<forall>t\<in>set ts. mt_now t \<le> mt_saved t \<Longrightarrow> spaced old (beats old ts)"
proof (induction ts arbitrary: old)
  case (Cons t ts)
  then show ?case by (auto intro: spaced_weaken [of "mt_saved t"])
qed simp

lemma beats_none: "beats old ts = [] \<longleftrightarrow> (\<forall>t\<in>set ts. mt_now t \<le> old + 60)"
  by (induction ts) auto

lemma take_reports_frame [frame_simps]:
  "co_deviceList (take_reports E rs c) = co_deviceList c"
  "co_bQuit (take_reports E rs c) = co_bQuit c" "co_guid (take_reports E rs c) = co_guid c"
  "co_sent (take_reports E rs c) = co_sent c"
  by (induction rs arbitrary: c) (auto simp: take_reports_def frame_simps)

lemma periodicEvents_frame:
  assumes "periodicEvents K G M H ex c = Some (ok, c')"
  shows "co_deviceList c' = co_deviceList c \<and> co_bQuit c' = co_bQuit c"
proof -
  have send: "co_deviceList (snd (CControlObject_sendEvent M c p)) = co_deviceList c"
    "co_bQuit (snd (CControlObject_sendEvent M c p)) = co_bQuit c" for c :: "('a, 'b, 'c, 'd) control" and p
    by (auto simp: CControlObject_sendEvent_def Let_def split: option.splits prod.splits)
  from assms show ?thesis
    by (auto simp: periodicEvents_def Let_def send split: prod.splits bind_splits)
qed

text \<open>One iteration.\<close>

lemma main_body_ok:
  assumes "guid_laws (en_guid E)" and "caps_layout K" and "tick_ok K t" and "\<not> ms_undefined s"
  shows "let s' = main_body E K t s; due = mt_now t - ms_old s > 60
         in \<not> ms_undefined s' \<and> ms_quit s' = ms_quit s \<and>
            co_deviceList (ms_ctl s') = co_deviceList (ms_ctl s) \<and>
            ms_old s' = (if due then mt_saved t else ms_old s) \<and>
            length (co_sent (ms_ctl s')) = length (co_sent (ms_ctl s)) + (if due then 4 else 0)"
proof (cases "mt_now t - ms_old s > 60")
  case True
  let ?c = "take_reports E (mt_reports t) (ms_ctl s)"
  obtain t1 t2 t3 t4 where st: "ch_stamps (mt_clock t) = (t1, t2, t3, t4)"
    by (cases "ch_stamps (mt_clock t)") auto
  from assms(3) st obtain c' where c':
    "periodicEvents K (en_guid E) (en_mqtt E) (mt_clock t) (mt_ex t) ?c = Some (True, c')"
    "length (co_sent c') = length (co_sent ?c) + 4"
    using periodicEvents_heartbeat [OF assms(1,2), of "mt_ex t" "mt_clock t" t1 t2 t3 t4 "en_mqtt E" ?c]
    unfolding tick_ok_def Let_def by fastforce
  with True assms(4) periodicEvents_frame [OF c'(1)] show ?thesis
    by (simp add: main_body_def Let_def ms_quit_def take_reports_frame)
qed (use assms(4) in \<open>simp add: main_body_def Let_def ms_quit_def take_reports_frame\<close>)

lemma signal_sel [simp]:
  "ms_quit (ms_signal s)" "ms_undefined (ms_signal s) = ms_undefined s"
  "co_deviceList (ms_ctl (ms_signal s)) = co_deviceList (ms_ctl s)"
  "co_sent (ms_ctl (ms_signal s)) = co_sent (ms_ctl s)"
  by (simp_all add: ms_signal_def ms_quit_def)

lemma main_loop_quit:
  assumes "ms_quit s"
  shows "\<exists>s'. work_loop ms_quit ms_signal (main_body E K) r s = Some s' \<and>
       ms_undefined s' = ms_undefined s \<and> co_deviceList (ms_ctl s') = co_deviceList (ms_ctl s) \<and>
       co_sent (ms_ctl s') = co_sent (ms_ctl s)"
  using assms
proof (induction r arbitrary: s)
  case (Cons t r)
  from Cons.IH [of "ms_signal s"] Cons.prems show ?case by (cases t) auto
qed simp

lemma main_loop_iters:
  assumes "guid_laws (en_guid E)" and "caps_layout K" and "\<forall>t\<in>set ts. tick_ok K t"
    and "\<not> ms_quit s"
  shows "\<exists>s'. work_loop ms_quit ms_signal (main_body E K) (map Iter ts @ Stop # rest) s = Some s' \<and>
           \<not> ms_undefined s' \<and> co_deviceList (ms_ctl s') = co_deviceList (ms_ctl s) \<and>
           length (co_sent (ms_ctl s')) = length (co_sent (ms_ctl s)) + 4 * length (beats (ms_old s) ts)"
  using assms(3,4)
proof (induction ts arbitrary: s)
  case Nil
  then have u: "\<not> ms_undefined s" by (simp add: ms_quit_def)
  have q: "ms_quit (ms_signal s)" by simp
  from main_loop_quit [OF q, of E K rest] u show ?case by auto
next
  case (Cons t ts)
  let ?s = "main_body E K t s"
  from Cons.prems have ok: "tick_ok K t" "\<not> ms_undefined s" by (auto simp: ms_quit_def)
  note B = main_body_ok [OF assms(1,2) ok, unfolded Let_def]
  with Cons.prems have "\<not> ms_quit ?s" "\<forall>t\<in>set ts. tick_ok K t" by auto
  from Cons.IH [OF this(2,1)] obtain s' where
    "work_loop ms_quit ms_signal (main_body E K) (map Iter ts @ Stop # rest) ?s = Some s'"
    "\<not> ms_undefined s'" "co_deviceList (ms_ctl s') = co_deviceList (ms_ctl ?s)"
    "length (co_sent (ms_ctl s')) = length (co_sent (ms_ctl ?s)) + 4 * length (beats (ms_old ?s) ts)"
    by blast
  with Cons.prems(2) B show ?case by auto
qed

subsection \<open>A run\<close>

lemma init_mqtt_frame:
  "fst (init_mqtt G M fmt r utc c) = fst (mc_connect M (daemon_client M utc c))"
  "co_deviceList (snd (init_mqtt G M fmt r utc c)) = co_deviceList c"
  "co_bQuit (snd (init_mqtt G M fmt r utc c)) = co_bQuit c"
  "co_sent (snd (init_mqtt G M fmt r utc c)) = co_sent c"
  by (auto simp: init_mqtt_def Let_def split: prod.splits)

lemma start_frame [simp]:
  "co_bQuit (snd (startDeviceWorkerThreads created c)) = co_bQuit c"
  "co_sent (snd (startDeviceWorkerThreads created c)) = co_sent c"
  by (simp_all add: startDeviceWorkerThreads_def)

lemma cleanup_frame:
  "co_sent (snd (cleanup E libs pos c)) = co_sent c"
  "co_deviceList (snd (cleanup E libs pos c)) = co_deviceList (snd (stopDeviceWorkerThreads E libs pos c))"
  by (simp_all add: cleanup_def stopDeviceWorkerThreads_def Let_def)

lemma run_with_stop:
  assumes "guid_laws (en_guid E)" and "caps_layout K" and "\<forall>t\<in>set ts. tick_ok K t"
    and "\<not> co_bQuit c" and "fst (mc_connect (en_mqtt E) (daemon_client (en_mqtt E) utc c))"
  shows "\<exists>c'. run E K fmt utc created libs work pos start (map Iter ts @ Stop # rest) c
                = Some (RunReturns True c') \<and>
              length (co_sent c') = length (co_sent c) + 4 * length (beats (start - 60) ts)"
proof -
  obtain c1 where c1: "init_mqtt (en_guid E) (en_mqtt E) fmt (en_render E) utc c = (True, c1)"
    "co_bQuit c1 = co_bQuit c" "co_sent c1 = co_sent c"
    using assms(5) init_mqtt_frame [of "en_guid E" "en_mqtt E" fmt "en_render E" utc c]
    by (cases "init_mqtt (en_guid E) (en_mqtt E) fmt (en_render E) utc c") auto
  let ?s = "\<lparr>ms_old = start - 60, ms_ctl = snd (startDeviceWorkerThreads created c1), ms_undefined = False\<rparr>"
  have "\<not> ms_quit ?s" using assms(4) c1(2) by (simp add: ms_quit_def)
  from main_loop_iters [OF assms(1-3) this, of rest] c1 show ?thesis
    by (auto simp: run_def Let_def cleanup_frame)
qed

text \<open>C26: The daemon's heartbeat over a whole run with any clock that does not run backwards between
  two readings of one iteration: the daemon sends the four events once per heartbeat time and at no
  other time, however many events the drivers report meanwhile; two heartbeats are always more than
  60 seconds apart; the first one goes out as soon as the clock has left the second in which the
  loop was entered, and none goes out before.\<close>

theorem heartbeat_schedule:
  assumes "guid_laws (en_guid E)" and "caps_layout K" and "\<forall>t\<in>set ts. tick_ok K t"
    and "\<forall>t\<in>set ts. mt_now t \<le> mt_saved t" and "\<not> co_bQuit c"
    and "fst (mc_connect (en_mqtt E) (daemon_client (en_mqtt E) utc c))"
  shows "let bs = beats (start - 60) ts
         in (\<exists>c'. run E K fmt utc created libs work pos start (map Iter ts @ [Stop]) c
                    = Some (RunReturns True c') \<and>
                  length (co_sent c') = length (co_sent c) + 4 * length bs) \<and>
            spaced (start - 60) bs \<and> (bs = [] \<longleftrightarrow> (\<forall>t\<in>set ts. mt_now t \<le> start))"
  using run_with_stop [OF assms(1-3,5,6), where rest = "[]"] beats_spaced [OF assms(4)]
  by (simp add: beats_none)

definition tick0 :: "int \<Rightarrow> main_tick" where
  "tick0 now = \<lparr>mt_reports = [], mt_now = now, mt_saved = now, mt_clock = host0, mt_ex = ex0\<rparr>"

lemma tick0_ok: "tick_ok codes0 (tick0 n)"
  by (simp add: tick_ok_def tick0_def host0_now) (simp add: codes0_def ex0_def host0_def)

lemma codes0_layout: "caps_layout codes0"
  by (simp add: codes0_def caps_layout_def)

theorem heartbeat_schedule_witness:
  "\<exists>c'. run env0 codes0 fmt0 None (\<lambda>_. True) (\<lambda>_. lib0) (\<lambda>d. d) (\<lambda>_. (1, 0)) 1000
          (map Iter [tick0 1000, tick0 1001, tick0 1061, tick0 1062] @ [Stop])
          (CControlObject_new guid0 mqtt0) = Some (RunReturns True c') \<and> length (co_sent c') = 8"
proof -
  let ?c = "CControlObject_new guid0 mqtt0 :: (_, _, jv, nat) control"
  let ?ts = "[tick0 1000, tick0 1001, tick0 1061, tick0 1062]"
  have "co_sent ?c = []" "\<not> co_bQuit ?c" by (simp_all add: CControlObject_new_def Let_def)
  moreover have "\<forall>t\<in>set ?ts. tick_ok codes0 t" "caps_layout codes0"
    by (simp_all add: tick0_ok codes0_layout)
  moreover have "beats (1000 - 60) ?ts = [1001, 1062]" by (simp add: tick0_def)
  ultimately show ?thesis
    using heartbeat_schedule [of env0 codes0 ?ts ?c None 1000 fmt0 "\<lambda>_. True" "\<lambda>_. lib0" "\<lambda>d. d"
        "\<lambda>_. (1, 0)"] guid0_laws
    by (simp add: lib_simps Let_def tick0_def)
qed

subsection \<open>Shutdown\<close>

lemma main_body_devices:
  "co_deviceList (ms_ctl (main_body E K t s)) = co_deviceList (ms_ctl s)"
  using periodicEvents_frame
  by (fastforce simp: main_body_def Let_def take_reports_frame split: option.splits)

lemma main_loop_devices:
  assumes "work_loop ms_quit ms_signal (main_body E K) ticks s = Some s'"
  shows "co_deviceList (ms_ctl s') = co_deviceList (ms_ctl s)"
  using assms
  by (rule work_loop_invariant [where P = "\<lambda>x. co_deviceList (ms_ctl x) = co_deviceList (ms_ctl s)"])
     (simp_all add: main_body_devices)

text \<open>Stopping a list on which a thread runs only for enabled devices.\<close>

lemma stop_all_stopped:
  assumes "\<forall>d\<in>set (co_deviceList c). di_bThreadStarted d \<longrightarrow> di_bEnable d"
  shows "\<forall>d\<in>set (co_deviceList (snd (stopDeviceWorkerThreads E libs pos c))).
           \<not> di_bThreadStarted d \<and> (di_bEnable d \<longrightarrow> di_bQuit d)"
proof -
  let ?stop = "\<lambda>d. snd (stopDriver (worker_rest E libs c pos) d)"
  have "drv.only_enabled_run (co_deviceList c)" using assms by (simp add: drv.only_enabled_run_def)
  then have "\<forall>d\<in>set (map ?stop (co_deviceList c)). \<not> di_bThreadStarted d"
    by (rule drv.stop_all_none_running)
  moreover have "di_bEnable (?stop d) \<longrightarrow> di_bQuit (?stop d)" for d
    using stopDriver_frame [OF worker_rest_ok [of E libs c pos], of d] by auto
  ultimately show ?thesis by (auto simp: stopDeviceWorkerThreads_def)
qed

lemma stop_names:
  "map di_strName (co_deviceList (snd (stopDeviceWorkerThreads E libs pos c)))
     = map di_strName (co_deviceList c)"
proof -
  have "di_strName (snd (stopDriver (worker_rest E libs c pos) d)) = di_strName d" for d
    using worker_rest_frame [of "d\<lparr>di_bQuit := True\<rparr>" E libs c pos]
    by (auto simp: stopDriver_def worker_frame_def Let_def)
  then show ?thesis by (simp add: stopDeviceWorkerThreads_def)
qed

text \<open>The devices from the start of the threads to the last cleanup.\<close>

lemma run_leaves_stopped:
  assumes "\<forall>d\<in>set (co_deviceList c). \<not> di_bThreadStarted d" and "\<forall>d. worker_frame d (work d)"
    and "run E K fmt utc created libs work pos start ticks c = Some (RunReturns True c')"
  shows "(\<forall>d\<in>set (co_deviceList c'). \<not> di_bThreadStarted d \<and> (di_bEnable d \<longrightarrow> di_bQuit d)) \<and>
         map di_strName (co_deviceList c') = map di_strName (co_deviceList c) \<and>
         co_deviceList (snd (cleanup E libs pos' c')) = co_deviceList c'"
proof -
  obtain c1 where c1: "init_mqtt (en_guid E) (en_mqtt E) fmt (en_render E) utc c = (True, c1)"
    "co_deviceList c1 = co_deviceList c"
    using assms(3) init_mqtt_frame(2) [of "en_guid E" "en_mqtt E" fmt "en_render E" utc c]
    by (cases "init_mqtt (en_guid E) (en_mqtt E) fmt (en_render E) utc c")
       (auto simp: run_def split: bool.splits)
  let ?c2 = "snd (startDeviceWorkerThreads created c1)"
  from assms(3) c1 obtain s where
    w: "work_loop ms_quit ms_signal (main_body E K) ticks
          \<lparr>ms_old = start - 60, ms_ctl = ?c2, ms_undefined = False\<rparr> = Some s" and
    e: "c' = snd (cleanup E libs pos ((ms_ctl s)\<lparr>co_deviceList := map work (co_deviceList (ms_ctl s))\<rparr>))"
    by (auto simp: run_def Let_def split: option.splits if_splits)
  have s: "co_deviceList (ms_ctl s) = co_deviceList ?c2"
    "c' = snd (cleanup E libs pos ((ms_ctl s)\<lparr>co_deviceList := map work (co_deviceList ?c2)\<rparr>))"
    using main_loop_devices [OF w] e by simp_all
  let ?c3 = "(ms_ctl s)\<lparr>co_deviceList := map work (co_deviceList ?c2)\<rparr>"
  have work: "di_bThreadStarted (work d) = di_bThreadStarted d" "di_bEnable (work d) = di_bEnable d"
    "di_strName (work d) = di_strName d" for d
    using assms(2) by (simp_all add: worker_frame_def)
  have c2: "co_deviceList ?c2 = map (\<lambda>d. snd (startDriver (created d) d)) (co_deviceList c)"
    by (simp add: start_all_map c1(2))
  have started: "di_bThreadStarted e \<longrightarrow> di_bEnable e" if "e \<in> set (co_deviceList ?c2)" for e
    using that assms(1) unfolding c2 by (auto simp: startDriver_def split: if_splits)
  then have "\<forall>d\<in>set (co_deviceList ?c3). di_bThreadStarted d \<longrightarrow> di_bEnable d"
    by (auto simp: work)
  from stop_all_stopped [OF this, of E libs pos]
  have stopped: "\<forall>d\<in>set (co_deviceList c'). \<not> di_bThreadStarted d \<and> (di_bEnable d \<longrightarrow> di_bQuit d)"
    unfolding s(2) cleanup_frame .
  moreover have "map di_strName (co_deviceList c') = map di_strName (co_deviceList c)"
    unfolding s(2) cleanup_frame stop_names by (simp add: c2 work startDriver_def o_def)
  moreover have "co_deviceList (snd (cleanup E libs pos' c')) = co_deviceList c'"
    unfolding cleanup_frame using stop_stopped [OF stopped, of E libs pos'] by simp
  ultimately show ?thesis by blast
qed

text \<open>C16: When \<open>run\<close> returns true, whatever happened in between (which threads could be created, what
  they did to their devices within their frame, where they were when they were stopped, which
  signals came when): no driver thread is left, every enabled driver has been told to quit, the
  drivers are the configured ones in the configured order, and the second \<open>cleanup\<close>, which \<open>main\<close>
  does after \<open>run\<close> has done one, changes no device.\<close>

theorem run_stops_drivers:
  assumes "\<forall>d\<in>set (co_deviceList c). \<not> di_bThreadStarted d" and "\<forall>d. worker_frame d (work d)"
    and "run E K fmt utc created libs work pos start ticks c = Some (RunReturns True c')"
  shows "(\<forall>d\<in>set (co_deviceList c'). \<not> di_bThreadStarted d \<and> (di_bEnable d \<longrightarrow> di_bQuit d)) \<and>
         map di_strName (co_deviceList c') = map di_strName (co_deviceList c) \<and>
         co_deviceList (snd (cleanup E libs pos' c')) = co_deviceList c'"
  by (rule run_leaves_stopped [OF assms])

theorem run_stops_drivers_witness:
  "\<exists>c'. run env0 codes0 fmt0 None (\<lambda>_. True) (\<lambda>_. lib0) (\<lambda>d. d) (\<lambda>_. (1, 0)) 1000 [Stop]
          ((CControlObject_new guid0 mqtt0)\<lparr>co_deviceList := [dev0 1]\<rparr>) = Some (RunReturns True c') \<and>
        (\<forall>d\<in>set (co_deviceList c'). \<not> di_bThreadStarted d)"
proof -
  let ?c = "(CControlObject_new guid0 mqtt0 :: (_, _, jv, nat) control)\<lparr>co_deviceList := [dev0 1]\<rparr>"
  obtain c' where r: "run env0 codes0 fmt0 None (\<lambda>_. True) (\<lambda>_. lib0) (\<lambda>d. d) (\<lambda>_. (1, 0)) 1000 [Stop] ?c
      = Some (RunReturns True c')"
    using run_with_stop [of env0 codes0 "[]" ?c None fmt0 "\<lambda>_. True" "\<lambda>_. lib0" "\<lambda>d. d" "\<lambda>_. (1, 0)"
        1000 "[]"] guid0_laws
    by (auto simp: lib_simps CControlObject_new_def Let_def caps_layout_def codes0_def)
  have "\<forall>d\<in>set (co_deviceList ?c). \<not> di_bThreadStarted d"
    by (simp add: dev0_def CDeviceItem_new_def)
  from run_stops_drivers [OF this _ r] r show ?thesis by auto
qed

end
