(* ===== verification/EventTypes.thy ===== *)
theory EventTypes
  imports ThreadDelivery StartupCorrect
begin

text \<open>
  The typing of the events that leave the program: on the way from a driver through the translations
  and the level II frame to the broker, and on the way from the four buffers of a heartbeat. A typed
  event has a GUID of 16 bytes and a data block of the length its size field states.
\<close>

subsection \<open>Events of the drivers\<close>

definition event_fits :: "nat \<Rightarrow> vscp_event \<Rightarrow> bool" where
  "event_fits n ev \<longleftrightarrow> event_ok ev \<and> unat (ev_sizeData ev) \<le> n"

text \<open>What the VSCP library documents of its conversions: a CANAL message carries at most 8 data bytes
  and becomes a complete event, and a measurement stays an event of at most 512 data bytes.\<close>

definition conversion_laws :: "'c vscp_api \<Rightarrow> bool" where
  "conversion_laws V \<longleftrightarrow>
     (\<forall>ev msg guid ev'. length guid = 16 \<longrightarrow> vs_canal_to_event V ev msg guid = (True, ev') \<longrightarrow>
        event_fits 8 ev') \<and>
     (\<forall>ev. event_fits 512 ev \<longrightarrow>
        event_fits 512 (vs_meas_to_double V ev) \<and> event_fits 512 (vs_meas_to_string V ev))"

lemma conversion_lawsD:
  assumes "conversion_laws V"
  shows "length guid = 16 \<Longrightarrow> vs_canal_to_event V ev msg guid = (True, ev') \<Longrightarrow> event_fits 8 ev'"
    and "event_fits 512 ev \<Longrightarrow> event_fits 512 (vs_meas_to_double V ev)"
    and "event_fits 512 ev \<Longrightarrow> event_fits 512 (vs_meas_to_string V ev)"
  using assms unfolding conversion_laws_def by blast+

lemma event_fits_mono: "event_fits m ev \<Longrightarrow> m \<le> n \<Longrightarrow> event_fits n ev"
  by (simp add: event_fits_def)

lemma event_fits_update [simp]:
  "event_fits n (ev\<lparr>ev_obid := a\<rparr>) = event_fits n ev"
  "event_fits n (ev\<lparr>ev_obid := a, ev_GUID := (ev_GUID ev)[k := b]\<rparr>) = event_fits n ev"
  by (simp_all add: event_fits_def event_ok_def)

lemma l1_over_l2_fits:
  assumes "event_fits 512 ev"
  shows "event_fits 528 (l1_over_l2 ev)"
proof -
  have "unat (ev_sizeData ev + 16) = unat (ev_sizeData ev) + 16"
    using assms by (subst unat_word_ariths(1)) (simp add: event_fits_def)
  with assms show ?thesis by (simp add: l1_over_l2_def event_fits_def event_ok_def)
qed

lemma outgoing_fits:
  assumes "conversion_laws V" and "event_fits 512 ev"
  shows "event_fits 528 (outgoing V tr ev)"
proof -
  have *: "event_fits 528 (if b then l1_over_l2 e else e)" if "event_fits 512 e" for b and e
    using that l1_over_l2_fits event_fits_mono [of 512 e 528] by simp
  show ?thesis
    using assms(2) unfolding outgoing_def Let_def
    by (intro *) (simp add: conversion_lawsD [OF assms(1)])
qed

lemma level1_events_fit:
  assumes "conversion_laws V" and "length guid = 16"
  shows "l1_blocking_event V guid tr msg = Some ev \<Longrightarrow> event_fits 528 ev"
    and "l1_polling_event V guid tr msg = Some ev \<Longrightarrow> event_fits 528 ev"
  using conversion_lawsD(1) [OF assms, THEN event_fits_mono [of 8 _ 512]]
  by (auto simp: l1_blocking_event_def l1_polling_event_def intro!: outgoing_fits [OF assms(1)]
        split: prod.splits bool.splits)

lemma to_ns_frame_fits: "event_fits n ev \<Longrightarrow> event_fits n (to_ns_frame V now ev)"
  by (simp add: to_ns_frame_def event_fits_def event_ok_def Let_def)

text \<open>A thread all of whose events so far are typed, and the steps that keep it so.\<close>

definition sent_fit :: "('g, 'm, 'j, 'db) thread \<Rightarrow> bool" where
  "sent_fit th \<longleftrightarrow> (\<forall>ev\<in>set (di_sent (th_dev th)). event_fits 528 ev)"

lemma sent_fit_steps [simp]:
  "sent_fit (ask_quit th) = sent_fit th" "sent_fit (driver_call p th) = sent_fit th"
  "sent_fit (snd (CDeviceItem_sendEvent E now th (Some ev))) \<longleftrightarrow> sent_fit th \<and> event_fits 528 ev"
  by (auto simp: sent_fit_def thread_simps)

lemma driver_call_guid [simp]: "di_guid (th_dev (driver_call p th)) = di_guid (th_dev th)"
  by (simp add: thread_simps)

lemma body_fits:
  assumes "conversion_laws (en_vscp E)" and "guid_laws (en_guid E)" and "sent_fit th"
  shows "sent_fit (l1_blocking_body E a th)" and "sent_fit (l1_polling_body E a th)"
    and "(\<And>ev. an_event a = Some ev \<Longrightarrow> event_fits 512 ev) \<Longrightarrow> sent_fit (l2_body E a th)"
  using level1_events_fit [OF assms(1) guid_lawsD(1) [OF assms(2)]] assms(3)
  by (auto simp: l1_blocking_body_def l1_polling_body_def l2_body_def Let_def
        intro: to_ns_frame_fits [OF event_fits_mono [of 512]] split: option.splits)

lemma loops_fit:
  assumes "conversion_laws (en_vscp E)" and "guid_laws (en_guid E)" and "sent_fit th"
    and "\<And>a ev. Iter a \<in> set ticks \<Longrightarrow> an_event a = Some ev \<Longrightarrow> event_fits 512 ev"
  shows "l1_loop E ticks th = Some r \<Longrightarrow> sent_fit (outcome r)"
    and "loop_phase (l2_body E) ticks th = Some r \<Longrightarrow> sent_fit (outcome r)"
proof -
  show "sent_fit (outcome r)" if "l1_loop E ticks th = Some r"
    using l1_loop_invariant [where P = sent_fit, OF that assms(3)] body_fits [OF assms(1,2)] by force
  show "sent_fit (outcome r)" if "loop_phase (l2_body E) ticks th = Some r"
  proof -
    from that obtain th' where th': "r = Inr th'"
      "work_loop th_quit ask_quit (l2_body E) ticks th = Some th'" by (rule loop_phase_cases)
    from work_loop_invariant_in [where P = sent_fit, OF th'(2) assms(3)] body_fits(3) [OF assms(1,2)]
      assms(4) th'(1) show ?thesis by simp
  qed
qed

lemma load_keeps_sent:
  "load_required L ps th = Some r \<Longrightarrow> di_sent (th_dev (outcome r)) = di_sent (th_dev th)"
  "load_optional L ps th = Some r \<Longrightarrow> di_sent (th_dev (outcome r)) = di_sent (th_dev th)"
  "load_l2 L ps th = Some r \<Longrightarrow> di_sent (th_dev (outcome r)) = di_sent (th_dev th)"
proof -
  show "load_required L ps th = Some r \<Longrightarrow> di_sent (th_dev (outcome r)) = di_sent (th_dev th)"
    by (induction ps arbitrary: th) (auto simp: thread_simps set_proc_def Let_def split: prod.splits if_splits)
  show "load_optional L ps th = Some r \<Longrightarrow> di_sent (th_dev (outcome r)) = di_sent (th_dev th)"
    by (auto simp: load_optional_all)
  show "load_l2 L ps th = Some r \<Longrightarrow> di_sent (th_dev (outcome r)) = di_sent (th_dev th)"
    by (induction ps arbitrary: th) (auto simp: thread_simps set_proc_def Let_def split: prod.splits if_splits)
qed

lemma phases_keep_sent:
  "load_library L th = Some r \<Longrightarrow> di_sent (th_dev (outcome r)) = di_sent (th_dev th)"
  "l1_open L th = Some r \<Longrightarrow> di_sent (th_dev (outcome r)) = di_sent (th_dev th)"
  "l2_open E L th = Some r \<Longrightarrow> di_sent (th_dev (outcome r)) = di_sent (th_dev th)"
  "setup_client E th = Some r \<Longrightarrow> di_sent (th_dev (outcome r)) = di_sent (th_dev th)"
  "l1_connect E th = Some r \<Longrightarrow> di_sent (th_dev (outcome r)) = di_sent (th_dev th)"
  "l2_connect E th = Some r \<Longrightarrow> di_sent (th_dev (outcome r)) = di_sent (th_dev th)"
  "l1_level L th = Some r \<Longrightarrow> di_sent (th_dev (outcome r)) = di_sent (th_dev th)"
  "close_driver E th = Some r \<Longrightarrow> di_sent (th_dev (outcome r)) = di_sent (th_dev th)"
  "bad_level th = Some r \<Longrightarrow> di_sent (th_dev (outcome r)) = di_sent (th_dev th)"
  by (auto simp: load_library_def l1_open_def l2_open_def setup_client_def l1_connect_def
        l2_connect_def l1_level_def close_driver_def bad_level_def thread_simps Let_def
        split: if_splits prod.splits)

lemma phases_fit:
  assumes "conversion_laws (en_vscp E)" and "guid_laws (en_guid E)"
    and "\<And>a ev. Iter a \<in> set ticks \<Longrightarrow> an_event a = Some ev \<Longrightarrow> event_fits 512 ev"
    and "p \<in> set (thread_phases E L ticks lvl)" and "p th = Some r" and "sent_fit th"
  shows "sent_fit (outcome r)"
proof -
  note loops = loops_fit [OF assms(1,2) assms(6) assms(3)]
  have "di_sent (th_dev (outcome r)) = di_sent (th_dev th) \<or> sent_fit (outcome r)"
    using assms(4,5) loops load_keeps_sent phases_keep_sent
    by (auto simp: thread_phases_def split: if_splits)
  with assms(6) show ?thesis by (auto simp: sent_fit_def)
qed

text \<open>C21: Every event a device thread hands to the broker is typed: it has a GUID of 16 bytes, which is
  the one its node is announced under, and a data block of exactly the length its size field states,
  at most 528 bytes, whatever the driver answers, in whatever translation, and however the thread
  ends.\<close>

theorem sent_events_typed:
  assumes "conversion_laws (en_vscp E)" and "guid_laws (en_guid E)"
    and "\<forall>a ev. Iter a \<in> set ticks \<and> an_event a = Some ev \<longrightarrow> event_fits 512 ev"
    and "\<forall>ev\<in>set (di_sent (th_dev th)). event_fits 528 ev"
    and "deviceThread E L ticks th = Some (x, th')"
  shows "\<forall>ev\<in>set (di_sent (th_dev th')). event_fits 528 ev \<and>
           g_bytes (en_guid E) (g_of_bytes (en_guid E) (ev_GUID ev)) = ev_GUID ev"
proof -
  have "sent_fit th \<longrightarrow> sent_fit th'"
    using assms(5) unfolding deviceThread_def
    by (rule run_phases_rel [where R = "\<lambda>a b. sent_fit a \<longrightarrow> sent_fit b"])
       (use phases_fit [OF assms(1,2)] assms(3) in \<open>blast+\<close>)
  with assms(4) show ?thesis
    by (auto simp: sent_fit_def event_fits_def event_ok_def guid_lawsD [OF assms(2)])
qed

text \<open>Conversions that accept up to 8 bytes.\<close>

definition env8 :: "(u8 list, nat, jv, u8 list, nat) thread_env" where
  "env8 = env0\<lparr>en_vscp := vscp0\<lparr>vs_canal_to_event :=
     (\<lambda>ev msg guid. (length msg \<le> 8, ev\<lparr>ev_GUID := guid, ev_sizeData := of_nat (length msg), ev_pdata := msg\<rparr>))\<rparr>\<rparr>"

lemma env8_laws: "conversion_laws (en_vscp env8)" "guid_laws (en_guid env8)"
proof -
  have "unat (of_nat (length msg) :: u16) = length msg" if "length msg \<le> 8" for msg :: "u8 list"
    using that by (simp add: unat_of_nat)
  then show "conversion_laws (en_vscp env8)"
    by (auto simp: conversion_laws_def env8_def event_fits_def event_ok_def lib_simps)
  show "guid_laws (en_guid env8)" by (simp add: env8_def lib_simps guid0_laws)
qed

theorem sent_events_typed_witness:
  "\<exists>th'. deviceThread env8 lib0 [Iter (rx0 [7, 8]), Stop] (th0 1) = Some (X_Done, th') \<and>
     (\<forall>ev\<in>set (di_sent (th_dev th')). unat (ev_sizeData ev) \<le> 528)"
proof -
  have "exit_spec env8 lib0 (dev0 1) c = X_Done" for c
    by (auto simp: exit_spec_def env8_def lib_simps driver_consts l1_required_def l2_required_def)
  then have "map_option fst (deviceThread env8 lib0 [Iter (rx0 [7, 8]), Stop] (th0 1)) = Some X_Done"
    unfolding deviceThread_exit by (simp add: lib_simps)
  then obtain th' where th': "deviceThread env8 lib0 [Iter (rx0 [7, 8]), Stop] (th0 1) = Some (X_Done, th')"
    by auto
  have "\<forall>a ev. Iter a \<in> set [Iter (rx0 [7, 8]), Stop] \<and> an_event a = Some ev \<longrightarrow> event_fits 512 ev"
    by (simp add: rx0_def)
  from sent_events_typed [OF env8_laws this _ th'] th' show ?thesis
    by (auto simp: lib_simps event_fits_def)
qed

subsection \<open>Events of the daemon\<close>

definition ex_typed :: "vscp_codes \<Rightarrow> vscp_event_ex \<Rightarrow> bool" where
  "ex_typed K ex \<longleftrightarrow> length (ex_GUID ex) = 16 \<and> length (ex_data ex) = vk_max_data K \<and>
     unat (ex_sizeData ex) \<le> length (ex_data ex)"

lemma put_keeps:
  "put off bs ex = Some ex' \<Longrightarrow>
     length (ex_data ex') = length (ex_data ex) \<and> ex_GUID ex' = ex_GUID ex \<and> ex_sizeData ex' = ex_sizeData ex"
  by (auto simp: put_def dest: store_at_length)

lemma heartbeats_typed:
  assumes "guid_laws G" and "caps_layout K" and "length (ex_data ex) = vk_max_data K" and "sets_now f"
  shows "class1_heartbeat K G g t f ex = Some e \<Longrightarrow> ex_typed K e"
    and "class2_heartbeat K G g n t f ex = Some e \<Longrightarrow> ex_typed K e"
    and "segctrl_heartbeat K G g t f now ex = Some e \<Longrightarrow> ex_typed K e"
    and "server_caps K G g n t f host junk ex = Some e \<Longrightarrow> ex_typed K e"
proof -
  have h: "ex_GUID (ex_header G g t f cls ty ex) = g_bytes G g"
    "ex_data (ex_header G g t f cls ty ex) = ex_data ex" for cls ty
    using stamped_header(2) [OF assms(4)] by (auto simp: ex_header_def)
  note simps = h ex_typed_def caps_layout_def zero_data_def Let_def
  note env = assms guid_lawsD(1) [OF assms(1)]
  show "class1_heartbeat K G g t f ex = Some e \<Longrightarrow> ex_typed K e"
    using env by (auto simp: class1_heartbeat_def simps dest!: put_keeps split: bind_splits)
  show "class2_heartbeat K G g n t f ex = Some e \<Longrightarrow> ex_typed K e"
    using env by (auto simp: class2_heartbeat_def simps dest!: put_keeps split: bind_splits)
  show "segctrl_heartbeat K G g t f now ex = Some e \<Longrightarrow> ex_typed K e"
    using env by (auto simp: segctrl_heartbeat_def simps dest!: put_keeps split: bind_splits)
  show "server_caps K G g n t f host junk ex = Some e \<Longrightarrow> ex_typed K e"
    using env by (auto simp: server_caps_def getVscpCapabilities_def simps dest!: put_keeps
        split: bind_splits prod.splits if_splits)
qed

lemma periodicEvents_typed:
  assumes "guid_laws G" and "caps_layout K" and "length (ex_data ex) = vk_max_data K"
    and "\<forall>i. sets_now (ch_set_now H i)"
    and "periodicEvents K G M H ex c = Some (ok, c')" and "\<forall>e\<in>set (co_sent c). ex_typed K e"
  shows "\<forall>e\<in>set (co_sent c'). ex_typed K e"
proof -
  obtain t1 t2 t3 t4 e1 e2 e3 e4 where e:
    "class1_heartbeat K G (co_guid c) t1 (ch_set_now H 0) ex = Some e1"
    "class2_heartbeat K G (co_guid c) (co_strServerName c) t2 (ch_set_now H 1) e1 = Some e2"
    "segctrl_heartbeat K G (co_guid c) t3 (ch_set_now H 2) (ch_time H) e2 = Some e3"
    "server_caps K G (co_guid c) (co_strServerName c) t4 (ch_set_now H 3) (ch_host H) (ch_junk H) e3 = Some e4"
    "co_sent c' = co_sent c @ [e1, e2, e3, e4]"
    using assms(5) by (auto simp: periodicEvents_def CControlObject_sendEvent_def Let_def split: prod.splits bind_splits)
  note typed = heartbeats_typed [OF assms(1,2) _ spec [OF assms(4)]]
  from typed(1) [OF assms(3) e(1)] have 1: "ex_typed K e1" .
  with typed(2) [OF _ e(2)] have 2: "ex_typed K e2" by (simp add: ex_typed_def)
  with typed(3) [OF _ e(3)] have 3: "ex_typed K e3" by (simp add: ex_typed_def)
  with typed(4) [OF _ e(4)] have "ex_typed K e4" by (simp add: ex_typed_def)
  with 1 2 3 assms(6) e(5) show ?thesis by auto
qed

text \<open>C30: Every event the daemon itself sends during a run, however long it lasts and whenever it is
  asked to quit, is typed: a GUID of 16 bytes and a size within the data array, which keeps its
  length. (The library's \<open>vscp_setEventExToNow\<close>, which gets the whole event, sets its date only.)\<close>

theorem daemon_events_typed:
  assumes "guid_laws (en_guid E)" and "caps_layout K"
    and "\<forall>t. Iter t \<in> set ticks \<longrightarrow> length (ex_data (mt_ex t)) = vk_max_data K \<and>
           (\<forall>i. sets_now (ch_set_now (mt_clock t) i))"
    and "\<forall>e\<in>set (co_sent c). ex_typed K e"
    and "run E K fmt utc created libs work pos start ticks c = Some (RunReturns ok c')"
  shows "\<forall>e\<in>set (co_sent c'). ex_typed K e"
proof -
  let ?typed = "\<lambda>s. \<forall>e\<in>set (co_sent (ms_ctl s)). ex_typed K e"
  obtain b c1 where c1: "init_mqtt (en_guid E) (en_mqtt E) fmt (en_render E) utc c = (b, c1)" "co_sent c1 = co_sent c"
    using init_mqtt_frame(4) [of "en_guid E" "en_mqtt E" fmt "en_render E" utc c] by (metis prod.collapse)
  show ?thesis
  proof (cases b)
    case True
    let ?s = "\<lparr>ms_old = start - 60, ms_ctl = snd (startDeviceWorkerThreads created c1), ms_undefined = False\<rparr>"
    from assms(5) c1 True obtain s where
      w: "work_loop ms_quit ms_signal (main_body E K) ticks ?s = Some s" and s: "co_sent c' = co_sent (ms_ctl s)"
      by (auto simp: run_def Let_def cleanup_frame split: option.splits if_splits)
    have "?typed s" using w
    proof (rule work_loop_invariant_in [where P = ?typed])
      show "?typed ?s" using c1(2) assms(4) by simp
      show "?typed (ms_signal s)" if "?typed s" for s using that by simp
      show "?typed (main_body E K t s)" if "Iter t \<in> set ticks" "?typed s" for t s
      proof -
        let ?c = "take_reports E (mt_reports t) (ms_ctl s)"
        have "\<forall>e\<in>set (co_sent c'). ex_typed K e"
          if "periodicEvents K (en_guid E) (en_mqtt E) (mt_clock t) (mt_ex t) ?c = Some (ok, c')" for ok c'
          using periodicEvents_typed [OF assms(1,2) _ _ that] assms(3) \<open>Iter t \<in> set ticks\<close> \<open>?typed s\<close>
          by (simp add: take_reports_frame)
        with that(2) show ?thesis
          by (simp add: main_body_def Let_def take_reports_frame split: option.splits prod.splits)
      qed
    qed
    with s show ?thesis by simp
  qed (use assms(4,5) c1 in \<open>auto simp: run_def\<close>)
qed

theorem daemon_events_typed_witness:
  "\<exists>c'. run env0 codes0 fmt0 None (\<lambda>_. True) (\<lambda>_. lib0) (\<lambda>d. d) (\<lambda>_. (1, 0)) 1000
          [Iter (tick0 1001), Stop] (CControlObject_new guid0 mqtt0) = Some (RunReturns True c') \<and>
        length (co_sent c') = 4 \<and> (\<forall>e\<in>set (co_sent c'). length (ex_GUID e) = 16)"
proof -
  let ?c = "CControlObject_new guid0 mqtt0 :: (_, _, jv, nat) control"
  have c: "co_sent ?c = []" "\<not> co_bQuit ?c" by (simp_all add: CControlObject_new_def Let_def)
  have L: "guid_laws (en_guid env0)" "caps_layout codes0" "tick_ok codes0 (tick0 1001)"
    by (simp_all add: lib_simps guid0_laws tick0_ok codes0_layout)
  have con: "fst (mc_connect (en_mqtt env0) (daemon_client (en_mqtt env0) None ?c))" by (simp add: lib_simps)
  have beats: "beats (1000 - 60) [tick0 1001] = [1001]" by (simp add: tick0_def)
  from run_with_stop [OF L(1,2) _ c(2) con, of "[tick0 1001]" fmt0 "\<lambda>_. True" "\<lambda>_. lib0" "\<lambda>d. d"
      "\<lambda>_. (1, 0)" 1000 "[]"] L(3) c(1) beats
  obtain c' where r: "run env0 codes0 fmt0 None (\<lambda>_. True) (\<lambda>_. lib0) (\<lambda>d. d) (\<lambda>_. (1, 0)) 1000
      [Iter (tick0 1001), Stop] ?c = Some (RunReturns True c')" "length (co_sent c') = 4" by auto
  from L(3) have ticks: "\<forall>t. Iter t \<in> set [Iter (tick0 1001), Stop] \<longrightarrow>
      length (ex_data (mt_ex t)) = vk_max_data codes0 \<and> (\<forall>i. sets_now (ch_set_now (mt_clock t) i))"
    by (simp add: tick_ok_def)
  have old: "\<forall>e\<in>set (co_sent ?c). ex_typed codes0 e" by (simp add: c(1))
  from daemon_events_typed [OF L(1,2) ticks old r(1)] r show ?thesis
    by (auto simp: ex_typed_def)
qed

end
