(* ===== verification/Mutex.thy ===== *)
theory Mutex
  imports Prelude
begin

text \<open>
  What the program relies on where threads share a mutex: the contract of a lock whose holder is part
  of the state. \<open>inside t s\<close> tells that thread \<open>t\<close> is between its lock and its unlock; every step of
  every thread has to keep the holder and the places of the threads in agreement. \<open>m_deviceMutex\<close> of a
  device and \<open>m_mutex_discovery\<close> of the control object are its two instances.
\<close>

locale mutex_protocol =
  fixes start :: "'s \<Rightarrow> bool" and step :: "'s \<Rightarrow> 's \<Rightarrow> bool" and holder :: "'s \<Rightarrow> 't option"
    and inside :: "'t \<Rightarrow> 's \<Rightarrow> bool"
  assumes start_free: "start s \<Longrightarrow> holder s = None \<and> (\<forall>t. \<not> inside t s)"
    and step_agrees: "step s s' \<Longrightarrow> \<forall>t. inside t s \<longleftrightarrow> holder s = Some t \<Longrightarrow>
      \<forall>t. inside t s' \<longleftrightarrow> holder s' = Some t"
begin

lemma holder_inside:
  assumes "step\<^sup>*\<^sup>* s0 s" and "start s0"
  shows "inside t s \<longleftrightarrow> holder s = Some t"
proof -
  from assms(1) have "\<forall>t. inside t s \<longleftrightarrow> holder s = Some t"
    by (induction rule: rtranclp_induct) (use start_free [OF assms(2)] step_agrees in \<open>simp, blast\<close>)
  then show ?thesis by blast
qed

lemma one_inside:
  assumes "step\<^sup>*\<^sup>* s0 s" and "start s0" and "inside t s" and "inside t' s"
  shows "t = t'"
  using assms(3,4) holder_inside [OF assms(1,2)] by simp

lemma all_out_free:
  assumes "step\<^sup>*\<^sup>* s0 s" and "start s0" and "\<forall>t. \<not> inside t s"
  shows "holder s = None"
  using assms(3) holder_inside [OF assms(1,2)] by (metis not_Some_eq)

end

end
