(* ===== verification/DiscoveryThreads.thy ===== *)
theory DiscoveryThreads
  imports Drivers Heartbeat Mutex
begin

text \<open>
  \<open>CControlObject::discovery\<close> (\<open>controlobject.cpp\<close>) is called by every device thread while the main
  thread sends heartbeats over the same control object. \<open>ControlObject.discovery\<close> takes its section
  under \<open>m_mutex_discovery\<close> as one step; here it is taken apart: each thread has its own place in
  the function, and any thread may move between any two statements of another. The lemmas show
  that only the holder of the mutex is inside the section, that the section is always left, and
  that whatever the interleaving, the calls act one after the other.
\<close>

subsection \<open>The steps of one call\<close>

text \<open>Where a thread is: not in the function, before the lock, before the lookup, before the insert,
  before the publish, before the entry in the map, before the unlock. The event is the argument,
  the string the time the row was stored with.\<close>

datatype disc_pc =
  D_idle | D_wait vscp_event | D_find vscp_event | D_insert vscp_event
| D_publish vscp_event string | D_remember vscp_event string | D_unlock

definition in_section :: "disc_pc \<Rightarrow> bool" where
  "in_section pc \<longleftrightarrow> (case pc of D_idle \<Rightarrow> False | D_wait ev \<Rightarrow> False | _ \<Rightarrow> True)"

text \<open>The event a thread has still to deal with.\<close>

definition open_call :: "disc_pc \<Rightarrow> vscp_event list" where
  "open_call pc =
     (case pc of D_wait ev \<Rightarrow> [ev] | D_find ev \<Rightarrow> [ev] | D_insert ev \<Rightarrow> [ev]
      | D_publish ev now \<Rightarrow> [ev] | D_remember ev now \<Rightarrow> [ev] | _ \<Rightarrow> [])"

text \<open>The control object with the mutex and the threads, numbered. \<open>sy_calls\<close> is the history of the
  events each thread has brought as far as the lock, \<open>sy_done\<close> that of the calls whose fate is
  decided, with the time of the row.\<close>

record ('g, 'm, 'j, 'db) disc_sys =
  sy_ctl :: "('g, 'm, 'j, 'db) control"
  sy_mutex :: "nat option"
  sy_pc :: "nat \<Rightarrow> disc_pc"
  sy_calls :: "nat \<Rightarrow> vscp_event list"
  sy_done :: "(nat \<times> vscp_event \<times> string) list"

definition sys_init :: "('g, 'm, 'j, 'db) control \<Rightarrow> ('g, 'm, 'j, 'db) disc_sys" where
  "sys_init c = \<lparr>sy_ctl = c, sy_mutex = None, sy_pc = (\<lambda>i. D_idle), sy_calls = (\<lambda>i. []), sy_done = []\<rparr>"

definition goto :: "nat \<Rightarrow> disc_pc \<Rightarrow> ('g, 'm, 'j, 'db) disc_sys \<Rightarrow> ('g, 'm, 'j, 'db) disc_sys" where
  "goto i pc s = s\<lparr>sy_pc := (sy_pc s)(i := pc)\<rparr>"

definition decide :: "nat \<Rightarrow> vscp_event \<Rightarrow> string \<Rightarrow> ('g, 'm, 'j, 'db) disc_sys \<Rightarrow> ('g, 'm, 'j, 'db) disc_sys" where
  "decide i ev now s = s\<lparr>sy_done := sy_done s @ [(i, ev, now)]\<rparr>"

definition event_key :: "'g guid_api \<Rightarrow> vscp_event \<Rightarrow> string" where
  "event_key G ev = g_to_string G (g_of_bytes G (ev_GUID ev))"

inductive discovery_step ::
    "('g, 'm, 'j, 'c, 'db) thread_env \<Rightarrow> nat \<Rightarrow> ('g, 'm, 'j, 'db) disc_sys
       \<Rightarrow> ('g, 'm, 'j, 'db) disc_sys \<Rightarrow> bool" for E i where
  d_unused: "sy_pc s i = D_idle \<Longrightarrow> co_db_vscp_daemon (sy_ctl s) = None \<Longrightarrow> discovery_step E i s s"
| d_call: "sy_pc s i = D_idle \<Longrightarrow> co_db_vscp_daemon (sy_ctl s) \<noteq> None \<Longrightarrow>
     discovery_step E i s
       (goto i (D_wait ev) (s\<lparr>sy_calls := (sy_calls s)(i := sy_calls s i @ [ev])\<rparr>))"
| d_lock: "sy_pc s i = D_wait ev \<Longrightarrow> sy_mutex s = None \<Longrightarrow>
     discovery_step E i s (goto i (D_find ev) (s\<lparr>sy_mutex := Some i\<rparr>))"
| d_known: "sy_pc s i = D_find ev \<Longrightarrow>
     co_map_discoveryGuidToName (sy_ctl s) (event_key (en_guid E) ev) \<noteq> None \<Longrightarrow>
     discovery_step E i s (goto i D_unlock (decide i ev [] s))"
| d_unknown: "sy_pc s i = D_find ev \<Longrightarrow>
     co_map_discoveryGuidToName (sy_ctl s) (event_key (en_guid E) ev) = None \<Longrightarrow>
     discovery_step E i s (goto i (D_insert ev) s)"
| d_refused: "sy_pc s i = D_insert ev \<Longrightarrow> co_db_vscp_daemon (sy_ctl s) = Some db \<Longrightarrow>
     en_exec E db (discovery_sql now (event_key (en_guid E) ev)) = (False, db') \<Longrightarrow>
     discovery_step E i s
       (goto i D_unlock (decide i ev now (s\<lparr>sy_ctl := (sy_ctl s)\<lparr>co_db_vscp_daemon := Some db'\<rparr>\<rparr>)))"
| d_stored: "sy_pc s i = D_insert ev \<Longrightarrow> co_db_vscp_daemon (sy_ctl s) = Some db \<Longrightarrow>
     en_exec E db (discovery_sql now (event_key (en_guid E) ev)) = (True, db') \<Longrightarrow>
     discovery_step E i s
       (goto i (D_publish ev now) (s\<lparr>sy_ctl := (sy_ctl s)\<lparr>co_db_vscp_daemon := Some db'\<rparr>\<rparr>))"
| d_publish: "sy_pc s i = D_publish ev now \<Longrightarrow>
     p = discovery_publish (en_guid E) (en_json E) (en_render E) (sy_ctl s)
           (event_key (en_guid E) ev) now \<Longrightarrow>
     discovery_step E i s
       (goto i (D_remember ev now) (s\<lparr>sy_ctl := (sy_ctl s)
          \<lparr>co_mqttClient := snd (mosq_publish (en_mqtt E) (co_mqttClient (sy_ctl s)) p),
           co_published := co_published (sy_ctl s) @ [p]\<rparr>\<rparr>))"
| d_remember: "sy_pc s i = D_remember ev now \<Longrightarrow>
     discovery_step E i s
       (goto i D_unlock (decide i ev now (s\<lparr>sy_ctl := (sy_ctl s)\<lparr>co_map_discoveryGuidToName :=
          (co_map_discoveryGuidToName (sy_ctl s))(event_key (en_guid E) ev \<mapsto> ''Discovered'')\<rparr>\<rparr>)))"
| d_unlock: "sy_pc s i = D_unlock \<Longrightarrow>
     discovery_step E i s (goto i D_idle (s\<lparr>sy_mutex := None\<rparr>))"

text \<open>The main thread and the signal handlers, while the device threads run: sending an event,
  being asked to quit, starting and stopping drivers, disconnecting.\<close>

inductive main_step ::
    "('g, 'm) mqtt_api \<Rightarrow> ('g, 'm, 'j, 'db) control \<Rightarrow> ('g, 'm, 'j, 'db) control \<Rightarrow> bool" for M where
  m_send: "main_step M c (snd (CControlObject_sendEvent M c pex))"
| m_signal: "main_step M c (c\<lparr>co_bQuit := True\<rparr>)"
| m_devices: "main_step M c (c\<lparr>co_deviceList := ds\<rparr>)"
| m_disconnect: "main_step M c (c\<lparr>co_mqttClient := mc_disconnect M (co_mqttClient c)\<rparr>)"

inductive sys_step ::
    "('g, 'm, 'j, 'c, 'db) thread_env \<Rightarrow> ('g, 'm, 'j, 'db) disc_sys \<Rightarrow> ('g, 'm, 'j, 'db) disc_sys
       \<Rightarrow> bool" for E where
  by_thread: "discovery_step E i s t \<Longrightarrow> sys_step E s t"
| by_main: "main_step (en_mqtt E) (sy_ctl s) c \<Longrightarrow> sys_step E s (s\<lparr>sy_ctl := c\<rparr>)"

inductive sys_reachable ::
    "('g, 'm, 'j, 'c, 'db) thread_env \<Rightarrow> ('g, 'm, 'j, 'db) control \<Rightarrow> ('g, 'm, 'j, 'db) disc_sys
       \<Rightarrow> bool" for E c0 where
  sys_start: "sys_reachable E c0 (sys_init c0)"
| sys_more: "sys_reachable E c0 s \<Longrightarrow> sys_step E s t \<Longrightarrow> sys_reachable E c0 t"

inductive_cases discovery_stepE: "discovery_step E i s t"
inductive_cases main_stepE: "main_step M c c'"
inductive_cases sys_stepE: "sys_step E s t"

subsection \<open>The invariant\<close>

text \<open>What discovery reads and writes, the MQTT client apart: the answer of a publish is only logged.\<close>

definition disc_view where
  "disc_view c = (co_db_vscp_daemon c, co_map_discoveryGuidToName c, co_published c, co_guid c,
                  co_topicDiscovery c)"

text \<open>The control object after the decided calls, one after the other.\<close>

definition serial ::
    "('g, 'm, 'j, 'c, 'db) thread_env \<Rightarrow> ('g, 'm, 'j, 'db) control
       \<Rightarrow> (nat \<times> vscp_event \<times> string) list \<Rightarrow> ('g, 'm, 'j, 'db) control" where
  "serial E c0 calls = foldl (\<lambda>c (i, ev, now).
     discovery (en_guid E) (en_json E) (en_mqtt E) (en_render E) (en_exec E) c now (Some ev)) c0 calls"

text \<open>How far the control object \<open>c\<close> is ahead of the decided calls \<open>a\<close>, by the place of the thread in
  the section.\<close>

definition ahead ::
    "('g, 'm, 'j, 'c, 'db) thread_env \<Rightarrow> ('g, 'm, 'j, 'db) control \<Rightarrow> ('g, 'm, 'j, 'db) control
       \<Rightarrow> disc_pc \<Rightarrow> bool" where
  "ahead E a c pc =
     (let key = event_key (en_guid E); M = co_map_discoveryGuidToName a;
          stored = (\<lambda>ev now. M (key ev) = None \<and>
             (\<exists>db db'. co_db_vscp_daemon a = Some db \<and>
                en_exec E db (discovery_sql now (key ev)) = (True, db') \<and>
                co_db_vscp_daemon c = Some db'));
          same = (co_map_discoveryGuidToName c = M \<and> co_guid c = co_guid a \<and>
                  co_topicDiscovery c = co_topicDiscovery a)
      in case pc of
           D_insert ev \<Rightarrow> disc_view c = disc_view a \<and> M (key ev) = None
         | D_publish ev now \<Rightarrow> stored ev now \<and> same \<and> co_published c = co_published a
         | D_remember ev now \<Rightarrow> stored ev now \<and> same \<and>
             co_published c = co_published a @
               [discovery_publish (en_guid E) (en_json E) (en_render E) a (key ev) now]
         | _ \<Rightarrow> disc_view c = disc_view a)"

definition sys_inv ::
    "('g, 'm, 'j, 'c, 'db) thread_env \<Rightarrow> ('g, 'm, 'j, 'db) control \<Rightarrow> ('g, 'm, 'j, 'db) disc_sys \<Rightarrow> bool" where
  "sys_inv E c0 s \<longleftrightarrow>
     (\<forall>i. in_section (sy_pc s i) \<longleftrightarrow> sy_mutex s = Some i) \<and>
     ahead E (serial E c0 (sy_done s)) (sy_ctl s)
       (case sy_mutex s of None \<Rightarrow> D_idle | Some i \<Rightarrow> sy_pc s i) \<and>
     (\<forall>i. sy_pc s i \<noteq> D_idle \<longrightarrow> co_db_vscp_daemon (sy_ctl s) \<noteq> None) \<and>
     (\<forall>i. sy_calls s i =
        map (fst \<circ> snd) (filter (\<lambda>x. fst x = i) (sy_done s)) @ open_call (sy_pc s i))"

lemma goto_sel [simp]:
  "sy_ctl (goto i pc s) = sy_ctl s" "sy_mutex (goto i pc s) = sy_mutex s"
  "sy_pc (goto i pc s) = (sy_pc s)(i := pc)" "sy_calls (goto i pc s) = sy_calls s"
  "sy_done (goto i pc s) = sy_done s"
  by (simp_all add: goto_def)

lemma decide_sel [simp]:
  "sy_ctl (decide i ev now s) = sy_ctl s" "sy_mutex (decide i ev now s) = sy_mutex s"
  "sy_pc (decide i ev now s) = sy_pc s" "sy_calls (decide i ev now s) = sy_calls s"
  "sy_done (decide i ev now s) = sy_done s @ [(i, ev, now)]"
  by (simp_all add: decide_def)

lemma serial_snoc:
  "serial E c0 (calls @ [(i, ev, now)]) =
     discovery (en_guid E) (en_json E) (en_mqtt E) (en_render E) (en_exec E) (serial E c0 calls) now (Some ev)"
  by (simp add: serial_def)

text \<open>What the call does that is decided, on each of its three ways.\<close>

lemma decided_known:
  assumes "co_map_discoveryGuidToName a (event_key G ev) \<noteq> None"
  shows "discovery G J M r x a now (Some ev) = a"
  using assms by (auto simp: discovery_def discovery_locked_def event_key_def split: option.splits)

lemma decided_refused:
  assumes "co_map_discoveryGuidToName a (event_key G ev) = None" "co_db_vscp_daemon a = Some db"
    and "x db (discovery_sql now (event_key G ev)) = (False, db')"
  shows "discovery G J M r x a now (Some ev) = a\<lparr>co_db_vscp_daemon := Some db'\<rparr>"
  using assms by (simp add: discovery_def discovery_locked_def event_key_def)

lemma decided_stored:
  assumes "co_map_discoveryGuidToName a (event_key G ev) = None" "co_db_vscp_daemon a = Some db"
    and "x db (discovery_sql now (event_key G ev)) = (True, db')"
  shows "disc_view (discovery G J M r x a now (Some ev)) =
    (Some db', (co_map_discoveryGuidToName a)(event_key G ev \<mapsto> ''Discovered''),
     co_published a @ [discovery_publish G J r a (event_key G ev) now], co_guid a, co_topicDiscovery a)"
  using assms
  by (simp add: discovery_def discovery_locked_def event_key_def disc_view_def Let_def split: prod.splits)

lemma publish_cong:
  "co_guid c = co_guid a \<Longrightarrow> co_topicDiscovery c = co_topicDiscovery a \<Longrightarrow>
     discovery_publish G J r c gs now = discovery_publish G J r a gs now"
  by (simp add: discovery_publish_def)

text \<open>The main thread stays out of the view.\<close>

lemma main_step_view:
  assumes "main_step M c c'"
  shows "disc_view c' = disc_view c"
  using assms
  by (cases rule: main_step.cases)
     (auto simp: disc_view_def CControlObject_sendEvent_def Let_def split: option.splits prod.splits)

lemma ahead_view: "disc_view c' = disc_view c \<Longrightarrow> ahead E a c' pc = ahead E a c pc"
  by (auto simp: ahead_def disc_view_def Let_def split: disc_pc.splits)

lemma section_pc [simp]:
  "\<not> in_section D_idle" "\<not> in_section (D_wait ev)" "in_section (D_find ev)" "in_section (D_insert ev)"
  "in_section (D_publish ev now)" "in_section (D_remember ev now)" "in_section D_unlock"
  by (simp_all add: in_section_def)

lemma open_call_pc [simp]:
  "open_call D_idle = []" "open_call (D_wait ev) = [ev]" "open_call (D_find ev) = [ev]"
  "open_call (D_insert ev) = [ev]" "open_call (D_publish ev now) = [ev]"
  "open_call (D_remember ev now) = [ev]" "open_call D_unlock = []"
  by (simp_all add: open_call_def)

lemma ahead_idle [simp]:
  "ahead E a c D_idle \<longleftrightarrow> disc_view c = disc_view a" "ahead E a c D_unlock \<longleftrightarrow> disc_view c = disc_view a"
  "ahead E a c (D_find ev) \<longleftrightarrow> disc_view c = disc_view a"
  by (simp_all add: ahead_def)

text \<open>The four parts of the invariant, step by step. Who is in the section:\<close>

lemma mutex_kept:
  assumes "discovery_step E i s t" and "\<forall>j. in_section (sy_pc s j) \<longleftrightarrow> sy_mutex s = Some j"
  shows "\<forall>j. in_section (sy_pc t j) \<longleftrightarrow> sy_mutex t = Some j"
  using assms(1)
proof (cases rule: discovery_step.cases)
  case (d_unlock)
  with assms(2) have "sy_mutex s = Some i" by (metis section_pc(7))
  with d_unlock assms(2) show ?thesis by auto
next
  case (d_lock ev)
  with assms(2) show ?thesis by auto
qed (simp_all, (metis assms(2) section_pc)+)

interpretation sm: mutex_protocol "\<lambda>s. s = sys_init c0" "sys_step E" sy_mutex "\<lambda>i s. in_section (sy_pc s i)"
  for E c0
  by unfold_locales (auto simp: sys_init_def elim!: sys_stepE dest: mutex_kept)

lemma sys_reachable_steps: "sys_reachable E c0 s \<Longrightarrow> (sys_step E)\<^sup>*\<^sup>* (sys_init c0) s"
  by (induction rule: sys_reachable.induct) (auto intro: rtranclp.rtrancl_into_rtrancl)

text \<open>The database stays open.\<close>

lemma database_kept:
  assumes "discovery_step E i s t" and "\<forall>j. sy_pc s j \<noteq> D_idle \<longrightarrow> co_db_vscp_daemon (sy_ctl s) \<noteq> None"
  shows "\<forall>j. sy_pc t j \<noteq> D_idle \<longrightarrow> co_db_vscp_daemon (sy_ctl t) \<noteq> None"
  using assms(1) by (cases rule: discovery_step.cases) (use assms(2) in auto)

text \<open>Every call is decided once, in the order in which its thread makes them.\<close>

lemma calls_kept:
  assumes "discovery_step E i s t" and "\<forall>j. sy_calls s j =
      map (fst \<circ> snd) (filter (\<lambda>x. fst x = j) (sy_done s)) @ open_call (sy_pc s j)"
  shows "\<forall>j. sy_calls t j =
      map (fst \<circ> snd) (filter (\<lambda>x. fst x = j) (sy_done t)) @ open_call (sy_pc t j)"
  using assms(1) by (cases rule: discovery_step.cases) (use assms(2) in auto)

text \<open>The control object is as far ahead of the decided calls as the place of the holder says.\<close>

lemma ahead_kept:
  assumes "discovery_step E i s t" and "\<forall>j. in_section (sy_pc s j) \<longleftrightarrow> sy_mutex s = Some j"
    and "ahead E (serial E c0 (sy_done s)) (sy_ctl s) (case sy_mutex s of None \<Rightarrow> D_idle | Some i \<Rightarrow> sy_pc s i)"
  shows "ahead E (serial E c0 (sy_done t)) (sy_ctl t) (case sy_mutex t of None \<Rightarrow> D_idle | Some i \<Rightarrow> sy_pc t i)"
proof -
  let ?a = "serial E c0 (sy_done s)" and ?M = "en_mqtt E"
  have held: "sy_mutex s = Some i" if "in_section (sy_pc s i)" using assms(2) that by simp
  have here: "ahead E ?a (sy_ctl s) (sy_pc s i)" if "in_section (sy_pc s i)"
    using assms(3) held [OF that] by simp
  have others: "sy_mutex s \<noteq> Some i" if "sy_pc s i = D_idle"
    using assms(2) that by (metis section_pc(1))
  from assms(1) show ?thesis
  proof (cases rule: discovery_step.cases)
    case d_unused
    then show ?thesis using assms(3) by (simp only:)
  next
    case (d_call ev)
    then show ?thesis using assms(3) others by (auto split: option.splits)
  next
    case (d_lock ev)
    then show ?thesis using assms(3) by simp
  next
    case (d_known ev)
    then have "disc_view (sy_ctl s) = disc_view ?a" "sy_mutex s = Some i"
      using here held by simp_all
    with d_known show ?thesis by (simp add: serial_snoc decided_known disc_view_def)
  next
    case (d_unknown ev)
    then have "disc_view (sy_ctl s) = disc_view ?a" "sy_mutex s = Some i"
      using here held by simp_all
    with d_unknown show ?thesis by (auto simp: ahead_def disc_view_def)
  next
    case (d_refused ev db now db')
    then have *: "disc_view (sy_ctl s) = disc_view ?a" "sy_mutex s = Some i"
      "co_map_discoveryGuidToName ?a (event_key (en_guid E) ev) = None"
      using here held by (simp_all add: ahead_def)
    with d_refused have "co_db_vscp_daemon ?a = Some db" by (simp add: disc_view_def)
    from decided_refused [OF *(3) this, where x = "en_exec E", OF d_refused(4)] d_refused * show ?thesis
      by (simp add: serial_snoc disc_view_def)
  next
    case (d_stored ev db now db')
    then have *: "disc_view (sy_ctl s) = disc_view ?a" "sy_mutex s = Some i"
      "co_map_discoveryGuidToName ?a (event_key (en_guid E) ev) = None"
      using here held by (simp_all add: ahead_def)
    with d_stored have "co_db_vscp_daemon ?a = Some db" by (simp add: disc_view_def)
    with d_stored * show ?thesis by (simp add: ahead_def disc_view_def)
  next
    case (d_publish ev now p)
    then have *: "ahead E ?a (sy_ctl s) (D_publish ev now)" "sy_mutex s = Some i"
      using here held by simp_all
    then have "co_guid (sy_ctl s) = co_guid ?a" "co_topicDiscovery (sy_ctl s) = co_topicDiscovery ?a"
      by (simp_all add: ahead_def Let_def)
    from publish_cong [OF this] d_publish * show ?thesis by (simp add: ahead_def)
  next
    case (d_remember ev now)
    then have *: "ahead E ?a (sy_ctl s) (D_remember ev now)" "sy_mutex s = Some i"
      using here held by simp_all
    then obtain db db' where "co_db_vscp_daemon ?a = Some db"
      "en_exec E db (discovery_sql now (event_key (en_guid E) ev)) = (True, db')"
      "co_map_discoveryGuidToName ?a (event_key (en_guid E) ev) = None"
      "co_db_vscp_daemon (sy_ctl s) = Some db'"
      by (auto simp: ahead_def Let_def)
    from decided_stored [OF this(3,1), where x = "en_exec E", OF this(2)] this(4) d_remember * show ?thesis
      by (simp add: serial_snoc) (simp add: disc_view_def ahead_def Let_def)
  next
    case d_unlock
    then show ?thesis using here by simp
  qed
qed

lemma sys_inv_reachable:
  assumes "sys_reachable E c0 s"
  shows "sys_inv E c0 s"
  using assms
proof (induction rule: sys_reachable.induct)
  case sys_start
  show ?case by (simp add: sys_inv_def sys_init_def serial_def)
next
  case (sys_more s t)
  from sys_more.hyps(2) show ?case
  proof (cases rule: sys_step.cases)
    case (by_thread i)
    note inv = sys_more.IH [unfolded sys_inv_def]
    show ?thesis unfolding sys_inv_def
      using mutex_kept [OF by_thread] ahead_kept [OF by_thread] database_kept [OF by_thread]
        calls_kept [OF by_thread] inv by blast
  next
    case (by_main c)
    from main_step_view [OF by_main(2)] have v: "disc_view c = disc_view (sy_ctl s)" .
    then have "co_db_vscp_daemon c = co_db_vscp_daemon (sy_ctl s)" by (simp add: disc_view_def)
    with sys_more.IH by_main v ahead_view [OF v, of E "serial E c0 (sy_done s)"] show ?thesis
      by (simp add: sys_inv_def split: option.split_asm option.split)
  qed
qed

subsection \<open>One call after the other\<close>

text \<open>C11: Concurrent calls of \<open>discovery\<close> behave as if they came one after the other: whenever no thread
  holds the mutex, the database, the map, the announcements and the settings they depend on are those
  that the calls decided so far give in some order, and this order keeps that of every thread: the
  events of a thread in it are those the thread has reported, but for one it still waits with.\<close>

theorem discovery_serializable:
  assumes "sys_reachable E c0 s" and "sy_mutex s = None"
  shows "\<exists>calls. disc_view (sy_ctl s) = disc_view (foldl (\<lambda>c (i, ev, now).
             discovery (en_guid E) (en_json E) (en_mqtt E) (en_render E) (en_exec E) c now (Some ev)) c0 calls) \<and>
           (\<forall>i. sy_calls s i = [ev. (j, ev, now) \<leftarrow> calls, j = i] @ open_call (sy_pc s i))"
proof -
  note inv = sys_inv_reachable [OF assms(1), unfolded sys_inv_def]
  have "map (fst \<circ> snd) (filter (\<lambda>x. fst x = i) calls) = [ev. (j, ev, now) \<leftarrow> calls, j = i]"
    for i and calls :: "(nat \<times> vscp_event \<times> string) list"
    by (induction calls) auto
  with inv assms(2) show ?thesis
    by (intro exI [of _ "sy_done s"]) (simp add: serial_def)
qed

text \<open>The mutex is never left locked: the steps of the threads alone lead out of the section.\<close>

definition threads_only ::
    "('g, 'm, 'j, 'c, 'db) thread_env \<Rightarrow> ('g, 'm, 'j, 'db) disc_sys \<Rightarrow> ('g, 'm, 'j, 'db) disc_sys \<Rightarrow> bool" where
  "threads_only E = (\<lambda>s t. \<exists>i. discovery_step E i s t)"

lemma threads_only_reachable:
  assumes "(threads_only E)\<^sup>*\<^sup>* s t" and "sys_reachable E c0 s"
  shows "sys_reachable E c0 t"
  using assms(1) by (induction rule: rtranclp_induct)
    (auto simp: threads_only_def intro: assms(2) sys_more by_thread)

lemma step_then: "discovery_step E i s u \<Longrightarrow> (threads_only E)\<^sup>*\<^sup>* u t \<Longrightarrow> (threads_only E)\<^sup>*\<^sup>* s t"
  by (rule converse_rtranclp_into_rtranclp) (auto simp: threads_only_def)

text \<open>The rest of the section, by the place of the thread.\<close>

abbreviation leaves where
  "leaves E i s \<equiv> (\<exists>t. (threads_only E)\<^sup>*\<^sup>* s t \<and> sy_mutex t = None \<and> sy_pc t = (sy_pc s)(i := D_idle))"

lemma leaves_step:
  assumes "discovery_step E i s u" and "leaves E i u" and "sy_pc u = (sy_pc s)(i := sy_pc u i)"
  shows "leaves E i s"
proof -
  from assms(2) obtain t where t: "(threads_only E)\<^sup>*\<^sup>* u t" "sy_mutex t = None" "sy_pc t = (sy_pc u)(i := D_idle)"
    by blast
  from t(3) assms(3) have "sy_pc t = (sy_pc s)(i := D_idle)" by (metis fun_upd_upd)
  with step_then [OF assms(1) t(1)] t(2) show ?thesis by blast
qed

lemma leaves_unlock: "sy_pc s i = D_unlock \<Longrightarrow> leaves E i s"
  by (rule exI [of _ "goto i D_idle (s\<lparr>sy_mutex := None\<rparr>)"])
     (use step_then [OF d_unlock rtranclp.rtrancl_refl, of s i E] in simp)

lemma leaves_remember: "sy_pc s i = D_remember ev now \<Longrightarrow> leaves E i s"
  by (rule leaves_step [OF d_remember leaves_unlock]) simp_all

lemma leaves_publish: "sy_pc s i = D_publish ev now \<Longrightarrow> leaves E i s"
  by (rule leaves_step [OF d_publish [OF _ refl] leaves_remember]) simp_all

lemma leaves_insert:
  assumes "sy_pc s i = D_insert ev" and "co_db_vscp_daemon (sy_ctl s) \<noteq> None"
  shows "leaves E i s"
proof -
  obtain db ok db' where x: "co_db_vscp_daemon (sy_ctl s) = Some db"
    "en_exec E db (discovery_sql [] (event_key (en_guid E) ev)) = (ok, db')"
    using assms(2) by (metis option.exhaust surj_pair)
  show ?thesis
  proof (cases ok)
    case True
    with x(2) show ?thesis
      by (intro leaves_step [OF d_stored [OF assms(1) x(1)] leaves_publish]) simp_all
  next
    case False
    with x(2) show ?thesis
      by (intro leaves_step [OF d_refused [OF assms(1) x(1)] leaves_unlock]) simp_all
  qed
qed

lemma leaves_find:
  assumes "sy_pc s i = D_find ev" and "co_db_vscp_daemon (sy_ctl s) \<noteq> None"
  shows "leaves E i s"
proof (cases "co_map_discoveryGuidToName (sy_ctl s) (event_key (en_guid E) ev) = None")
  case True
  then show ?thesis
    by (intro leaves_step [OF d_unknown [OF assms(1)] leaves_insert]) (simp_all add: assms(2))
next
  case False
  then show ?thesis by (intro leaves_step [OF d_known [OF assms(1)] leaves_unlock]) simp_all
qed

lemma leaves_section:
  assumes "in_section (sy_pc s i)" and "co_db_vscp_daemon (sy_ctl s) \<noteq> None"
  shows "leaves E i s"
  using assms leaves_find leaves_insert leaves_publish leaves_remember leaves_unlock
  by (cases "sy_pc s i") (simp, simp, blast+)

text \<open>At most one thread is between lock and unlock of \<open>discovery\<close>, and the mutex is never left
  locked: from every state that can be reached, a thread inside the function, wherever it and the
  others are, can be brought back out of it by steps of the threads alone.\<close>

lemma discovery_mutex:
  assumes "sys_reachable E c0 s"
  shows "(in_section (sy_pc s i) \<and> in_section (sy_pc s j) \<longrightarrow> i = j) \<and>
         (\<exists>t. (threads_only E)\<^sup>*\<^sup>* s t \<and> sy_pc t i = D_idle)"
proof
  note inv = sys_inv_reachable [OF assms, unfolded sys_inv_def]
  show "in_section (sy_pc s i) \<and> in_section (sy_pc s j) \<longrightarrow> i = j"
    using sm.one_inside [OF sys_reachable_steps [OF assms]] by blast
  show "\<exists>t. (threads_only E)\<^sup>*\<^sup>* s t \<and> sy_pc t i = D_idle"
  proof (cases "\<exists>ev. sy_pc s i = D_wait ev")
    case True
    then obtain ev where w: "sy_pc s i = D_wait ev" by blast
    have "\<exists>u. (threads_only E)\<^sup>*\<^sup>* s u \<and> sy_mutex u = None \<and> sy_pc u i = D_wait ev"
    proof (cases "sy_mutex s")
      case (Some j)
      with inv have "in_section (sy_pc s j)" by blast
      moreover from this have "sy_pc s j \<noteq> D_idle" by auto
      with inv have "co_db_vscp_daemon (sy_ctl s) \<noteq> None" by blast
      ultimately have "leaves E j s" by (rule leaves_section)
      then obtain u where u: "(threads_only E)\<^sup>*\<^sup>* s u" "sy_mutex u = None"
        "sy_pc u = (sy_pc s)(j := D_idle)" by blast
      from \<open>in_section (sy_pc s j)\<close> w have "j \<noteq> i" by auto
      with u w show ?thesis by auto
    qed (use w in blast)
    then obtain u where u: "(threads_only E)\<^sup>*\<^sup>* s u" "sy_mutex u = None" "sy_pc u i = D_wait ev" by blast
    let ?v = "goto i (D_find ev) (u\<lparr>sy_mutex := Some i\<rparr>)"
    from sys_inv_reachable [OF threads_only_reachable [OF u(1) assms]] u(3)
    have "co_db_vscp_daemon (sy_ctl u) \<noteq> None" by (auto simp: sys_inv_def)
    then have "leaves E i ?v" by (intro leaves_find [of _ _ ev]) simp_all
    then obtain t where t: "(threads_only E)\<^sup>*\<^sup>* ?v t" "sy_pc t i = D_idle" by auto
    from rtranclp_trans [OF u(1) step_then [OF d_lock [OF u(3,2)] t(1)]] t(2) show ?thesis by blast
  next
    case False
    show ?thesis
    proof (cases "sy_pc s i = D_idle")
      case other: False
      with False have "in_section (sy_pc s i)" by (cases "sy_pc s i") auto
      moreover from inv other have "co_db_vscp_daemon (sy_ctl s) \<noteq> None" by blast
      ultimately have "leaves E i s" by (rule leaves_section)
      then show ?thesis by auto
    qed blast
  qed
qed

subsection \<open>What a device thread sees of the others\<close>

text \<open>Of the control object a device thread uses, beside \<open>discovery\<close>, the server's GUID and the token
  maps, which no thread changes. Two control objects that agree on these are alike for it.\<close>

definition same_setup :: "('g, 'm, 'j, 'db) control \<Rightarrow> ('g, 'm, 'j, 'db) control \<Rightarrow> bool" where
  "same_setup c c' \<longleftrightarrow>
     co_guid c = co_guid c' \<and> co_map_class_id2Token c = co_map_class_id2Token c' \<and>
     co_map_type_id2Token c = co_map_type_id2Token c'"

definition twin :: "('g, 'm, 'j, 'db) thread \<Rightarrow> ('g, 'm, 'j, 'db) thread \<Rightarrow> bool" where
  "twin a b \<longleftrightarrow> th_dev a = th_dev b \<and> th_trace a = th_trace b \<and> same_setup (th_ctl a) (th_ctl b)"

abbreviation phase_twin where
  "phase_twin p \<equiv> (\<forall>a b. twin a b \<longrightarrow> rel_option (rel_sum (rel_prod (=) twin) twin) (p a) (p b))"

lemma run_phases_twin:
  assumes "\<forall>p\<in>set ps. phase_twin p" and "twin a b"
  shows "rel_option (rel_prod (=) twin) (run_phases ps a) (run_phases ps b)"
  using assms
proof (induction ps arbitrary: a b)
  case (Cons p ps)
  then have "rel_option (rel_sum (rel_prod (=) twin) twin) (p a) (p b)" by simp
  moreover have "rel_option (rel_prod (=) twin) (run_phases ps u) (run_phases ps v)" if "twin u v" for u v
    using Cons that by simp
  ultimately show ?case
    by (cases "p a"; cases "p b") (auto elim!: rel_sum.cases)
qed simp

lemma work_loop_twin:
  assumes "\<And>i a b. twin a b \<Longrightarrow> twin (body i a) (body i b)" and "twin a b"
  shows "rel_option twin (work_loop th_quit ask_quit body ts a) (work_loop th_quit ask_quit body ts b)"
  using assms(2)
proof (induction ts arbitrary: a b)
  case (Cons t ts)
  have "th_quit a = th_quit b" "twin (ask_quit a) (ask_quit b)"
    using Cons.prems by (simp_all add: twin_def thread_simps)
  with Cons show ?case by (cases t) (simp_all add: assms(1))
qed (auto simp: twin_def thread_simps)

lemma send_twin:
  assumes "twin a b"
  shows "twin (snd (CDeviceItem_sendEvent E now a pev)) (snd (CDeviceItem_sendEvent E now b pev))"
  using assms
  by (auto simp: CDeviceItem_sendEvent_def twin_def same_setup_def frame_simps Let_def split: option.splits)

lemma bodies_twin:
  assumes "twin a b"
  shows "twin (l1_blocking_body E i a) (l1_blocking_body E i b)"
    "twin (l1_polling_body E i a) (l1_polling_body E i b)" "twin (l2_body E i a) (l2_body E i b)"
proof -
  have call: "twin (driver_call p a) (driver_call p b)" if "twin a b" for p a b
    using that by (simp add: twin_def driver_call_def note_event_def)
  have dev: "th_dev (driver_call p a) = th_dev (driver_call p b)" if "twin a b" for p a b
    using that by (simp add: twin_def driver_call_def note_event_def)
  show "twin (l1_blocking_body E i a) (l1_blocking_body E i b)"
    using assms by (auto simp: l1_blocking_body_def Let_def call dev intro!: send_twin split: option.splits)
  show "twin (l1_polling_body E i a) (l1_polling_body E i b)"
    using assms by (auto simp: l1_polling_body_def Let_def call dev intro!: send_twin split: option.splits)
  show "twin (l2_body E i a) (l2_body E i b)"
    using assms by (auto simp: l2_body_def Let_def call intro!: send_twin split: option.splits)
qed

lemma client_setup_twin: "same_setup c c' \<Longrightarrow> client_setup E d c = client_setup E d c'"
  by (simp add: client_setup_def same_setup_def)

lemma load_required_twin: "phase_twin (load_required L ps)"
proof (induction ps)
  case (Cons p ps)
  then show ?case by (auto simp: Let_def twin_def thread_simps split: prod.splits)
qed simp

lemma load_l2_twin: "phase_twin (load_l2 L ps)"
proof (induction ps)
  case (Cons p ps)
  then show ?case by (auto simp: Let_def twin_def thread_simps split: prod.splits)
qed simp

lemma loop_twin:
  assumes "\<And>i a b. twin a b \<Longrightarrow> twin (body i a) (body i b)"
  shows "phase_twin (loop_phase body ticks)"
  using work_loop_twin [OF assms] by (auto simp: loop_phase_def option.rel_map)

lemma l1_loop_twin: "phase_twin (l1_loop E ticks)"
  using work_loop_twin [OF bodies_twin(1)] work_loop_twin [OF bodies_twin(2)]
  by (fastforce simp: l1_loop_def loop_phase_def option.rel_map twin_def thread_simps
        elim!: option.rel_mono_strong)

lemma steps_twin:
  "phase_twin (load_library L)" "phase_twin (load_optional L ps)" "phase_twin (l1_open L)"
  "phase_twin (l2_open E L)" "phase_twin (setup_client E)" "phase_twin (l1_connect E)"
  "phase_twin (l2_connect E)" "phase_twin (l1_level L)" "phase_twin (close_driver E)"
  "phase_twin bad_level"
  by (auto simp: load_library_def load_optional_all l1_open_def l2_open_def setup_client_def
        l1_connect_def l2_connect_def l1_level_def close_driver_def bad_level_def
        twin_def client_setup_twin thread_simps Let_def split: prod.splits)

lemma phases_twin:
  assumes "p \<in> set (thread_phases E L ticks lvl)"
  shows "phase_twin p"
proof -
  have "phase_twin (loop_phase (l2_body E) ticks)" by (rule loop_twin) (rule bodies_twin(3))
  note all = this steps_twin load_required_twin load_l2_twin l1_loop_twin
  from assms consider "p = load_library L" | "p = load_required L l1_required"
    | "p = load_optional L l1_optional" | "p = l1_open L" | "p = setup_client E" | "p = l1_connect E"
    | "p = l1_level L" | "p = l1_loop E ticks" | "p = close_driver E" | "p = load_l2 L l2_required"
    | "p = l2_open E L" | "p = l2_connect E" | "p = loop_phase (l2_body E) ticks" | "p = bad_level"
    by (auto simp: thread_phases_def split: if_splits)
  then show ?thesis by cases (erule ssubst, rule all)+
qed

text \<open>What the device threads share does not show at the drivers: a device thread started on two
  control objects with the same server GUID and token maps, whatever nodes are known in each and
  whatever its events change there, makes the same calls into its driver and its client, ends in the
  same way and leaves its device in the same state.\<close>

lemma deviceThread_independent:
  assumes "same_setup c c'"
  shows "map_option (\<lambda>(x, th). (x, th_dev th, th_trace th))
           (deviceThread E L ticks \<lparr>th_dev = d, th_ctl = c, th_trace = tr\<rparr>) =
         map_option (\<lambda>(x, th). (x, th_dev th, th_trace th))
           (deviceThread E L ticks \<lparr>th_dev = d, th_ctl = c', th_trace = tr\<rparr>)"
proof -
  let ?a = "\<lparr>th_dev = d, th_ctl = c, th_trace = tr\<rparr>" and ?b = "\<lparr>th_dev = d, th_ctl = c', th_trace = tr\<rparr>"
  have "twin ?a ?b" using assms by (simp add: twin_def)
  then have "rel_option (rel_prod (=) twin) (deviceThread E L ticks ?a) (deviceThread E L ticks ?b)"
    unfolding deviceThread_def thread.select_convs by (intro run_phases_twin ballI phases_twin)
  then show ?thesis by (auto elim!: option.rel_cases simp: twin_def)
qed

text \<open>C19: Whatever events the device threads report and however their calls interleave with each other
  and with the main thread: whenever the mutex is free, the new messages on the discovery topic are
  one per node, for nodes that were not known at the start, each of which some thread has reported,
  and exactly these nodes have become known.\<close>

theorem nodes_announced_once:
  assumes "sys_reachable E c0 s" and "sy_mutex s = None"
  shows "\<exists>new. distinct (map fst new) \<and>
           fst ` set new \<inter> dom (co_map_discoveryGuidToName c0) = {} \<and>
           fst ` set new \<subseteq> (\<Union>i. event_key (en_guid E) ` set (sy_calls s i)) \<and>
           co_published (sy_ctl s) = co_published c0 @
             map (\<lambda>(gs, now). discovery_publish (en_guid E) (en_json E) (en_render E) c0 gs now) new \<and>
           dom (co_map_discoveryGuidToName (sy_ctl s)) =
             dom (co_map_discoveryGuidToName c0) \<union> fst ` set new"
proof -
  note inv = sys_inv_reachable [OF assms(1), unfolded sys_inv_def]
  let ?evs = "map snd (sy_done s)"
  have "serial E c0 (sy_done s) = foldl (\<lambda>c (ev, now). discovery (en_guid E) (en_json E) (en_mqtt E)
      (en_render E) (en_exec E) c now (Some ev)) c0 ?evs"
    by (simp add: serial_def foldl_map case_prod_unfold)
  moreover have "disc_view (sy_ctl s) = disc_view (serial E c0 (sy_done s))"
    using inv assms(2) by simp
  ultimately obtain new where new:
    "subseq new (map (\<lambda>(ev, now). (event_key (en_guid E) ev, now)) ?evs)" "distinct (map fst new)"
    "fst ` set new \<inter> dom (co_map_discoveryGuidToName c0) = {}"
    "co_published (sy_ctl s) = co_published c0 @
       map (\<lambda>(gs, now). discovery_publish (en_guid E) (en_json E) (en_render E) c0 gs now) new"
    "dom (co_map_discoveryGuidToName (sy_ctl s)) = dom (co_map_discoveryGuidToName c0) \<union> fst ` set new"
    using discovery_announces_once [of "en_guid E" ?evs c0 "en_json E" "en_mqtt E" "en_render E" "en_exec E"]
    by (auto simp: Let_def disc_view_def event_key_def)
  have "fst ` set new \<subseteq> (\<Union>i. event_key (en_guid E) ` set (sy_calls s i))"
  proof
    fix k assume "k \<in> fst ` set new"
    then obtain x where x: "x \<in> set new" "k = fst x" by blast
    have "set new \<subseteq> set (map (\<lambda>(ev, now). (event_key (en_guid E) ev, now)) ?evs)"
      by (rule subsetI, elim list_emb_set [OF new(1)], simp)
    with x(1) have "x \<in> (\<lambda>d. (event_key (en_guid E) (fst (snd d)), snd (snd d))) ` set (sy_done s)"
      by (force simp: case_prod_unfold)
    then obtain d where d: "d \<in> set (sy_done s)" "k = event_key (en_guid E) (fst (snd d))"
      using x(2) by force
    have "fst (snd d) \<in> set (sy_calls s (fst d))"
      using d(1) spec [OF conjunct2 [OF conjunct2 [OF conjunct2 [OF inv]]], of "fst d"] by force
    with d(2) show "k \<in> (\<Union>i. event_key (en_guid E) ` set (sy_calls s i))" by blast
  qed
  with new show ?thesis by blast
qed

text \<open>The steps of the main thread are what it does while the device threads run.\<close>

lemma periodicEvents_steps:
  assumes "periodicEvents K G M H ex c = Some (ok, c')"
  shows "(main_step M)\<^sup>*\<^sup>* c c'"
proof -
  from assms obtain e1 e2 e3 e4 where "c' = snd (CControlObject_sendEvent M (snd (CControlObject_sendEvent M
      (snd (CControlObject_sendEvent M (snd (CControlObject_sendEvent M c (Some e1))) (Some e2))) (Some e3))) (Some e4))"
    by (auto simp: periodicEvents_def Let_def split: prod.splits bind_splits)
  then show ?thesis by (meson m_send rtranclp.rtrancl_into_rtrancl rtranclp.rtrancl_refl)
qed

lemma drivers_steps:
  "main_step M c (snd (startDeviceWorkerThreads created c))"
  "main_step M c (snd (stopDeviceWorkerThreads E libs pos c))"
  by (simp_all add: startDeviceWorkerThreads_def stopDeviceWorkerThreads_def m_devices)

subsection \<open>Two threads\<close>

text \<open>Two threads report the same node at the same time; the second waits while the first stores
  and announces it.\<close>

definition ctl0 :: "(u8 list, nat, jv, nat) control" where
  "ctl0 = (CControlObject_new guid0 mqtt0)\<lparr>co_db_vscp_daemon := Some 0\<rparr>"

lemma ctl0_sel [lib_simps]:
  "co_db_vscp_daemon ctl0 = Some 0" "co_map_discoveryGuidToName ctl0 = Map.empty"
  "co_published ctl0 = []"
  by (simp_all add: ctl0_def CControlObject_new_def Let_def)

lemma two_threads:
  "\<exists>s. sys_reachable env0 ctl0 s \<and> sy_mutex s = None \<and> sy_pc s 1 = D_idle \<and> sy_pc s 2 = D_wait zero_event"
proof -
  have call: "\<exists>t. sys_reachable env0 ctl0 t \<and> sy_mutex t = sy_mutex s \<and> sy_ctl t = sy_ctl s \<and>
      sy_pc t = (sy_pc s)(i := D_wait zero_event)"
    if "sys_reachable env0 ctl0 s" "sy_pc s i = D_idle" "co_db_vscp_daemon (sy_ctl s) \<noteq> None" for s i
    using sys_more [OF that(1) by_thread [OF d_call [where E = env0 and ev = zero_event, OF that(2,3)]]] by force
  have 0: "sys_reachable env0 ctl0 (sys_init ctl0)" "sy_mutex (sys_init ctl0) = None"
    "sy_pc (sys_init ctl0) = (\<lambda>i. D_idle)" "sy_ctl (sys_init ctl0) = ctl0"
    by (simp_all add: sys_start) (simp_all add: sys_init_def)
  from call [OF 0(1), of 1] 0 obtain s1 where s1: "sys_reachable env0 ctl0 s1" "sy_mutex s1 = None"
    "sy_ctl s1 = ctl0" "sy_pc s1 = (\<lambda>i. D_idle)(1 := D_wait zero_event)"
    by (auto simp: lib_simps)
  from call [OF s1(1), of 2] s1 obtain s2 where s2: "sys_reachable env0 ctl0 s2" "sy_mutex s2 = None"
    "sy_ctl s2 = ctl0" "sy_pc s2 = (\<lambda>i. D_idle)(1 := D_wait zero_event, 2 := D_wait zero_event)"
    by (auto simp: lib_simps)
  let ?s3 = "goto 1 (D_find zero_event) (s2\<lparr>sy_mutex := Some 1\<rparr>)"
  have r3: "sys_reachable env0 ctl0 ?s3"
    by (rule sys_more [OF s2(1) by_thread [OF d_lock]]) (simp_all add: s2)
  have "leaves env0 1 ?s3" by (rule leaves_section) (simp_all add: s2 lib_simps)
  then obtain t where t: "(threads_only env0)\<^sup>*\<^sup>* ?s3 t" "sy_mutex t = None" "sy_pc t = (sy_pc ?s3)(1 := D_idle)"
    by blast
  from threads_only_reachable [OF t(1) r3] t s2 show ?thesis by (intro exI [of _ t]) simp
qed

theorem discovery_serializable_witness:
  "\<exists>(s :: (u8 list, nat, jv, nat) disc_sys) calls. sy_pc s 2 = D_wait zero_event \<and> sy_calls s 2 = [ev. (j, ev, now) \<leftarrow> calls, j = 2] @ [zero_event] \<and>
     disc_view (sy_ctl s) = disc_view (foldl (\<lambda>c (i :: nat, ev, now).
       discovery guid0 json0 mqtt0 render0 (\<lambda>db q. (True, Suc db)) c now (Some ev)) ctl0 calls)"
proof -
  from two_threads obtain s where s: "sys_reachable env0 ctl0 s" "sy_mutex s = None" "sy_pc s 2 = D_wait zero_event"
    by blast
  from discovery_serializable [OF s(1,2)] obtain calls where "sy_calls s 2 = [ev. (j, ev, now) \<leftarrow> calls, j = 2] @ [zero_event]"
    "disc_view (sy_ctl s) = disc_view (foldl (\<lambda>c (i :: nat, ev, now).
       discovery guid0 json0 mqtt0 render0 (\<lambda>db q. (True, Suc db)) c now (Some ev)) ctl0 calls)"
    using s(3) by (auto simp: env0_def)
  with s(3) show ?thesis by blast
qed

theorem nodes_announced_once_witness:
  "\<exists>(s :: (u8 list, nat, jv, nat) disc_sys) new. sy_pc s 2 = D_wait zero_event \<and> distinct (map fst new) \<and>
     length (co_published (sy_ctl s)) = length (new :: (string \<times> string) list)"
proof -
  from two_threads obtain s where s: "sys_reachable env0 ctl0 s" "sy_mutex s = None" "sy_pc s 2 = D_wait zero_event"
    by blast
  from nodes_announced_once [OF s(1,2)] obtain new where "distinct (map fst new)"
    "length (co_published (sy_ctl s)) = length (new :: (string \<times> string) list)"
    by (auto simp: lib_simps)
  with s(3) show ?thesis by blast
qed

lemma discovery_mutex_witness:
  "\<exists>(s :: (u8 list, nat, jv, nat) disc_sys) t. sy_pc s 2 = D_wait zero_event \<and> (threads_only env0)\<^sup>*\<^sup>* s t \<and> sy_pc t 2 = D_idle"
proof -
  from two_threads obtain s where s: "sys_reachable env0 ctl0 s" "sy_pc s 2 = D_wait zero_event" by blast
  from discovery_mutex [OF s(1), of 2] s(2) show ?thesis by blast
qed

lemma deviceThread_independent_witness:
  "map_option (\<lambda>(x, th). (x, th_trace th))
     (deviceThread env0 lib0 [Stop] \<lparr>th_dev = dev0 1, th_ctl = ctl0, th_trace = []\<rparr>) =
   map_option (\<lambda>(x, th). (x, th_trace th))
     (deviceThread env0 lib0 [Stop] \<lparr>th_dev = dev0 1, th_ctl = CControlObject_new guid0 mqtt0, th_trace = []\<rparr>)"
proof -
  have "same_setup ctl0 (CControlObject_new guid0 mqtt0)" by (simp add: same_setup_def ctl0_def)
  from deviceThread_independent [OF this, of env0 lib0 "[Stop]" "dev0 1" "[]",
      THEN arg_cong [where f = "map_option (\<lambda>(x, d, tr). (x, tr))"]]
  show ?thesis by (simp add: option.map_comp o_def case_prod_unfold)
qed

end
