(* ===== verification/EndToEnd.thy ===== *)
theory EndToEnd
  imports EventTypes InitCorrect DiscoveryThreads
begin

text \<open>
  From the configuration file to the broker: a driver that the configuration reader has put into the
  device list, started by \<open>startDriver\<close>, with a library that does its part.
\<close>

text \<open>What a driver library and the broker have to answer for a device.\<close>

definition driver_works ::
    "('g, 'm, 'j, 'c, 'db) thread_env \<Rightarrow> driver_lib \<Rightarrow> ('g, 'm, 'j) device
       \<Rightarrow> ('g, 'm, 'j, 'db) control \<Rightarrow> bool" where
  "driver_works E L d c \<longleftrightarrow>
     dl_opens L \<and> fst (mc_connect (en_mqtt E) (client_setup E d c)) \<and>
     (if di_driverLevel d = VSCP_DRIVER_LEVEL1
      then (\<forall>p\<in>set l1_required. \<not> snd (dl_sym L p)) \<and>
           dl_CanalOpen L (c_str (di_strParameter d)) (di_DeviceFlags d) > 0
      else (\<forall>p\<in>set l2_required. fst (dl_sym L p) \<noteq> 0) \<and>
           dl_VSCPOpen L (c_str (di_strParameter d)) (g_bytes (en_guid E) (di_guid d)) \<noteq> 0)"

lemma driver_works_exit:
  assumes "driver_works E L d c" and "di_driverLevel d \<in> {VSCP_DRIVER_LEVEL1, VSCP_DRIVER_LEVEL2}"
  shows "exit_spec E L d c = X_Done"
proof -
  have "find (\<lambda>p. snd (dl_sym L p)) l1_required = None" if "\<forall>p\<in>set l1_required. \<not> snd (dl_sym L p)"
    using that by (simp add: find_None_iff)
  moreover have "find (\<lambda>p. fst (dl_sym L p) = 0) l2_required = None" if "\<forall>p\<in>set l2_required. fst (dl_sym L p) \<noteq> 0"
    using that by (simp add: find_None_iff)
  ultimately show ?thesis
    using assms by (auto simp: exit_spec_def driver_works_def levels_differ levels_differ [symmetric] Let_def
        split: if_splits)
qed

lemma thread_emit_fits:
  assumes "conversion_laws (en_vscp E)" and "guid_laws (en_guid E)"
    and "\<forall>ev. an_event a = Some ev \<longrightarrow> event_fits 512 ev" and "ev \<in> set (thread_emit E L d a)"
  shows "event_fits 528 ev"
  using assms(3,4) level1_events_fit [OF assms(1) guid_lawsD(1) [OF assms(2)]]
  by (auto simp: thread_emit_def l1_blocking_emit_def l1_polling_emit_def l2_emit_def Let_def
        intro: to_ns_frame_fits [OF event_fits_mono [of 512]] split: if_splits option.splits)

text \<open>Starting leaves alone what the thread reads of its device.\<close>

lemma started_same:
  "thread_emit E L (d\<lparr>di_bThreadStarted := b\<rparr>) = thread_emit E L d"
  "driver_works E L (d\<lparr>di_bThreadStarted := b\<rparr>) c = driver_works E L d c"
  by (simp_all add: thread_emit_def driver_works_def client_setup_def)

text \<open>C9: A configured driver works: whatever the configuration says otherwise, every driver that the
  reader has put into the device list is started by \<open>startDriver\<close>, and its thread, if the library
  opens, has the required methods and opens the device, and the broker accepts the connection, hands
  exactly what the driver gave it before it was asked to quit to the broker, each message translated
  and framed as the configuration says, in order, every event typed; and it closes the driver.\<close>

theorem configured_driver_delivers:
  assumes "readJSON J G M CE j c = (r, c1)" and "co_deviceList c = []" and "d \<in> set (co_deviceList c1)"
    and "driver_works E L d c2" and "conversion_laws (en_vscp E)" and "guid_laws (en_guid E)"
    and "\<forall>a\<in>set is. \<forall>ev. an_event a = Some ev \<longrightarrow> event_fits 512 ev"
  shows "\<exists>d' th'. startDriver True d = (True, d') \<and> di_bThreadStarted d' \<and>
           deviceThread E L (map Iter is @ Stop # rest) \<lparr>th_dev = d', th_ctl = c2, th_trace = []\<rparr>
             = Some (X_Done, th') \<and>
           di_sent (th_dev th') = concat (map (thread_emit E L d) is) \<and>
           (\<forall>ev\<in>set (di_sent (th_dev th')). event_fits 528 ev) \<and> di_openHandle (th_dev th') = 0"
proof -
  let ?d = "d\<lparr>di_bThreadStarted := True\<rparr>" and ?ticks = "map Iter is @ Stop # rest"
  let ?th = "\<lparr>th_dev = ?d, th_ctl = c2, th_trace = []\<rparr>"
  have "list_all (ready_driver (ce_exists CE)) (co_deviceList (snd (readJSON J G M CE j c)))"
    by (rule readJSON_keeps_ready) (simp add: assms(2))
  with assms(1,3) have ready: "ready_driver (ce_exists CE) d" by (auto simp: list_all_iff)
  have "exit_spec E L ?d c2 = X_Done"
    using assms(4) ready by (intro driver_works_exit) (auto simp: started_same ready_driver_def)
  with ready have "map_option fst (deviceThread E L ?ticks ?th) = Some X_Done"
    by (simp add: deviceThread_exit ready_driver_def)
  then obtain th' where th': "deviceThread E L ?ticks ?th = Some (X_Done, th')" by auto
  have "di_sent (th_dev th') = concat (map (thread_emit E L d) is) \<and> di_openHandle (th_dev th') = 0"
    using deviceThread_output [OF th'] ready by (simp add: ready_driver_def started_same before_stop_append)
  moreover have "startDriver True d = (True, ?d)" using ready by (simp add: startDriver_def ready_driver_def)
  ultimately show ?thesis
    using th' thread_emit_fits [OF assms(5,6)] assms(7)
    by (intro exI [of _ ?d] exI [of _ th']) auto
qed

text \<open>A configuration with one level I driver.\<close>

definition cfg1 :: jv where
  "cfg1 = JObj [(''runasuser'', JStr []), (''guid'', JStr ''G''), (''servername'', JStr ''S''),
     (''classtypedb'', JStr []), (''maindb'', JStr []),
     (''drivers'', JObj [(''level1'', JArr [JObj [(''enable'', JBool True), (''name'', JStr ''a''),
          (''config'', JStr ''c''), (''path'', JStr ''p''), (''guid'', JStr ''g''), (''translation'', JNum 0)]]),
        (''level2'', JArr [])])]"

lemma readJSON1:
  assumes "co_deviceList c = []"
  shows "\<exists>r c1 d. readJSON json0 guid0 mqtt0 ce0 cfg1 c = (r, c1) \<and> co_deviceList c1 = [d] \<and>
     di_driverLevel d = VSCP_DRIVER_LEVEL1 \<and> di_translation d = 0"
  using assms
  by (simp add: cfg0_defs cfg1_def read_driver_list_def add_driver_def level1_entry_def or_throw_def
      entry_flags_def index_get_def num_as_def addItem_def new_item_def attach_mqtt_def CDeviceItem_new_def Let_def)

theorem configured_driver_delivers_witness:
  "\<exists>r c1 d d' th'. readJSON json0 guid0 mqtt0 ce0 cfg1 ctl0 = (r, c1) \<and> co_deviceList c1 = [d] \<and>
     startDriver True d = (True, d') \<and>
     deviceThread env8 lib0 [Iter (rx0 [7, 8]), Iter (rx0 [9]), Stop, Iter (rx0 [5])]
       \<lparr>th_dev = d', th_ctl = ctl0, th_trace = []\<rparr> = Some (X_Done, th') \<and>
     map ev_pdata (di_sent (th_dev th')) = [[7, 8], [9]]"
proof -
  have c: "co_deviceList ctl0 = []" by (simp add: ctl0_def CControlObject_new_def Let_def)
  from readJSON1 [OF this] obtain r c1 d where r: "readJSON json0 guid0 mqtt0 ce0 cfg1 ctl0 = (r, c1)"
    and d: "co_deviceList c1 = [d]" "di_driverLevel d = VSCP_DRIVER_LEVEL1" "di_translation d = 0" by blast
  have works: "driver_works env8 lib0 d ctl0"
    using d(2) by (simp add: driver_works_def env8_def lib_simps)
  have "\<forall>a\<in>set [rx0 [7, 8], rx0 [9]]. \<forall>ev. an_event a = Some ev \<longrightarrow> event_fits 512 ev" by (simp add: rx0_def)
  from configured_driver_delivers [OF r c _ works env8_laws this, of "[Iter (rx0 [5])]"] d(1)
  obtain d' th' where x: "startDriver True d = (True, d')"
    "deviceThread env8 lib0 [Iter (rx0 [7, 8]), Iter (rx0 [9]), Stop, Iter (rx0 [5])]
       \<lparr>th_dev = d', th_ctl = ctl0, th_trace = []\<rparr> = Some (X_Done, th')"
    "di_sent (th_dev th') = concat (map (thread_emit env8 lib0 d) [rx0 [7, 8], rx0 [9]])" by auto
  have "map ev_pdata (di_sent (th_dev th')) = [[7, 8], [9]]"
    unfolding x(3) using d(2,3)
    by (simp add: thread_emit_def driver_consts lib_simps has_proc_def l1_blocking_emit_def env8_def
        rx0_def l1_blocking_event_def outgoing_def)
  then show ?thesis
    by (intro exI [of _ r] exI [of _ c1] exI [of _ d] exI [of _ d'] exI [of _ th']) (simp only: r d(1) x(1,2) simp_thms)
qed

end
