(* ===== verification/Lifecycle.thy ===== *)
theory Lifecycle
  imports Drivers Mutex
begin

text \<open>
  The three threads that meet at one device: its worker thread (\<open>deviceThread\<close>), the thread that
  stops it (\<open>CDeviceItem::stopDriver\<close>) and the MQTT client's thread, which runs
  \<open>receive_event_callback\<close>. Their steps interleave arbitrarily; \<open>m_deviceMutex\<close> is a variable of the
  state. The sequential theory of the worker is \<open>DeviceThread\<close>; here each step is one action
  another thread can observe.
\<close>

subsection \<open>State\<close>

text \<open>Where the worker is: before \<open>dlopen\<close>, before the open call, before \<open>connect\<close>, in the work
  loop, before \<open>disconnect\<close>, before locking, before the close call, before unlocking, before
  \<open>dlclose\<close>, ended.\<close>

datatype worker_pc =
    W_load | W_open | W_connect | W_loop | W_disconnect | W_lock | W_close | W_unlock
  | W_dlclose | W_end

text \<open>Where the callback is: not running, before locking, before its test, inside the driver call
  with a handle, before unlocking.\<close>

datatype callback_pc = C_idle | C_lock | C_test | C_call int | C_unlock

text \<open>Where \<open>stopDriver\<close> is: not called, the flag set and joining, returned.\<close>

datatype stop_pc = S_idle | S_join | S_done

datatype owner = Worker | Callback

text \<open>\<open>ds_open\<close> is the driver's own view, the handle that is open in it; \<open>ds_handle\<close> is the variable
  \<open>m_openHandle\<close>. \<open>ds_listening\<close>: the client has connected, so the callback can run. It stays set
  after \<open>disconnect\<close>: a delivery that comes late is not excluded.\<close>

record device_state =
  ds_worker :: worker_pc
  ds_callback :: callback_pc
  ds_stop :: stop_pc
  ds_quit :: bool
  ds_handle :: int
  ds_open :: "int option"
  ds_loaded :: bool
  ds_mutex :: "owner option"
  ds_listening :: bool

definition ds_init :: device_state where
  "ds_init =
     \<lparr>ds_worker = W_load, ds_callback = C_idle, ds_stop = S_idle, ds_quit = False, ds_handle = 0,
      ds_open = None, ds_loaded = False, ds_mutex = None, ds_listening = False\<rparr>"

subsection \<open>Steps\<close>

text \<open>The worker. \<open>l2\<close> tells a level II driver. A step is labelled with the calls its statements make
  into the driver library and the client, in the order of the code (the history \<open>th_trace\<close> of
  \<open>DeviceThread\<close>). Leaving the function early is a step to \<open>W_end\<close>; a missing symbol leaves a level II
  library loaded, and a level I library for the first symbol only. \<open>CanalGetLevel\<close>, the one call between
  connecting and the loop, is in the step that connects; a step of the loop is one iteration.\<close>

definition loop_calls :: "bool \<Rightarrow> driver_proc list list" where
  "loop_calls l2 =
     (if l2 then [[P_VSCPRead]]
      else [[P_CanalBlockingReceive], [P_CanalDataAvailable], [P_CanalDataAvailable, P_CanalReceive]])"

inductive worker_does ::
    "bool \<Rightarrow> device_state \<Rightarrow> lib_event list \<Rightarrow> device_state \<Rightarrow> bool" for l2 where
  does_load: "ds_worker s = W_load \<Longrightarrow>
     worker_does l2 s [Dlopen] (s\<lparr>ds_worker := W_open, ds_loaded := True\<rparr>)"
| does_no_library: "ds_worker s = W_load \<Longrightarrow> worker_does l2 s [] (s\<lparr>ds_worker := W_end\<rparr>)"
| does_no_symbol: "ds_worker s = W_open \<Longrightarrow> (l2 \<longrightarrow> still_loaded) \<Longrightarrow>
     worker_does l2 s (if still_loaded then [] else [Dlclose])
       (s\<lparr>ds_worker := W_end, ds_loaded := still_loaded\<rparr>)"
| does_open: "ds_worker s = W_open \<Longrightarrow> (if l2 then h \<noteq> 0 else h > 0) \<Longrightarrow>
     worker_does l2 s [OpenCall h True] (s\<lparr>ds_worker := W_connect, ds_handle := h, ds_open := Some h\<rparr>)"
| does_open_fails: "ds_worker s = W_open \<Longrightarrow> (if l2 then h = 0 else h \<le> 0) \<Longrightarrow>
     worker_does l2 s [OpenCall h False, Dlclose]
       (s\<lparr>ds_worker := W_end, ds_handle := h, ds_loaded := False\<rparr>)"
| does_connect: "ds_worker s = W_connect \<Longrightarrow>
     worker_does l2 s (MqttConnect True # (if l2 then [] else [DriverCall P_CanalGetLevel (ds_handle s)]))
       (s\<lparr>ds_worker := W_loop, ds_listening := True\<rparr>)"
| does_connect_fails_l1: "ds_worker s = W_connect \<Longrightarrow> \<not> l2 \<Longrightarrow>
     worker_does l2 s [MqttConnect False, Dlclose] (s\<lparr>ds_worker := W_end, ds_loaded := False\<rparr>)"
| does_connect_fails_l2: "ds_worker s = W_connect \<Longrightarrow> l2 \<Longrightarrow>
     worker_does l2 s [MqttConnect False, CloseCall (ds_handle s), Dlclose]
       (s\<lparr>ds_worker := W_end, ds_handle := 0, ds_open := None, ds_loaded := False\<rparr>)"
| does_iteration: "ds_worker s = W_loop \<Longrightarrow> \<not> ds_quit s \<Longrightarrow> ps \<in> set (loop_calls l2) \<Longrightarrow>
     worker_does l2 s (map (\<lambda>p. DriverCall p (ds_handle s)) ps) s"
| does_leave_loop: "ds_worker s = W_loop \<Longrightarrow> ds_quit s \<Longrightarrow>
     worker_does l2 s [] (s\<lparr>ds_worker := W_disconnect, ds_quit := True\<rparr>)"
| does_disconnect: "ds_worker s = W_disconnect \<Longrightarrow>
     worker_does l2 s [MqttDisconnect] (s\<lparr>ds_worker := W_lock\<rparr>)"
| does_lock: "ds_worker s = W_lock \<Longrightarrow> ds_mutex s = None \<Longrightarrow>
     worker_does l2 s [] (s\<lparr>ds_worker := W_close, ds_mutex := Some Worker\<rparr>)"
| does_close: "ds_worker s = W_close \<Longrightarrow>
     worker_does l2 s [CloseCall (ds_handle s)] (s\<lparr>ds_worker := W_unlock, ds_open := None, ds_handle := 0\<rparr>)"
| does_unlock: "ds_worker s = W_unlock \<Longrightarrow>
     worker_does l2 s [] (s\<lparr>ds_worker := W_dlclose, ds_mutex := None\<rparr>)"
| does_dlclose: "ds_worker s = W_dlclose \<Longrightarrow>
     worker_does l2 s [Dlclose] (s\<lparr>ds_worker := W_end, ds_loaded := False\<rparr>)"

inductive worker_step :: "bool \<Rightarrow> device_state \<Rightarrow> device_state \<Rightarrow> bool" for l2 where
  does: "worker_does l2 s es t \<Longrightarrow> worker_step l2 s t"

lemmas w_load = does [OF does_load]
  and w_open = does [OF does_open]
  and w_no_symbol = does [OF does_no_symbol]
  and w_connect = does [OF does_connect]
  and w_leave_loop = does [OF does_leave_loop]
  and w_disconnect = does [OF does_disconnect]
  and w_lock = does [OF does_lock]
  and w_close = does [OF does_close]
  and w_unlock = does [OF does_unlock]
  and w_dlclose = does [OF does_dlclose]

text \<open>The callback, for a client that has connected. It calls the driver with the value of
  \<open>m_openHandle\<close> it has tested, by one of the methods that take an event, or leaves without a call.\<close>

inductive callback_does :: "device_state \<Rightarrow> lib_event list \<Rightarrow> device_state \<Rightarrow> bool" where
  calls_enter: "ds_callback s = C_idle \<Longrightarrow> ds_listening s \<Longrightarrow>
     callback_does s [] (s\<lparr>ds_callback := C_lock\<rparr>)"
| calls_lock: "ds_callback s = C_lock \<Longrightarrow> ds_mutex s = None \<Longrightarrow>
     callback_does s [] (s\<lparr>ds_callback := C_test, ds_mutex := Some Callback\<rparr>)"
| calls_return: "ds_callback s = C_test \<Longrightarrow> callback_does s [] (s\<lparr>ds_callback := C_unlock\<rparr>)"
| calls_driver: "ds_callback s = C_test \<Longrightarrow> \<not> (ds_quit s \<or> ds_handle s = 0) \<Longrightarrow>
     p \<in> {P_CanalSend, P_CanalBlockingSend, P_VSCPWrite} \<Longrightarrow>
     callback_does s [DriverCall p (ds_handle s)] (s\<lparr>ds_callback := C_call (ds_handle s)\<rparr>)"
| calls_called: "ds_callback s = C_call h \<Longrightarrow> callback_does s [] (s\<lparr>ds_callback := C_unlock\<rparr>)"
| calls_unlock: "ds_callback s = C_unlock \<Longrightarrow>
     callback_does s [] (s\<lparr>ds_callback := C_idle, ds_mutex := None\<rparr>)"

inductive callback_step :: "device_state \<Rightarrow> device_state \<Rightarrow> bool" where
  calls: "callback_does s es t \<Longrightarrow> callback_step s t"

lemmas c_enter = calls [OF calls_enter]
  and c_lock = calls [OF calls_lock]
  and c_return = calls [OF calls_return]
  and c_call = calls [OF calls_driver [where p = P_CanalSend]]
  and c_called = calls [OF calls_called]
  and c_unlock = calls [OF calls_unlock]

text \<open>\<open>stopDriver\<close>: set the flag, join the worker.\<close>

inductive stop_step :: "device_state \<Rightarrow> device_state \<Rightarrow> bool" where
  s_ask: "ds_stop s = S_idle \<Longrightarrow> stop_step s (s\<lparr>ds_stop := S_join, ds_quit := True\<rparr>)"
| s_join: "ds_stop s = S_join \<Longrightarrow> ds_worker s = W_end \<Longrightarrow> stop_step s (s\<lparr>ds_stop := S_done\<rparr>)"

inductive device_step :: "bool \<Rightarrow> device_state \<Rightarrow> device_state \<Rightarrow> bool" for l2 where
  by_worker: "worker_step l2 s t \<Longrightarrow> device_step l2 s t"
| by_callback: "callback_step s t \<Longrightarrow> device_step l2 s t"
| by_stop: "stop_step s t \<Longrightarrow> device_step l2 s t"

inductive reachable :: "bool \<Rightarrow> device_state \<Rightarrow> bool" for l2 where
  start: "reachable l2 ds_init"
| step: "reachable l2 s \<Longrightarrow> device_step l2 s t \<Longrightarrow> reachable l2 t"

inductive_cases device_stepE: "device_step l2 s t"
inductive_cases worker_doesE: "worker_does l2 s es t"
inductive_cases callback_doesE: "callback_does s es t"
inductive_cases worker_step_does: "worker_step l2 s t"
inductive_cases callback_step_does: "callback_step s t"
inductive_cases stop_stepE: "stop_step s t"

lemmas worker_stepE = worker_step_does worker_doesE
  and callback_stepE = callback_step_does callback_doesE

subsection \<open>The invariant\<close>

text \<open>Who holds the mutex is determined by where the worker and the callback are.\<close>

definition mutex_ok :: "device_state \<Rightarrow> bool" where
  "mutex_ok s \<longleftrightarrow>
     (ds_mutex s = Some Worker \<longleftrightarrow> ds_worker s \<in> {W_close, W_unlock}) \<and>
     (ds_mutex s = Some Callback \<longleftrightarrow> ds_callback s \<notin> {C_idle, C_lock})"

text \<open>What the library and the handle are like where the worker is.\<close>

definition handle_ok :: "device_state \<Rightarrow> bool" where
  "handle_ok s \<longleftrightarrow>
     (case ds_worker s of
        W_load \<Rightarrow> \<not> ds_listening s \<and> \<not> ds_loaded s \<and> ds_open s = None \<and> ds_handle s = 0
      | W_open \<Rightarrow> \<not> ds_listening s \<and> ds_loaded s \<and> ds_open s = None \<and> ds_handle s = 0
      | W_connect \<Rightarrow> \<not> ds_listening s \<and> ds_loaded s \<and> ds_open s = Some (ds_handle s) \<and> ds_handle s \<noteq> 0
      | W_unlock \<Rightarrow> ds_loaded s \<and> ds_open s = None \<and> ds_handle s = 0 \<and> ds_quit s
      | W_dlclose \<Rightarrow> ds_loaded s \<and> ds_open s = None \<and> ds_handle s = 0 \<and> ds_quit s
      | W_end \<Rightarrow> ds_listening s \<longrightarrow> \<not> ds_loaded s \<and> ds_open s = None \<and> ds_handle s = 0 \<and> ds_quit s
      | W_loop \<Rightarrow> ds_loaded s \<and> ds_open s = Some (ds_handle s) \<and> ds_handle s \<noteq> 0
      | _ \<Rightarrow> ds_loaded s \<and> ds_open s = Some (ds_handle s) \<and> ds_handle s \<noteq> 0 \<and> ds_quit s)"

text \<open>What the callback relies on while it runs.\<close>

definition callback_ok :: "device_state \<Rightarrow> bool" where
  "callback_ok s \<longleftrightarrow>
     (ds_callback s \<noteq> C_idle \<longrightarrow> ds_listening s) \<and>
     (\<forall>h. ds_callback s = C_call h \<longrightarrow> ds_loaded s \<and> ds_open s = Some h)"

text \<open>Stopping.\<close>

definition stop_ok :: "device_state \<Rightarrow> bool" where
  "stop_ok s \<longleftrightarrow>
     (ds_stop s \<noteq> S_idle \<longrightarrow> ds_quit s) \<and> (ds_stop s = S_done \<longrightarrow> ds_worker s = W_end)"

definition device_inv :: "device_state \<Rightarrow> bool" where
  "device_inv s \<longleftrightarrow> mutex_ok s \<and> handle_ok s \<and> callback_ok s \<and> stop_ok s"

lemmas inv_defs = device_inv_def mutex_ok_def handle_ok_def callback_ok_def stop_ok_def

lemma inv_init: "device_inv ds_init"
  by (simp add: inv_defs ds_init_def)

lemma inv_worker: "worker_step l2 s t \<Longrightarrow> device_inv s \<Longrightarrow> device_inv t"
  by (elim worker_stepE) (auto simp: inv_defs split: if_splits)

lemma inv_callback: "callback_step s t \<Longrightarrow> device_inv s \<Longrightarrow> device_inv t"
  by (elim callback_stepE) (auto simp: inv_defs split: worker_pc.splits)

lemma inv_stop: "stop_step s t \<Longrightarrow> device_inv s \<Longrightarrow> device_inv t"
  by (erule stop_stepE) (auto simp: inv_defs split: worker_pc.splits)

lemma inv_reachable: "reachable l2 s \<Longrightarrow> device_inv s"
  by (induction rule: reachable.induct)
     (auto simp: inv_init elim!: device_stepE dest: inv_worker inv_callback inv_stop)

lemma lifecycle_call:
  "reachable l2 s \<Longrightarrow> ds_callback s = C_call h \<Longrightarrow> ds_worker s \<in> {W_loop, W_disconnect, W_lock}"
  using inv_reachable [of l2 s] by (auto simp: inv_defs split: worker_pc.splits)

text \<open>The mutex of the device, shared by the worker and the callback.\<close>

fun in_driver :: "owner \<Rightarrow> device_state \<Rightarrow> bool" where
  "in_driver Worker s \<longleftrightarrow> ds_worker s \<in> {W_close, W_unlock}"
| "in_driver Callback s \<longleftrightarrow> ds_callback s \<notin> {C_idle, C_lock}"

lemma owner_all: "(\<forall>w :: owner. P w) \<longleftrightarrow> P Worker \<and> P Callback"
  by (metis owner.exhaust)

lemma agrees_mutex_ok: "(\<forall>w. in_driver w s \<longleftrightarrow> ds_mutex s = Some w) \<longleftrightarrow> mutex_ok s"
  by (auto simp: owner_all mutex_ok_def)

lemma mutex_ok_worker: "worker_step l2 s t \<Longrightarrow> mutex_ok s \<Longrightarrow> mutex_ok t"
  by (elim worker_stepE) (auto simp: mutex_ok_def split: if_splits)

lemma mutex_ok_callback: "callback_step s t \<Longrightarrow> mutex_ok s \<Longrightarrow> mutex_ok t"
  by (elim callback_stepE) (auto simp: mutex_ok_def)

lemma mutex_ok_stop: "stop_step s t \<Longrightarrow> mutex_ok s \<Longrightarrow> mutex_ok t"
  by (erule stop_stepE) (auto simp: mutex_ok_def)

lemma mutex_ok_step: "device_step l2 s t \<Longrightarrow> mutex_ok s \<Longrightarrow> mutex_ok t"
  by (elim device_stepE) (blast intro: mutex_ok_worker mutex_ok_callback mutex_ok_stop)+

interpretation dm: mutex_protocol "\<lambda>s. s = ds_init" "device_step l2" ds_mutex in_driver for l2
  by unfold_locales (simp add: owner_all ds_init_def, simp only: agrees_mutex_ok mutex_ok_step)

lemma reachable_steps: "reachable l2 s \<Longrightarrow> (device_step l2)\<^sup>*\<^sup>* ds_init s"
  by (induction rule: reachable.induct) (auto intro: rtranclp.rtrancl_into_rtrancl)


subsection \<open>Progress\<close>

fun worker_left :: "worker_pc \<Rightarrow> nat" where
  "worker_left W_load = 9" | "worker_left W_open = 8" | "worker_left W_connect = 7"
| "worker_left W_loop = 6" | "worker_left W_disconnect = 5" | "worker_left W_lock = 4"
| "worker_left W_close = 3" | "worker_left W_unlock = 2" | "worker_left W_dlclose = 1"
| "worker_left W_end = 0"

fun callback_left :: "callback_pc \<Rightarrow> nat" where
  "callback_left C_lock = 3" | "callback_left C_test = 2" | "callback_left (C_call h) = 2"
| "callback_left C_unlock = 1" | "callback_left C_idle = 0"

definition steps_left :: "device_state \<Rightarrow> nat" where
  "steps_left s = 3 * worker_left (ds_worker s) + callback_left (ds_callback s)"

text \<open>A quitting worker that has not ended can step towards its end, or the callback that keeps it
  from the mutex can step towards unlocking.\<close>

lemma some_step:
  assumes "device_inv s" and "ds_quit s" and "ds_worker s \<noteq> W_end"
  shows "\<exists>t. (worker_step l2 s t \<or> callback_step s t) \<and> steps_left t < steps_left s"
proof -
  let ?goal = "\<exists>t. (worker_step l2 s t \<or> callback_step s t) \<and> steps_left t < steps_left s"
  have W: ?goal if "worker_step l2 s t" "steps_left t < steps_left s" for t
    using that by blast
  have C: ?goal if "callback_step s t" "steps_left t < steps_left s" for t
    using that by blast
  show ?thesis
  proof (cases "ds_worker s")
    case W_lock
    show ?thesis
    proof (cases "ds_mutex s")
      case None
      with W_lock show ?thesis by (intro W [OF w_lock]) (simp_all add: steps_left_def)
    next
      case (Some o')
      then have "ds_callback s \<notin> {C_idle, C_lock}"
        using assms(1) W_lock by (cases o') (auto simp: inv_defs)
      then consider "ds_callback s = C_test" | h where "ds_callback s = C_call h"
        | "ds_callback s = C_unlock" by (cases "ds_callback s") auto
      then show ?thesis
      proof cases
        case 1
        then show ?thesis by (intro C [OF c_return]) (simp_all add: steps_left_def)
      next
        case 2
        then show ?thesis by (intro C [OF c_called]) (simp_all add: steps_left_def)
      next
        case 3
        then show ?thesis by (intro C [OF c_unlock]) (simp_all add: steps_left_def)
      qed
    qed
  next
    case W_load
    then show ?thesis by (intro W [OF w_load]) (simp_all add: steps_left_def)
  next
    case W_open
    then show ?thesis by (intro W [OF w_no_symbol [where still_loaded = True]]) (simp_all add: steps_left_def)
  next
    case W_connect
    then show ?thesis by (intro W [OF w_connect]) (simp_all add: steps_left_def)
  next
    case W_disconnect
    then show ?thesis by (intro W [OF w_disconnect]) (simp_all add: steps_left_def)
  next
    case W_close
    then show ?thesis by (intro W [OF w_close]) (simp_all add: steps_left_def)
  next
    case W_unlock
    then show ?thesis by (intro W [OF w_unlock]) (simp_all add: steps_left_def)
  next
    case W_dlclose
    then show ?thesis by (intro W [OF w_dlclose]) (simp_all add: steps_left_def)
  next
    case W_loop
    then show ?thesis
      using assms(2) by (intro W [OF w_leave_loop]) (simp_all add: steps_left_def)
  qed (use assms(3) in simp)
qed

lemma quit_step: "device_step l2 s t \<Longrightarrow> ds_quit s \<Longrightarrow> ds_quit t"
  by (auto elim!: device_stepE worker_stepE callback_stepE stop_stepE)

text \<open>Stopping a driver cannot deadlock: from every reachable state in which the device is asked to
  quit, wherever the worker, the callback and the mutex are, there is a run to a state in which the
  worker has ended and the join can return, and no step whatever takes the worker away from its
  end.\<close>

lemma stop_reaches_end:
  assumes "reachable l2 s" and "ds_quit s"
  shows "(\<exists>t. (device_step l2)\<^sup>*\<^sup>* s t \<and> ds_worker t = W_end) \<and>
         (\<forall>t. device_step l2 s t \<longrightarrow> worker_left (ds_worker t) \<le> worker_left (ds_worker s))"
proof
  show "\<exists>t. (device_step l2)\<^sup>*\<^sup>* s t \<and> ds_worker t = W_end"
    using assms
  proof (induction "steps_left s" arbitrary: s rule: less_induct)
    case less
    show ?case
    proof (cases "ds_worker s = W_end")
      case False
      with less.prems obtain t where t: "device_step l2 s t" "steps_left t < steps_left s"
        using some_step [OF inv_reachable] by_worker by_callback by metis
      with less.prems have "reachable l2 t" "ds_quit t" by (auto intro: step quit_step)
      with less.hyps [OF t(2)] obtain u where "(device_step l2)\<^sup>*\<^sup>* t u" "ds_worker u = W_end" by blast
      with t(1) show ?thesis by (meson converse_rtranclp_into_rtranclp)
    qed auto
  qed
  show "\<forall>t. device_step l2 s t \<longrightarrow> worker_left (ds_worker t) \<le> worker_left (ds_worker s)"
    by (auto elim!: device_stepE worker_stepE callback_stepE stop_stepE)
qed

subsection \<open>The protocol of the library\<close>

text \<open>The state of the library as the protocol of \<open>ThreadCorrect\<close> sees it.\<close>

definition ds_life :: "device_state \<Rightarrow> life" where
  "ds_life s =
     (if \<not> ds_loaded s then Unloaded
      else case ds_open s of None \<Rightarrow> Loaded
           | Some h \<Rightarrow> Open h (ds_worker s \<in> {W_loop, W_disconnect}))"

lemma worker_protocol:
  assumes "worker_does l2 s es t" and "device_inv s"
  shows "life_run (ds_life s) es = (if \<not> l2 \<and> MqttConnect False \<in> set es then None else Some (ds_life t))"
  using assms by (cases rule: worker_does.cases)
    (auto simp: inv_defs ds_life_def loop_calls_def split: if_splits)

lemma callback_protocol:
  assumes "callback_does s es t" and "device_inv s"
  shows "life_run (ds_life s) es = Some (ds_life t) \<and> MqttConnect False \<notin> set es"
  using assms by (cases rule: callback_does.cases)
    (auto simp: inv_defs ds_life_def split: worker_pc.splits)

lemma stop_protocol: "stop_step s t \<Longrightarrow> ds_life t = ds_life s"
  by (elim stop_stepE) (auto simp: ds_life_def split: option.split)

text \<open>A life of the device: the calls into the library and the client, by whatever thread, in the order in
  which they are made, and the state they lead to.\<close>

inductive device_life :: "bool \<Rightarrow> lib_event list \<Rightarrow> device_state \<Rightarrow> bool" for l2 where
  life_begins: "device_life l2 [] ds_init"
| life_worker: "device_life l2 tr s \<Longrightarrow> worker_does l2 s es t \<Longrightarrow> device_life l2 (tr @ es) t"
| life_callback: "device_life l2 tr s \<Longrightarrow> callback_does s es t \<Longrightarrow> device_life l2 (tr @ es) t"
| life_stop: "device_life l2 tr s \<Longrightarrow> stop_step s t \<Longrightarrow> device_life l2 tr t"

lemma device_life_reachable: "device_life l2 tr s \<Longrightarrow> reachable l2 s"
  by (induction rule: device_life.induct) (blast intro: reachable.intros device_step.intros does calls)+

lemma reachable_device_life: "reachable l2 s \<Longrightarrow> \<exists>tr. device_life l2 tr s"
  by (induction rule: reachable.induct)
     (blast intro: device_life.intros elim: device_stepE worker_step_does callback_step_does)+

lemma life_protocol:
  "device_life l2 tr s \<Longrightarrow>
     life_run Unloaded tr = (if \<not> l2 \<and> MqttConnect False \<in> set tr then None else Some (ds_life s))"
proof (induction rule: device_life.induct)
  case life_begins
  show ?case by (simp add: ds_life_def ds_init_def)
next
  case (life_worker tr s es t)
  from worker_protocol [OF life_worker(2) inv_reachable [OF device_life_reachable [OF life_worker(1)]]]
  show ?case using life_worker.IH by (auto simp: life_run_append split: if_splits)
next
  case (life_callback tr s es t)
  from callback_protocol [OF life_callback(2) inv_reachable [OF device_life_reachable [OF life_callback(1)]]]
  show ?case using life_callback.IH by (auto simp: life_run_append split: if_splits)
next
  case (life_stop tr s t)
  then show ?case by (simp add: stop_protocol)
qed

text \<open>C24: The interleaved device obeys the protocol of the driver library. Whatever the worker, the
  callback and \<open>stopDriver\<close> do and in whatever order, the sequence of all calls that were made (opening,
  the calls of the work loop, the events the callback sends in between, connecting, closing and
  unloading) is a run of the protocol, and it leads to the state the device is in; with exactly one
  exception, a level I worker whose client could not connect, which unloads the library of an open
  driver and so breaks the protocol for good.\<close>

theorem lifecycle_refines_protocol:
  assumes "device_life l2 tr s"
  shows "life_run Unloaded tr = (if \<not> l2 \<and> MqttConnect False \<in> set tr then None else Some (ds_life s))"
  by (rule life_protocol [OF assms])

subsection \<open>A concrete run\<close>

text \<open>A level I worker in its work loop, asked to quit, with a callback inside the driver.\<close>

definition ds_busy :: device_state where
  "ds_busy = \<lparr>ds_worker = W_loop, ds_callback = C_call 7, ds_stop = S_join, ds_quit = True,
      ds_handle = 7, ds_open = Some 7, ds_loaded = True, ds_mutex = Some Callback,
      ds_listening = True\<rparr>"

lemma busy_life:
  "device_life False [Dlopen, OpenCall 7 True, MqttConnect True, DriverCall P_CanalGetLevel 7,
     DriverCall P_CanalSend 7] ds_busy"
proof -
  have "device_life False [] ds_init" by (rule life_begins)
  from life_worker [OF this does_load] have
    "device_life False [Dlopen] (ds_init\<lparr>ds_worker := W_open, ds_loaded := True\<rparr>)" by (simp add: ds_init_def)
  from life_worker [OF this does_open [where h = 7]] have
    "device_life False [Dlopen, OpenCall 7 True] (ds_init\<lparr>ds_worker := W_connect, ds_loaded := True,
       ds_handle := 7, ds_open := Some 7\<rparr>)" by (simp add: ds_init_def)
  from life_worker [OF this does_connect] have loop:
    "device_life False [Dlopen, OpenCall 7 True, MqttConnect True, DriverCall P_CanalGetLevel 7]
       (ds_init\<lparr>ds_worker := W_loop, ds_loaded := True, ds_handle := 7, ds_open := Some 7,
          ds_listening := True\<rparr>)" (is "device_life False ?tr _") by (simp add: ds_init_def)
  from life_callback [OF this calls_enter] have
    "device_life False ?tr (ds_init\<lparr>ds_worker := W_loop, ds_loaded := True, ds_handle := 7,
       ds_open := Some 7, ds_listening := True, ds_callback := C_lock\<rparr>)" by (simp add: ds_init_def)
  from life_callback [OF this calls_lock] have
    "device_life False ?tr (ds_init\<lparr>ds_worker := W_loop, ds_loaded := True, ds_handle := 7,
       ds_open := Some 7, ds_listening := True, ds_callback := C_test, ds_mutex := Some Callback\<rparr>)"
    by (simp add: ds_init_def)
  from life_callback [OF this calls_driver [where p = P_CanalSend]] have
    "device_life False (?tr @ [DriverCall P_CanalSend 7]) (ds_init\<lparr>ds_worker := W_loop, ds_loaded := True,
       ds_handle := 7, ds_open := Some 7, ds_listening := True, ds_callback := C_call 7,
       ds_mutex := Some Callback\<rparr>)"
    by (simp add: ds_init_def)
  from life_stop [OF this s_ask] show ?thesis by (simp add: ds_init_def ds_busy_def)
qed

lemma busy_reachable: "reachable False ds_busy"
  by (rule device_life_reachable [OF busy_life])


lemma stop_reaches_end_witness:
  "\<exists>t. (device_step False)\<^sup>*\<^sup>* ds_busy t \<and> ds_worker t = W_end"
  using stop_reaches_end [OF busy_reachable] by (simp add: ds_busy_def)

theorem lifecycle_refines_protocol_witness:
  "life_run Unloaded [Dlopen, OpenCall 7 True, MqttConnect True, DriverCall P_CanalGetLevel 7,
     DriverCall P_CanalSend 7] = Some (Open 7 True)"
  using lifecycle_refines_protocol [OF busy_life] by (simp add: ds_busy_def ds_life_def)

end
