(* ===== verification/Teardown.thy ===== *)
theory Teardown
  imports Lifecycle DiscoveryThreads "HOL-Library.Multiset"
begin

text \<open>
  The end of the program: \<open>main\<close> deletes the control object after \<open>run\<close> and \<open>cleanup\<close>, and with it the
  device list and the devices (the destructors of \<open>controlobject.cpp\<close> and \<open>devicelist.cpp\<close>). What is
  acquired by the constructors and by \<open>init\<close> is compared with what the destructors release, in the
  states in which the device threads, the client threads and the calls of \<open>discovery\<close> can then be.
\<close>

subsection \<open>Resources\<close>

datatype item_part = I_mutexdeviceThread | I_deviceMutex | I_mutexinputQueue | I_seminputQueue | I_object

datatype resource =
  R_mutex_DeviceList | R_mutex_discovery | R_mosquitto | R_sqlite | R_db_vscp_daemon | R_item nat item_part

text \<open>What the constructors set up, the MQTT library (\<open>mosquitto_lib_init\<close>) included; \<open>ok\<close> tells whether
  the library function succeeds. The constructor of the control object returns at the first failure.\<close>

definition CDeviceItem_acquires :: "nat \<Rightarrow> resource list" where
  "CDeviceItem_acquires i =
     map (R_item i) [I_object, I_mutexdeviceThread, I_deviceMutex, I_mutexinputQueue, I_seminputQueue]"

definition CControlObject_acquires :: "(resource \<Rightarrow> bool) \<Rightarrow> resource list" where
  "CControlObject_acquires ok =
     (if \<not> ok R_mutex_DeviceList then []
      else if \<not> ok R_mutex_discovery then [R_mutex_DeviceList]
      else [R_mutex_DeviceList, R_mutex_discovery] @ (if ok R_mosquitto then [R_mosquitto] else []))"

text \<open>What a control object holds after \<open>init\<close>, every initialisation having succeeded: the mutexes, the
  MQTT library, the SQLite library, the database if it is open, and the devices of its list.\<close>

definition holds :: "('g, 'm, 'j, 'db) control \<Rightarrow> resource list" where
  "holds c =
     CControlObject_acquires (\<lambda>r. True) @ [R_sqlite] @
     (case co_db_vscp_daemon c of None \<Rightarrow> [] | Some db \<Rightarrow> [R_db_vscp_daemon]) @
     concat (map CDeviceItem_acquires [0..<length (co_deviceList c)])"

subsection \<open>Destructors\<close>

text \<open>\<open>locked\<close> tells which mutexes are locked. The device does not look at the result of destroying a
  mutex, and destroying a locked one is undefined behaviour: \<open>None\<close>.\<close>

definition destroy_all :: "(resource \<Rightarrow> bool) \<Rightarrow> resource list \<Rightarrow> resource list option" where
  "destroy_all locked rs = (if list_ex locked rs then None else Some rs)"

definition CDeviceItem_destroy :: "(resource \<Rightarrow> bool) \<Rightarrow> nat \<Rightarrow> resource list option" where
  "CDeviceItem_destroy locked i =
     map_option (\<lambda>rs. rs @ [R_item i I_object])
       (destroy_all locked
          (map (R_item i) [I_seminputQueue, I_mutexinputQueue, I_deviceMutex, I_mutexdeviceThread]))"

fun CDeviceList_destroy :: "(resource \<Rightarrow> bool) \<Rightarrow> nat list \<Rightarrow> resource list option" where
  "CDeviceList_destroy locked [] = Some []"
| "CDeviceList_destroy locked (i # is) =
     Option.bind (CDeviceItem_destroy locked i)
       (\<lambda>rs. map_option (\<lambda>rest. rs @ rest) (CDeviceList_destroy locked is))"

text \<open>The body of the destructor of the control object, which does look at the results and returns at
  the first mutex that is locked; the members, the device list among them, are destroyed after it in
  either case. Nothing in the program calls \<open>mosquitto_lib_cleanup\<close>.\<close>

definition CControlObject_body :: "(resource \<Rightarrow> bool) \<Rightarrow> ('g, 'm, 'j, 'db) control \<Rightarrow> resource list" where
  "CControlObject_body locked c =
     (case co_db_vscp_daemon c of None \<Rightarrow> [] | Some db \<Rightarrow> [R_db_vscp_daemon]) @
     (if locked R_mutex_DeviceList then []
      else R_mutex_DeviceList #
        (if locked R_mutex_discovery then [] else [R_mutex_discovery, R_sqlite]))"

definition CControlObject_destroy ::
    "(resource \<Rightarrow> bool) \<Rightarrow> ('g, 'm, 'j, 'db) control \<Rightarrow> resource list option" where
  "CControlObject_destroy locked c =
     map_option (\<lambda>items. CControlObject_body locked c @ items)
       (CDeviceList_destroy locked [0..<length (co_deviceList c)])"

text \<open>When a mutex cannot be initialised the constructor only returns, \<open>main\<close> does not learn of it, and
  the destructor destroys a mutex that was never initialised.\<close>

lemma failed_constructor:
  assumes "\<not> ok R_mutex_DeviceList \<or> \<not> ok R_mutex_discovery"
  shows "R_mutex_discovery \<in> set (CControlObject_body (\<lambda>_. False) c)"
    and "R_mutex_discovery \<notin> set (CControlObject_acquires ok)"
  using assms by (simp_all add: CControlObject_body_def CControlObject_acquires_def)

subsection \<open>What is locked then\<close>

text \<open>The lock of \<open>discovery\<close> is in the state of the interleaved calls, that of a device in the state of
  its threads; \<open>m_mutex_DeviceList\<close> and \<open>m_mutexinputQueue\<close> are never locked by the program, and
  \<open>m_mutexdeviceThread\<close> only by \<open>main\<close> itself, inside \<open>stopDriver\<close>.\<close>

definition locked_at ::
    "('g, 'm, 'j, 'db) disc_sys \<Rightarrow> (nat \<Rightarrow> device_state) \<Rightarrow> resource \<Rightarrow> bool" where
  "locked_at s dev r =
     (case r of R_mutex_discovery \<Rightarrow> sy_mutex s \<noteq> None
      | R_item i p \<Rightarrow> p = I_deviceMutex \<and> ds_mutex (dev i) \<noteq> None
      | _ \<Rightarrow> False)"

lemma idle_unlocked:
  assumes "sys_reachable E c0 s" and "\<forall>i. sy_pc s i = D_idle"
  shows "sy_mutex s = None"
  by (rule sm.all_out_free [OF sys_reachable_steps [OF assms(1)]]) (simp_all add: assms(2))

lemma stopped_unlocked:
  assumes "reachable l2 d" and "ds_stop d = S_done" and "ds_callback d = C_idle"
  shows "ds_mutex d = None"
proof (rule dm.all_out_free [OF reachable_steps [OF assms(1)]])
  from inv_reachable [OF assms(1)] assms(2) have "ds_worker d = W_end" by (simp add: inv_defs)
  with assms(3) show "\<forall>w. \<not> in_driver w d" by (simp add: owner_all)
qed simp

lemma destroy_unlocked:
  "\<forall>i\<in>set is. \<forall>p. \<not> locked (R_item i p) \<Longrightarrow>
     \<exists>rs. CDeviceList_destroy locked is = Some rs \<and> mset rs = mset (concat (map CDeviceItem_acquires is))"
proof (induction "is")
  case (Cons i "is")
  then obtain rs where "CDeviceList_destroy locked is = Some rs"
    "mset rs = mset (concat (map CDeviceItem_acquires is))" by auto
  with Cons.prems show ?case by (simp add: CDeviceItem_destroy_def destroy_all_def CDeviceItem_acquires_def [of i])
qed simp

lemma destroy_locked:
  "i \<in> set is \<Longrightarrow> locked (R_item i I_deviceMutex) \<Longrightarrow> CDeviceList_destroy locked is = None"
  by (induction "is") (auto simp: CDeviceItem_destroy_def destroy_all_def split: bind_splits)

text \<open>The resources released are those held, but for the MQTT library, which nothing cleans up; each is
  released once.\<close>

definition releases_all :: "('g, 'm, 'j, 'db) control \<Rightarrow> resource list \<Rightarrow> bool" where
  "releases_all c rs \<longleftrightarrow> add_mset R_mosquitto (mset rs) = mset (holds c) \<and> distinct rs"

text \<open>With no mutex of a device and not that of \<open>discovery\<close> locked, the deletion releases all these.\<close>

lemma destroy_complete:
  assumes "sy_mutex s = None" and "\<forall>i<length (co_deviceList c). ds_mutex (dev i) = None"
  shows "\<exists>rs. CControlObject_destroy (locked_at s dev) c = Some rs \<and> releases_all c rs"
proof -
  let ?is = "[0..<length (co_deviceList c)]" and ?locked = "locked_at s dev"
  have "\<forall>i\<in>set ?is. \<forall>p. \<not> ?locked (R_item i p)"
    using assms(2) by (auto simp: locked_at_def)
  from destroy_unlocked [OF this] obtain rs where rs: "CDeviceList_destroy ?locked ?is = Some rs"
    "mset rs = mset (concat (map CDeviceItem_acquires ?is))" by blast
  have "\<not> ?locked R_mutex_DeviceList" "\<not> ?locked R_mutex_discovery"
    using assms(1) by (simp_all add: locked_at_def)
  then have all: "CControlObject_destroy ?locked c = Some (CControlObject_body ?locked c @ rs)"
    "add_mset R_mosquitto (mset (CControlObject_body ?locked c @ rs)) = mset (holds c)"
    using rs by (auto simp: CControlObject_destroy_def CControlObject_body_def holds_def
        CControlObject_acquires_def split: option.splits)
  have "distinct (concat (map CDeviceItem_acquires ?is))"
    by (rule distinct_concat) (auto simp: CDeviceItem_acquires_def distinct_map inj_on_def)
  then have "distinct (holds c)"
    by (auto simp: holds_def CControlObject_acquires_def CDeviceItem_acquires_def split: option.splits)
  with all(2) have "distinct (R_mosquitto # CControlObject_body ?locked c @ rs)"
    by (metis mset.simps(2) mset_eq_imp_distinct_iff)
  with all show ?thesis by (auto simp: releases_all_def)
qed

text \<open>Whichever mutex of a device is locked, the deletion is undefined.\<close>

lemma destroy_undefined:
  assumes "i < length (co_deviceList c)" and "ds_mutex (dev i) \<noteq> None"
  shows "CControlObject_destroy (locked_at s dev) c = None"
  using destroy_locked [of i "[0..<length (co_deviceList c)]" "locked_at s dev"] assms
  by (simp add: CControlObject_destroy_def locked_at_def)

text \<open>The end of \<open>main\<close> releases everything once: when every device has been stopped, the client
  delivers no event any more and no call of \<open>discovery\<close> is under way, deleting the control object
  destroys no locked mutex, and what it releases is exactly what the constructors and \<open>init\<close> have
  acquired, every mutex and semaphore of every device, both mutexes of the control object, the
  database if it is open, the SQLite library and the devices themselves, each once, and all but
  the MQTT library.\<close>

lemma teardown_complete:
  assumes "sys_reachable E c0 s" and "\<forall>i. sy_pc s i = D_idle"
    and "\<forall>i<length (co_deviceList c). reachable (lev i) (dev i) \<and> ds_stop (dev i) = S_done \<and>
           ds_callback (dev i) = C_idle"
  shows "\<exists>rs. CControlObject_destroy (locked_at s dev) c = Some rs \<and> releases_all c rs"
  by (rule destroy_complete) (use assms(3) stopped_unlocked idle_unlocked [OF assms(1,2)] in blast)+

text \<open>A device that has been started, has connected and has been stopped.\<close>

definition stopped0 :: device_state where
  "stopped0 = \<lparr>ds_worker = W_end, ds_callback = C_idle, ds_stop = S_done, ds_quit = True, ds_handle = 0,
     ds_open = None, ds_loaded = False, ds_mutex = None, ds_listening = True\<rparr>"

lemma stopped0_reachable: "reachable l2 stopped0"
proof -
  let ?s = "\<lambda>w st q h op ld m l. \<lparr>ds_worker = w, ds_callback = C_idle, ds_stop = st, ds_quit = q, ds_handle = h,
     ds_open = op, ds_loaded = ld, ds_mutex = m, ds_listening = l\<rparr>"
  note go = step [OF _ by_worker]
  have "reachable l2 (?s W_load S_idle False 0 None False None False)" using start by (simp add: ds_init_def)
  from go [OF this w_load] have "reachable l2 (?s W_open S_idle False 0 None True None False)" by simp
  from go [OF this w_open [where h = 1]] have "reachable l2 (?s W_connect S_idle False 1 (Some 1) True None False)" by simp
  from go [OF this w_connect] have "reachable l2 (?s W_loop S_idle False 1 (Some 1) True None True)" by simp
  from step [OF this by_stop [OF s_ask]] have "reachable l2 (?s W_loop S_join True 1 (Some 1) True None True)" by simp
  from go [OF this w_leave_loop] have "reachable l2 (?s W_disconnect S_join True 1 (Some 1) True None True)" by simp
  from go [OF this w_disconnect] have "reachable l2 (?s W_lock S_join True 1 (Some 1) True None True)" by simp
  from go [OF this w_lock] have "reachable l2 (?s W_close S_join True 1 (Some 1) True (Some Worker) True)" by simp
  from go [OF this w_close] have "reachable l2 (?s W_unlock S_join True 0 None True (Some Worker) True)" by simp
  from go [OF this w_unlock] have "reachable l2 (?s W_dlclose S_join True 0 None True None True)" by simp
  from go [OF this w_dlclose] have "reachable l2 (?s W_end S_join True 0 None False None True)" by simp
  from step [OF this by_stop [OF s_join]] show ?thesis by (simp add: stopped0_def)
qed

lemma teardown_complete_witness:
  "\<exists>rs. CControlObject_destroy (locked_at (sys_init ctl0) (\<lambda>i. stopped0)) (ctl0\<lparr>co_deviceList := [dev0 1, dev0 2]\<rparr>)
         = Some rs \<and> length rs = 14"
proof -
  have "sys_reachable env0 ctl0 (sys_init ctl0)" by (rule sys_start)
  moreover have "\<forall>i. sy_pc (sys_init ctl0) i = D_idle" by (simp add: sys_init_def)
  moreover have "\<forall>i<length (co_deviceList (ctl0\<lparr>co_deviceList := [dev0 1, dev0 2]\<rparr>)).
      reachable False stopped0 \<and> ds_stop stopped0 = S_done \<and> ds_callback stopped0 = C_idle"
    using stopped0_reachable by (simp add: stopped0_def)
  ultimately obtain rs where rs: "CControlObject_destroy (locked_at (sys_init ctl0) (\<lambda>i. stopped0))
      (ctl0\<lparr>co_deviceList := [dev0 1, dev0 2]\<rparr>) = Some rs"
    "releases_all (ctl0\<lparr>co_deviceList := [dev0 1, dev0 2]\<rparr>) rs"
    using teardown_complete [where lev = "\<lambda>_. False" and dev = "\<lambda>_. stopped0"] by blast
  have "length rs + 1 = size (add_mset R_mosquitto (mset rs))" by simp
  also have "\<dots> = 15" unfolding rs(2) [unfolded releases_all_def, THEN conjunct1]
    by (simp add: holds_def CControlObject_acquires_def CDeviceItem_acquires_def lib_simps upt_rec)
  finally show ?thesis using rs(1) by (intro exI [of _ rs]) simp
qed

text \<open>A delivery of the client that comes after \<open>stopDriver\<close> has returned, if the client library
  allows one, makes the deletion unsafe although the driver is never called: a state can be reached
  in which the driver has been stopped and its thread has ended, and the callback still holds the
  mutex of the device, so that deleting the device destroys a locked mutex.\<close>

lemma late_delivery_breaks_teardown:
  "\<exists>d. reachable l2 d \<and> ds_stop d = S_done \<and> ds_worker d = W_end \<and> (\<forall>h. ds_callback d \<noteq> C_call h) \<and>
       CControlObject_destroy (locked_at s (\<lambda>_. d)) (c\<lparr>co_deviceList := x # xs\<rparr>) = None"
proof -
  let ?d = "stopped0\<lparr>ds_callback := C_test, ds_mutex := Some Callback\<rparr>"
  have "reachable l2 (stopped0\<lparr>ds_callback := C_lock\<rparr>)"
    by (rule step [OF stopped0_reachable by_callback [OF c_enter]]) (simp_all add: stopped0_def)
  from step [OF this by_callback [OF c_lock]] have "reachable l2 ?d" by (simp add: stopped0_def)
  moreover have "CDeviceItem_destroy (locked_at s (\<lambda>_. ?d)) 0 = None"
    by (simp add: CDeviceItem_destroy_def destroy_all_def locked_at_def)
  then have "CControlObject_destroy (locked_at s (\<lambda>_. ?d)) (c\<lparr>co_deviceList := x # xs\<rparr>) = None"
    by (simp add: CControlObject_destroy_def upt_conv_Cons del: upt_Suc)
  ultimately show ?thesis by (intro exI [of _ ?d]) (simp add: stopped0_def)
qed

end
