(* ===== verification/Platforms.thy ===== *)
theory Platforms
  imports HeartbeatCorrect
begin

text \<open>
  The other branches of \<open>getMacAddress\<close> (\<open>controlobject.cpp\<close>): for macOS the walk over the interface
  list, for Windows the NetBIOS queries of \<open>GetAdapterInfo\<close>; and the start GUID of \<open>init\<close> on each of
  the three platforms. What the operating system answers is an argument.
\<close>

subsection \<open>macOS\<close>

text \<open>An entry of the list of \<open>getifaddrs\<close>: its address may be missing, of another family, or a link
  address with a length and the bytes \<open>LLADDR\<close> points to.\<close>

datatype if_entry = NoAddr | OtherAddr | LinkAddr u8 "u8 list"

text \<open>The loop: \<open>sa_family\<close> is read before the pointer is tested, so an entry without an address is
  undefined behaviour (the outer \<open>None\<close>).\<close>

fun first_mac :: "if_entry list \<Rightarrow> u8 list option option" where
  "first_mac [] = Some None"
| "first_mac (NoAddr # cur) = None"
| "first_mac (OtherAddr # cur) = first_mac cur"
| "first_mac (LinkAddr alen mac # cur) =
     (if alen = 6 then
        (if mac ! 0 = 0 \<and> mac ! 1 = 0 \<and> mac ! 2 = 0 \<and> mac ! 3 = 0 \<and> mac ! 4 = 0 \<and> mac ! 5 = 0
         then first_mac cur else Some (Some mac))
      else first_mac cur)"

definition getMacAddress_apple ::
    "'g guid_api \<Rightarrow> if_entry list option \<Rightarrow> 'g \<Rightarrow> (bool \<times> 'g) option" where
  "getMacAddress_apple G iflist guid =
     (let g0 = g_clear G guid
      in case iflist of None \<Rightarrow> Some (False, g0)
         | Some entries \<Rightarrow>
             (case first_mac entries of
                None \<Rightarrow> None
              | Some None \<Rightarrow> Some (False, g0)
              | Some (Some mac) \<Rightarrow>
                  Some (True, set_ats G g0
                    [(0, 0xff), (1, 0xff), (2, 0xff), (3, 0xff), (4, 0xff), (5, 0xff), (6, 0xff), (7, 0xfe),
                     (8, mac ! 0), (9, mac ! 1), (10, mac ! 2), (11, mac ! 3),
                     (12, mac ! 4), (13, mac ! 5), (14, 0), (15, 0)])))"

subsection \<open>Windows\<close>

text \<open>What the two \<open>Netbios\<close> calls answer: their return codes (0 is \<open>NRC_GOODRET\<close>), which are also in
  \<open>ncb_retcode\<close>, and the adapter address.\<close>

record netbios =
  nb_reset :: u8
  nb_astat :: u8
  nb_address :: "u8 list"

definition hex_digit :: "nat \<Rightarrow> char" where
  "hex_digit n = ''0123456789ABCDEF'' ! n"

text \<open>\<open>%02X\<close> of a byte.\<close>

definition hex2 :: "u8 \<Rightarrow> string" where
  "hex2 b = [hex_digit (unat b div 16), hex_digit (unat b mod 16)]"

text \<open>\<open>ncb_retcode\<close> is a character type, so the stream writes the character and not the number.\<close>

definition GetAdapterInfo :: "netbios \<Rightarrow> bool \<times> string" where
  "GetAdapterInfo nb =
     (if nb_reset nb \<noteq> 0 then (False, ''error '' @ [char_of (unat (nb_reset nb))] @ '' on reset'')
      else if nb_astat nb = 0 then
        (True,
         hex2 (nb_address nb ! 0) @ '':'' @ hex2 (nb_address nb ! 1) @ '':'' @ hex2 (nb_address nb ! 2) @ '':'' @
         hex2 (nb_address nb ! 3) @ '':'' @ hex2 (nb_address nb ! 4) @ '':'' @ hex2 (nb_address nb ! 5))
      else (False, ''error '' @ [char_of (unat (nb_astat nb))] @ '' on ASTAT''))"

text \<open>The text of the GUID is made and dropped: \<open>guid\<close> is never assigned, and \<open>rv\<close> is still false.\<close>

definition mac_text :: "netbios \<Rightarrow> string" where
  "mac_text nb = ''FF:FF:FF:FF:FF:FF:FF:FE:'' @ snd (GetAdapterInfo nb) @ '':00:00''"

definition getMacAddress_windows :: "netbios \<Rightarrow> 'g \<Rightarrow> bool \<times> 'g" where
  "getMacAddress_windows nb guid =
     (if \<not> fst (GetAdapterInfo nb) then (False, guid)
      else (let strMac = mac_text nb; rv = False in (rv, guid)))"

subsection \<open>The GUID at start\<close>

text \<open>The operating system with what it answers.\<close>

datatype platform = Linux bool "u8 list option" | Apple "if_entry list option" | Windows netbios

definition getMacAddress_on :: "'g guid_api \<Rightarrow> platform \<Rightarrow> 'g \<Rightarrow> (bool \<times> 'g) option" where
  "getMacAddress_on G P guid =
     (case P of Linux sock hw \<Rightarrow> Some (getMacAddress G sock hw guid)
      | Apple iflist \<Rightarrow> getMacAddress_apple G iflist guid
      | Windows nb \<Rightarrow> Some (getMacAddress_windows nb guid))"

definition init_guid_on ::
    "'g guid_api \<Rightarrow> platform \<Rightarrow> u64 list option \<Rightarrow> u64 list \<Rightarrow> 'g \<Rightarrow> 'g option" where
  "init_guid_on G P host junk guid =
     (if g_is_null G guid then
        Option.bind (getMacAddress_on G P guid)
          (\<lambda>(ok, g). if ok then Some g else map_option snd (getIPAddress G host junk g))
      else Some guid)"

lemma init_guid_on_linux: "init_guid_on G (Linux sock hw) host junk guid = init_guid G sock hw host junk guid"
  by (auto simp: init_guid_on_def getMacAddress_on_def init_guid_def split: prod.splits)

text \<open>The text of a GUID: its bytes in hexadecimal with colons between.\<close>

fun guid_text :: "u8 list \<Rightarrow> string" where
  "guid_text [] = []"
| "guid_text [b] = hex2 b"
| "guid_text (b # bs) = hex2 b @ '':'' @ guid_text bs"

text \<open>The macOS walk finds the first hardware address that is six bytes long and not all zero.\<close>

definition has_mac :: "if_entry \<Rightarrow> bool" where
  "has_mac e \<longleftrightarrow> (case e of LinkAddr alen mac \<Rightarrow> alen = 6 \<and> (\<exists>i<6. mac ! i \<noteq> 0) | _ \<Rightarrow> False)"

lemma six: "(\<exists>i<6. P i) \<longleftrightarrow> P 0 \<or> P 1 \<or> P 2 \<or> P 3 \<or> P 4 \<or> P (5 :: nat)"
  by (auto simp: numeral_eq_Suc less_Suc_eq)

lemma first_mac_skips:
  "\<forall>e\<in>set es. e \<noteq> NoAddr \<and> \<not> has_mac e \<Longrightarrow> first_mac (es @ cur) = first_mac cur"
  by (induction es rule: first_mac.induct) (auto simp: has_mac_def six)

lemma first_mac_found: "has_mac (LinkAddr alen mac) \<Longrightarrow> first_mac (LinkAddr alen mac # cur) = Some (Some mac)"
  by (auto simp: has_mac_def six)

text \<open>With the same hardware address, macOS does what Linux does.\<close>

lemma apple_linux:
  "first_mac es = Some (Some mac) \<Longrightarrow>
     getMacAddress_apple G (Some es) guid = Some (getMacAddress G True (Some mac) guid)"
  by (simp add: getMacAddress_apple_def getMacAddress_def Let_def)

lemma mac_text_value:
  assumes "nb_reset nb = 0" and "nb_astat nb = 0" and "length (nb_address nb) = 6"
  shows "mac_text nb = guid_text (replicate 7 0xff @ [0xfe] @ nb_address nb @ [0, 0])"
proof -
  obtain m0 m1 m2 m3 m4 m5 where "nb_address nb = [m0, m1, m2, m3, m4, m5]"
    using assms(3) by (auto simp: numeral_eq_Suc length_Suc_conv)
  then show ?thesis
    using assms(1,2) by (simp add: mac_text_def GetAdapterInfo_def numeral_eq_Suc) (simp add: hex2_def hex_digit_def)
qed

text \<open>C39: A machine with a hardware address gets one GUID on Linux and on macOS, wherever in the
  interface list of the latter the address is, as long as no entry without an address is before it:
  seven bytes \<open>FF\<close>, \<open>FE\<close>, the address and two zeroes. On Windows the very text of this GUID is made
  from the adapter's answer and then dropped: the daemon takes the GUID of the IP address, as on a
  machine without any hardware address.\<close>

theorem mac_guid_platforms:
  assumes "guid_laws G" and "length mac = 6" and "\<exists>i<6. mac ! i \<noteq> 0" and "g_is_null G guid"
    and "\<forall>e\<in>set before. e \<noteq> NoAddr \<and> \<not> has_mac e"
    and "nb_reset nb = 0" and "nb_astat nb = 0" and "nb_address nb = mac"
  shows "let bytes = replicate 7 0xff @ [0xfe] @ mac @ [0, 0];
             apple = init_guid_on G (Apple (Some (before @ LinkAddr 6 mac # rest))) host junk guid
         in apple = init_guid_on G (Linux True (Some mac)) host junk guid \<and>
            map_option (g_bytes G) apple = Some bytes \<and> mac_text nb = guid_text bytes \<and>
            init_guid_on G (Windows nb) host junk guid = map_option snd (getIPAddress G host junk guid)"
proof -
  have "first_mac (before @ LinkAddr 6 mac # rest) = Some (Some mac)"
    using first_mac_skips [OF assms(5)] first_mac_found [of 6 mac rest] assms(3) by (simp add: has_mac_def)
  from apple_linux [OF this, of G guid] have
    "init_guid_on G (Apple (Some (before @ LinkAddr 6 mac # rest))) host junk guid
       = init_guid_on G (Linux True (Some mac)) host junk guid"
    by (simp add: init_guid_on_def getMacAddress_on_def)
  moreover have "map_option (g_bytes G) (init_guid_on G (Linux True (Some mac)) host junk guid)
      = Some (replicate 7 0xff @ [0xfe] @ mac @ [0, 0])"
    using getMacAddress_value [OF assms(1,2), of guid] assms(4)
    by (auto simp: init_guid_on_def getMacAddress_on_def)
  moreover have "init_guid_on G (Windows nb) host junk guid = map_option snd (getIPAddress G host junk guid)"
    using assms(4) by (simp add: init_guid_on_def getMacAddress_on_def getMacAddress_windows_def)
  moreover note mac_text_value [OF assms(6,7)]
  ultimately show ?thesis using assms(2,8) by (simp add: Let_def)
qed

theorem mac_guid_platforms_witness:
  "map_option (g_bytes guid0) (init_guid_on guid0 (Apple (Some [OtherAddr, LinkAddr 6 (replicate 6 0),
       LinkAddr 6 [1, 2, 3, 4, 5, 6], NoAddr])) None (replicate 16 0) (replicate 16 0)) =
     Some (replicate 7 0xff @ [0xfe] @ [1, 2, 3, 4, 5, 6] @ [0, 0])"
proof -
  let ?mac = "[1, 2, 3, 4, 5, 6] :: u8 list" and ?es = "[OtherAddr, LinkAddr 6 (replicate 6 0)]"
  let ?nb = "\<lparr>nb_reset = 0, nb_astat = 0, nb_address = ?mac\<rparr>"
  have mac: "length ?mac = 6" "\<exists>i<6. ?mac ! i \<noteq> 0" "g_is_null guid0 (replicate 16 0)"
    by (simp, rule exI [of _ 0], simp, simp add: lib_simps)
  moreover have "\<forall>e\<in>set ?es. e \<noteq> NoAddr \<and> \<not> has_mac e" by (simp add: has_mac_def six)
  ultimately have "map_option (g_bytes guid0) (init_guid_on guid0 (Apple (Some (?es @ LinkAddr 6 ?mac # [NoAddr])))
      None (replicate 16 0) (replicate 16 0)) = Some (replicate 7 0xff @ [0xfe] @ ?mac @ [0, 0])"
    using mac_guid_platforms [OF guid0_laws mac, of ?es ?nb "[NoAddr]" None "replicate 16 0"]
    unfolding Let_def netbios.select_convs by blast
  then show ?thesis by simp
qed

text \<open>Without an address of its own an entry of the list is dereferenced through a null pointer.\<close>

lemma apple_undefined:
  "\<forall>e\<in>set before. e \<noteq> NoAddr \<and> \<not> has_mac e \<Longrightarrow>
     getMacAddress_apple G (Some (before @ NoAddr # rest)) guid = None"
  by (simp add: getMacAddress_apple_def Let_def first_mac_skips)

end
