(* ===== verification/ClientLog.thy ===== *)
theory ClientLog
  imports Daemon
begin

text \<open>
  The five callbacks of the MQTT library in \<open>controlobject.cpp\<close>. Each writes at most one message to
  the default logger of the logging library, and nothing else; the code never installs them.
\<close>

text \<open>Decimal output of an \<open>int\<close>.\<close>

definition int_text :: "int \<Rightarrow> string" where
  "int_text n = (if n < 0 then CHR ''-'' # decimal (nat (- n)) else decimal (nat n))"

text \<open>\<open>mosq\<close> and \<open>pData\<close> tell whether the pointers are not null, \<open>named\<close> whether a logger of that name
  is registered with the logging library. The results are the messages with their levels.\<close>

type_synonym log_message = "log_level \<times> string"

definition mqtt_log_callback :: "(string \<Rightarrow> bool) \<Rightarrow> bool \<Rightarrow> bool \<Rightarrow> int \<Rightarrow> string \<Rightarrow> log_message list" where
  "mqtt_log_callback named mosq pData level logmsg =
     (if \<not> mosq then [] else if \<not> pData then []
      else if named ''logger'' then [(L_trace, ''MQTT log: '' @ c_str logmsg)] else [])"

definition mqtt_on_connect :: "(string \<Rightarrow> bool) \<Rightarrow> bool \<Rightarrow> bool \<Rightarrow> int \<Rightarrow> log_message list" where
  "mqtt_on_connect named mosq pData rv =
     (if \<not> mosq then [] else if \<not> pData then []
      else if named ''logger'' then [(L_debug, ''MQTT connect:'')] else [])"

definition mqtt_on_disconnect :: "(string \<Rightarrow> bool) \<Rightarrow> bool \<Rightarrow> bool \<Rightarrow> int \<Rightarrow> log_message list" where
  "mqtt_on_disconnect named mosq pData rv =
     (if \<not> mosq then [] else if \<not> pData then []
      else if named ''logger'' then [(L_debug, ''MQTT disconnect:'')] else [])"

record mosquitto_message =
  mm_topic :: string
  mm_payload :: string
  mm_payloadlen :: nat

text \<open>The payload is copied by its length, whatever bytes are in it, the topic up to its first NUL.\<close>

definition mqtt_on_message ::
    "(string \<Rightarrow> bool) \<Rightarrow> bool \<Rightarrow> bool \<Rightarrow> mosquitto_message option \<Rightarrow> log_message list" where
  "mqtt_on_message named mosq pData pMsg =
     (if \<not> mosq then [] else if \<not> pData then []
      else case pMsg of None \<Rightarrow> []
        | Some m \<Rightarrow>
            (let payload = take (mm_payloadlen m) (mm_payload m)
             in if named ''logger''
                then [(L_trace, ''MQTT Message: Topic = ['' @ c_str (mm_topic m) @ ''] - Payload: ['' @ payload @ '']'')]
                else []))"

definition mqtt_on_publish :: "(string \<Rightarrow> bool) \<Rightarrow> bool \<Rightarrow> bool \<Rightarrow> int \<Rightarrow> log_message list" where
  "mqtt_on_publish named mosq pData mid =
     (if \<not> mosq then [] else if \<not> pData then []
      else if named ''logger'' then [(L_trace, ''MQTT Publish: message id = '' @ int_text mid)] else [])"

lemmas callback_defs =
  mqtt_log_callback_def mqtt_on_connect_def mqtt_on_disconnect_def mqtt_on_message_def mqtt_on_publish_def

text \<open>Before \<open>main\<close> has registered its logger (\<open>console\<close> and \<open>app\<close> are the names until then) the callbacks
  are silent, and they never look behind a null pointer.\<close>

lemma callbacks_silent:
  assumes "\<not> named ''logger'' \<or> \<not> mosq \<or> \<not> pData"
  shows "mqtt_log_callback named mosq pData level logmsg = []" "mqtt_on_connect named mosq pData rv = []"
    "mqtt_on_disconnect named mosq pData rv = []" "mqtt_on_message named mosq pData pMsg = []"
    "mqtt_on_publish named mosq pData mid = []"
  using assms by (auto simp: callback_defs split: option.splits)

lemma message_whole_payload:
  assumes "named ''logger''" and "mm_payloadlen m = length (mm_payload m)"
  shows "\<exists>pre post. mqtt_on_message named True True (Some m) = [(L_trace, pre @ mm_payload m @ post)]"
  using assms by (intro exI [of _ "''MQTT Message: Topic = ['' @ c_str (mm_topic m) @ ''] - Payload: [''"] exI [of _ "'']''"])
    (simp add: callback_defs)

end
