(* ===== verification/ConfigSpec.thy ===== *)
theory ConfigSpec
  imports ConfigCorrect
begin

text \<open>
  A specification of the driver lists of a configuration (\<open>readJSON\<close> in \<open>controlobject.cpp\<close>): which
  devices a list adds and which MQTT block each of them ends up with, also where names occur twice,
  and that the reader implements it.
\<close>

subsection \<open>The specification\<close>

text \<open>The MQTT block of an entry.\<close>

definition entry_block :: "'j json_api \<Rightarrow> 'j \<Rightarrow> 'j option" where
  "entry_block J e =
     (if js_contains J e ''mqtt''
      then (case js_index J e ''mqtt'' of Inl _ \<Rightarrow> None | Inr v \<Rightarrow> if js_is_object J v then Some v else None)
      else None)"

text \<open>The blocks of the entries that add a device, with the names they are given for.\<close>

fun mqtt_blocks ::
    "'j json_api \<Rightarrow> (string \<Rightarrow> bool) \<Rightarrow> ('j \<Rightarrow> json_exn + 'g item_args option) \<Rightarrow> 'j list
       \<Rightarrow> (string \<times> 'j) list" where
  "mqtt_blocks J exists entry [] = []"
| "mqtt_blocks J exists entry (e # es) =
     (case entry e of
        Inr (Some (n, p, path, rest)) \<Rightarrow>
          (if exists path then (case entry_block J e of None \<Rightarrow> [] | Some v \<Rightarrow> [(n, v)]) else [])
      | _ \<Rightarrow> []) @ mqtt_blocks J exists entry es"

text \<open>A device after one block.\<close>

definition configured :: "'j json_api \<Rightarrow> ('g, 'm) mqtt_api \<Rightarrow> ('g, 'm, 'j) device \<Rightarrow> 'j \<Rightarrow> ('g, 'm, 'j) device" where
  "configured J M d v = d\<lparr>di_mqttConfig := v, di_mqttClient := snd (mc_init_json M (di_mqttClient d) (js_dump J v))\<rparr>"

text \<open>The first device of a name gets all blocks given for that name, one after the other; every further
  device of the name gets none.\<close>

fun with_blocks ::
    "'j json_api \<Rightarrow> ('g, 'm) mqtt_api \<Rightarrow> string set \<Rightarrow> (string \<times> 'j) list \<Rightarrow> ('g, 'm, 'j) device list
       \<Rightarrow> ('g, 'm, 'j) device list" where
  "with_blocks J M seen blocks [] = []"
| "with_blocks J M seen blocks (d # ds) =
     (if di_strName d \<in> seen then d
      else foldl (configured J M) d [v. (n, v) \<leftarrow> blocks, n = di_strName d])
     # with_blocks J M (insert (di_strName d) seen) blocks ds"

text \<open>Whether the client of a device takes a list of blocks, given one after the other.\<close>

fun takes :: "'j json_api \<Rightarrow> ('g, 'm) mqtt_api \<Rightarrow> ('g, 'm, 'j) device \<Rightarrow> 'j list \<Rightarrow> bool" where
  "takes J M d [] = True"
| "takes J M d (v # vs) =
     (fst (mc_init_json M (di_mqttClient d) (js_dump J v)) \<and> takes J M (configured J M d v) vs)"

text \<open>Whether every client takes the blocks that reach its device.\<close>

fun blocks_taken ::
    "'j json_api \<Rightarrow> ('g, 'm) mqtt_api \<Rightarrow> string set \<Rightarrow> (string \<times> 'j) list \<Rightarrow> ('g, 'm, 'j) device list \<Rightarrow> bool" where
  "blocks_taken J M seen blocks [] = True"
| "blocks_taken J M seen blocks (d # ds) =
     ((di_strName d \<in> seen \<or> takes J M d [v. (n, v) \<leftarrow> blocks, n = di_strName d]) \<and>
      blocks_taken J M (insert (di_strName d) seen) blocks ds)"

subsection \<open>The reader implements it\<close>

lemma configured_name [simp]: "di_strName (configured J M d v) = di_strName d"
  by (simp add: configured_def)

fun at_first :: "string \<Rightarrow> (('g, 'm, 'j) device \<Rightarrow> ('g, 'm, 'j) device) \<Rightarrow> ('g, 'm, 'j) device list
    \<Rightarrow> ('g, 'm, 'j) device list" where
  "at_first n f [] = []"
| "at_first n f (d # ds) = (if di_strName d = n then f d # ds else d # at_first n f ds)"

text \<open>Whether the client of the first device of a name takes a block.\<close>

fun first_takes :: "'j json_api \<Rightarrow> ('g, 'm) mqtt_api \<Rightarrow> string \<Rightarrow> 'j \<Rightarrow> ('g, 'm, 'j) device list \<Rightarrow> bool" where
  "first_takes J M n v [] = True"
| "first_takes J M n v (d # ds) =
     (if di_strName d = n then fst (mc_init_json M (di_mqttClient d) (js_dump J v)) else first_takes J M n v ds)"

lemma at_first_index:
  "at_first n f ds = (case getDeviceItemFromName ds n of None \<Rightarrow> ds | Some i \<Rightarrow> ds[i := f (ds ! i)])"
  unfolding getDeviceItemFromName_def by (induction ds) (auto split: option.splits)

lemma first_takes_index:
  "first_takes J M n v ds =
     (case getDeviceItemFromName ds n of None \<Rightarrow> True
      | Some i \<Rightarrow> fst (mc_init_json M (di_mqttClient (ds ! i)) (js_dump J v)))"
  unfolding getDeviceItemFromName_def by (induction ds) (auto split: option.splits)

lemma with_blocks_none [simp]: "with_blocks J M seen [] ds = ds"
  by (induction ds arbitrary: seen) auto

lemma blocks_taken_none [simp]: "blocks_taken J M seen [] ds"
  by (induction ds arbitrary: seen) auto

lemma with_blocks_seen: "n \<in> seen \<Longrightarrow> with_blocks J M seen ((n, v) # blocks) ds = with_blocks J M seen blocks ds"
  by (induction ds arbitrary: seen) auto

lemma blocks_taken_seen:
  "n \<in> seen \<Longrightarrow> blocks_taken J M seen ((n, v) # blocks) ds = blocks_taken J M seen blocks ds"
  by (induction ds arbitrary: seen) auto

lemma with_blocks_first:
  "n \<in> di_strName ` set ds \<Longrightarrow> n \<notin> seen \<Longrightarrow>
     with_blocks J M seen blocks (at_first n (\<lambda>d. configured J M d v) ds @ rest) =
       with_blocks J M seen ((n, v) # blocks) (ds @ rest)"
  by (induction ds arbitrary: seen) (auto simp: with_blocks_seen)

lemma blocks_taken_first:
  "n \<in> di_strName ` set ds \<Longrightarrow> n \<notin> seen \<Longrightarrow>
     blocks_taken J M seen ((n, v) # blocks) (ds @ rest) \<longleftrightarrow>
       first_takes J M n v ds \<and> blocks_taken J M seen blocks (at_first n (\<lambda>d. configured J M d v) ds @ rest)"
  by (induction ds arbitrary: seen) (auto simp: blocks_taken_seen)

text \<open>One entry.\<close>

lemma attach_step:
  assumes "json_laws J"
  shows "attach_mqtt J M e n c =
           (Inr (case entry_block J e of None \<Rightarrow> True | Some v \<Rightarrow> first_takes J M n v (co_deviceList c)),
            c\<lparr>co_deviceList :=
              (case entry_block J e of None \<Rightarrow> co_deviceList c
               | Some v \<Rightarrow> at_first n (\<lambda>d. configured J M d v) (co_deviceList c))\<rparr>)"
proof (cases "js_contains J e ''mqtt''")
  case True
  with json_lawsD(1) [OF assms] obtain v where "js_index J e ''mqtt'' = Inr v" by blast
  with True show ?thesis
    by (auto simp: attach_mqtt_def with_object_def go_on_def entry_block_def at_first_index first_takes_index
          configured_def split: option.splits prod.splits)
qed (simp add: attach_mqtt_def with_object_def go_on_def entry_block_def)

text \<open>When a list is read to its end, and with what result.\<close>

lemma driver_list_True:
  assumes "json_laws J"
  shows "for_elems (add_driver J G M exists entry) es c = (Inr True, c') \<longleftrightarrow>
     (\<forall>e\<in>set es. \<exists>a. entry e = Inr a) \<and>
     blocks_taken J M {} (mqtt_blocks J exists entry es)
       (co_deviceList c @ map (made_item G M J (co_guid c)) (wanted_items exists entry es)) \<and>
     c' = c\<lparr>co_deviceList := with_blocks J M {} (mqtt_blocks J exists entry es)
              (co_deviceList c @ map (made_item G M J (co_guid c)) (wanted_items exists entry es))\<rparr>"
proof (induction es arbitrary: c)
  case (Cons e es)
  consider (throws) x where "entry e = Inl x"
    | (skip) a where "entry e = Inr a" "\<not> (\<exists>n p path r. a = Some (n, p, path, r) \<and> exists path)"
    | (item) n p path r where "entry e = Inr (Some (n, p, path, r))" "exists path"
    by (cases "entry e") blast+
  then show ?case
  proof cases
    case throws
    then show ?thesis by (auto simp: then_step_True add_driver_def)
  next
    case skip
    then have "add_driver J G M exists entry e c = (Inr True, c)"
      by (auto simp: add_driver_def addItem_def split: option.splits prod.splits)
    moreover from skip have "wanted_items exists entry (e # es) = wanted_items exists entry es"
      "mqtt_blocks J exists entry (e # es) = mqtt_blocks J exists entry es"
      by (auto split: option.splits prod.splits)
    ultimately show ?thesis using Cons.IH skip(1) by (simp add: then_step_True)
  next
    case item
    let ?new = "made_item G M J (co_guid c) (n, p, path, r)"
    let ?c = "c\<lparr>co_deviceList := co_deviceList c @ [?new]\<rparr>"
    let ?rest = "map (made_item G M J (co_guid c)) (wanted_items exists entry es)"
    have n: "n \<in> di_strName ` set (co_deviceList ?c)"
      by (simp add: made_item_def dev_simps split: prod.splits)
    have step: "add_driver J G M exists entry e c = attach_mqtt J M e n ?c"
      using item by (simp add: add_driver_def addItem_def made_item_def split: prod.splits)
    have all: "co_deviceList c @ map (made_item G M J (co_guid c)) (wanted_items exists entry (e # es)) =
        co_deviceList ?c @ ?rest" using item by simp
    have entries: "(\<forall>e\<in>set (e # es). \<exists>a. entry e = Inr a) \<longleftrightarrow> (\<forall>e\<in>set es. \<exists>a. entry e = Inr a)"
      using item by simp
    have empty: "n \<notin> {}" by simp
    show ?thesis
    proof (cases "entry_block J e")
      case None
      with item have b: "mqtt_blocks J exists entry (e # es) = mqtt_blocks J exists entry es" by simp
      from None have "add_driver J G M exists entry e c = (Inr True, ?c)"
        by (simp add: step attach_step [OF assms])
      then show ?thesis unfolding all b entries using Cons.IH [of ?c] by (simp add: then_step_True)
    next
      case (Some v)
      let ?d = "?c\<lparr>co_deviceList := at_first n (\<lambda>d. configured J M d v) (co_deviceList ?c)\<rparr>"
      from Some item have b: "mqtt_blocks J exists entry (e # es) = (n, v) # mqtt_blocks J exists entry es" by simp
      from Some have "add_driver J G M exists entry e c = (Inr (first_takes J M n v (co_deviceList ?c)), ?d)"
        by (simp add: step attach_step [OF assms])
      then have "for_elems (add_driver J G M exists entry) (e # es) c = (Inr True, c') \<longleftrightarrow>
          first_takes J M n v (co_deviceList ?c) \<and> for_elems (add_driver J G M exists entry) es ?d = (Inr True, c')"
        by (auto simp: then_step_def)
      then show ?thesis
        unfolding all b entries blocks_taken_first [OF n empty]
          with_blocks_first [OF n empty, symmetric] Cons.IH [of ?d] by auto
    qed
  qed
qed auto

lemma takes_all: "\<forall>m s. fst (mc_init_json M m s) \<Longrightarrow> takes J M d vs"
  by (induction vs arbitrary: d) auto

lemma blocks_taken_all: "\<forall>m s. fst (mc_init_json M m s) \<Longrightarrow> blocks_taken J M seen blocks ds"
  by (induction ds arbitrary: seen) (auto simp: takes_all)

text \<open>What a list of driver entries means, for a client that takes every block. It adds, in the order of the configuration, one device for
  each entry that is enabled and complete and whose driver file exists. The MQTT block of an entry
  goes to the first device of that name, so with names that differ every driver has its own block;
  where a name occurs twice, in this list or with a driver that was there before, the first of them
  gets the blocks of all, one over the other, and the others keep the default client. Nothing else
  changes.\<close>

lemma driver_list_spec:
  assumes "json_laws J" and "\<forall>m s. fst (mc_init_json M m s)" and "\<forall>e\<in>set es. \<exists>a. entry e = Inr a"
  shows "for_elems (add_driver J G M exists entry) es c =
           (Inr True, c\<lparr>co_deviceList := with_blocks J M {} (mqtt_blocks J exists entry es)
              (co_deviceList c @ map (made_item G M J (co_guid c)) (wanted_items exists entry es))\<rparr>)"
  using driver_list_True [OF assms(1)] blocks_taken_all [OF assms(2)] assms(3) by blast

lemma driver_list_spec_witness:
  "map (\<lambda>d. (di_strName d, di_mqttConfig d)) (co_deviceList (snd (for_elems
     (add_driver json0 guid0 mqtt0 (\<lambda>_. True) (level2_entry json0 guid0))
     [JObj [(''enable'', JBool True), (''name'', JStr ''a''), (''path-config'', JStr ''c''),
            (''path-driver'', JStr ''p''), (''guid'', JStr ''g''), (''mqtt'', JObj [(''host'', JStr ''x'')])],
      JObj [(''enable'', JBool True), (''name'', JStr ''a''), (''path-config'', JStr ''c''),
            (''path-driver'', JStr ''q''), (''guid'', JStr ''h''), (''mqtt'', JObj [(''host'', JStr ''y'')])]]
     (CControlObject_new guid0 mqtt0 :: (u8 list, nat, jv, unit) control)))) =
   [(''a'', JObj [(''host'', JStr ''y'')]), (''a'', JNull)]"
proof -
  let ?e = "\<lambda>path guid host. JObj [(''enable'', JBool True), (''name'', JStr ''a''), (''path-config'', JStr ''c''),
     (''path-driver'', JStr path), (''guid'', JStr guid), (''mqtt'', JObj [(''host'', JStr host)])]"
  let ?entry = "level2_entry json0 guid0"
  have item: "?entry (?e path guid host) = Inr (Some (''a'', ''c'', path, 0, g_of_string guid0 guid,
      VSCP_DRIVER_LEVEL2, NO_TRANSLATION))" for path guid host
    by (simp add: level2_entry_def lib_simps or_throw_def index_get_def)
  have block: "entry_block json0 (?e path guid host) = Some (JObj [(''host'', JStr host)])" for path guid host
    by (simp add: entry_block_def lib_simps)
  have "\<forall>m s. fst (mc_init_json mqtt0 m s)" by (simp add: lib_simps)
  moreover have "\<forall>e\<in>set [?e ''p'' ''g'' ''x'', ?e ''q'' ''h'' ''y'']. \<exists>a. ?entry e = Inr a" by (simp add: item)
  ultimately show ?thesis
    using driver_list_spec [OF json0_laws, of mqtt0 "[?e ''p'' ''g'' ''x'', ?e ''q'' ''h'' ''y'']" ?entry guid0
      "\<lambda>_. True" "CControlObject_new guid0 mqtt0 :: (u8 list, nat, jv, unit) control"]
    by (simp add: item block made_item_def new_item_def CDeviceItem_new_def configured_def
        CControlObject_new_def Let_def lib_simps)
qed

text \<open>With names that differ, from each other and from those of the drivers before, every device has the
  block of its own entry.\<close>

lemma own_blocks:
  assumes "distinct (map fst blocks)" and "n \<in> set (map fst blocks)"
  shows "\<exists>v. [v. (m, v) \<leftarrow> blocks, m = n] = [v] \<and> (n, v) \<in> set blocks"
  using assms
proof (induction blocks)
  case (Cons b blocks)
  obtain m v where b: "b = (m, v)" by (cases b)
  show ?case
  proof (cases "m = n")
    case True
    with Cons.prems b have "n \<notin> fst ` set blocks" by auto
    then have "[v. (m, v) \<leftarrow> blocks, m = n] = []" by (induction blocks) auto
    with True b show ?thesis by simp
  qed (use Cons b in auto)
qed simp

end
