(* ===== verification/ConfigMeaning.thy ===== *)
theory ConfigMeaning
  imports ConfigSpec
begin

text \<open>
  The meaning of a configuration file as a whole (\<open>readJSON\<close> in \<open>controlobject.cpp\<close>): when a
  configuration is accepted, and what every field of the control object is then, as functions of the
  values found at their places in the configuration. The reader works section by section on the
  control object; here nothing depends on an order.
\<close>

subsection \<open>Values in a configuration\<close>

fun at_path :: "'j json_api \<Rightarrow> 'j \<Rightarrow> string list \<Rightarrow> 'j option" where
  "at_path J j [] = Some j"
| "at_path J j (k # ks) =
     (if js_contains J j k then (case js_at J j k of Inl _ \<Rightarrow> None | Inr v \<Rightarrow> at_path J v ks) else None)"

text \<open>The value of a setting: what stands at its place, if it has the right type, or else what it was.\<close>

definition setting :: "'j json_api \<Rightarrow> ('j \<Rightarrow> json_exn + 'v) \<Rightarrow> 'j \<Rightarrow> string list \<Rightarrow> 'v \<Rightarrow> 'v" where
  "setting J get j path cur =
     (case at_path J j path of None \<Rightarrow> cur | Some v \<Rightarrow> (case get v of Inl _ \<Rightarrow> cur | Inr x \<Rightarrow> x))"

definition string_at :: "'j json_api \<Rightarrow> 'j \<Rightarrow> string list \<Rightarrow> bool" where
  "string_at J j path \<longleftrightarrow> (\<exists>v s. at_path J j path = Some v \<and> js_get_string J v = Inr s)"

definition mqtt_block :: "'j json_api \<Rightarrow> 'j \<Rightarrow> 'j option" where
  "mqtt_block J j =
     (case at_path J j [''mqtt''] of None \<Rightarrow> None | Some v \<Rightarrow> if js_is_object J v then Some v else None)"

definition driver_entries :: "'j json_api \<Rightarrow> 'j \<Rightarrow> string \<Rightarrow> 'j list" where
  "driver_entries J j level =
     (case at_path J j [''drivers'', level] of None \<Rightarrow> []
      | Some v \<Rightarrow> if js_is_object J v then [] else js_elems J v)"

subsection \<open>The specification\<close>

text \<open>A level is the highest one whose name occurs in the text.\<close>

definition level_setting ::
    "'j json_api \<Rightarrow> (string \<Rightarrow> string) \<Rightarrow> 'j \<Rightarrow> string list \<Rightarrow> log_level \<Rightarrow> log_level" where
  "level_setting J lower j path cur =
     (let text = lower (setting J (js_get_string J) j path []);
          named = {l. \<exists>us vs. text = us @ level_word l @ vs}
      in if at_path J j path = None \<or> named = {} then cur else Max named)"

definition log_meaning ::
    "'j json_api \<Rightarrow> (string \<Rightarrow> string) \<Rightarrow> 'j \<Rightarrow> log_config \<Rightarrow> log_config" where
  "log_meaning J lower j g =
     (let flag = (\<lambda>k. setting J (js_get_bool J) j [''logging'', k]);
          text = (\<lambda>k. setting J (js_get_string J) j [''logging'', k]);
          level = (\<lambda>k. level_setting J lower j [''logging'', k]);
          number = (\<lambda>k. setting J (js_get_u16 J) j [''logging'', k])
      in \<lparr>lg_bEnableFileLog = flag ''file-enable-log'' (lg_bEnableFileLog g),
          lg_fileLogLevel = level ''file-log-level'' (lg_fileLogLevel g),
          lg_fileLogPattern = text ''file-pattern'' (lg_fileLogPattern g),
          lg_path_to_log_file = text ''file-path'' (lg_path_to_log_file g),
          lg_max_log_size = setting J (js_get_u32 J) j [''logging'', ''file-max-size''] (lg_max_log_size g),
          lg_max_log_files = number ''file-max-files'' (lg_max_log_files g),
          lg_bEnableConsoleLog = flag ''console-enable-log'' (lg_bEnableConsoleLog g),
          lg_consoleLogLevel = level ''console-log-level'' (lg_consoleLogLevel g),
          lg_consoleLogPattern = text ''console-pattern'' (lg_consoleLogPattern g),
          lg_bEnableSysLog = flag ''syslog-enable-log'' (lg_bEnableSysLog g),
          lg_sysLogLevel = level ''syslog-log-level'' (lg_sysLogLevel g),
          lg_sysLogIdent = text ''syslog-ident'' (lg_sysLogIdent g),
          lg_bEnableUdpLog = flag ''udp-enable-log'' (lg_bEnableUdpLog g),
          lg_udpLogLevel = level ''udp-log-level'' (lg_udpLogLevel g),
          lg_udpLogPattern = text ''udp-pattern'' (lg_udpLogPattern g),
          lg_udpLogHost = text ''udp-host'' (lg_udpLogHost g),
          lg_udpLogPort = number ''udp-port'' (lg_udpLogPort g)\<rparr>)"

text \<open>The GUID of the daemon; the devices before any MQTT block of a driver is looked at, those of both
  lists in order behind the ones that were there; and the MQTT blocks of both lists with the names
  they are given for.\<close>

definition config_guid :: "'j json_api \<Rightarrow> 'g guid_api \<Rightarrow> 'j \<Rightarrow> 'g \<Rightarrow> 'g" where
  "config_guid J G j g = g_from_string G g (setting J (js_get_string J) j [''guid''] [])"

definition config_devices ::
    "'j json_api \<Rightarrow> 'g guid_api \<Rightarrow> ('g, 'm) mqtt_api \<Rightarrow> cfg_env \<Rightarrow> 'j \<Rightarrow> ('g, 'm, 'j, 'db) control
       \<Rightarrow> ('g, 'm, 'j) device list" where
  "config_devices J G M E j c =
     co_deviceList c @ map (made_item G M J (config_guid J G j (co_guid c)))
       (wanted_items (ce_exists E) (level1_entry J G (ce_readval E)) (driver_entries J j ''level1'') @
        wanted_items (ce_exists E) (level2_entry J G) (driver_entries J j ''level2''))"

definition config_blocks :: "'j json_api \<Rightarrow> 'g guid_api \<Rightarrow> cfg_env \<Rightarrow> 'j \<Rightarrow> (string \<times> 'j) list" where
  "config_blocks J G E j =
     mqtt_blocks J (ce_exists E) (level1_entry J G (ce_readval E)) (driver_entries J j ''level1'') @
     mqtt_blocks J (ce_exists E) (level2_entry J G) (driver_entries J j ''level2'')"

text \<open>What a configuration must be like to be accepted. Types matter for the five required strings, the
  path of the key and the topics; the MQTT client of the daemon must take its block, and that of every
  driver the blocks that reach it; a \<open>drivers\<close> object must have both lists, and reading an entry of a
  list must not throw.\<close>

definition config_ok ::
    "'j json_api \<Rightarrow> 'g guid_api \<Rightarrow> ('g, 'm) mqtt_api \<Rightarrow> cfg_env \<Rightarrow> 'j \<Rightarrow> ('g, 'm, 'j, 'db) control \<Rightarrow> bool" where
  "config_ok J G M E j c \<longleftrightarrow>
     (\<forall>k\<in>set required_keys. string_at J j [k]) \<and>
     (js_contains J j ''vscpkey'' \<longrightarrow> string_at J j [''vscpkey'']) \<and>
     (\<forall>v. mqtt_block J j = Some v \<longrightarrow>
        fst (mc_init_json M (co_mqttClient c) (js_dump J v)) \<and>
        (\<forall>k\<in>{''topic-daemon-base'', ''topic-drivers'', ''topic-discovery''}.
           js_contains J v k \<longrightarrow> string_at J v [k])) \<and>
     (\<forall>D. at_path J j [''drivers''] = Some D \<and> js_is_object J D \<longrightarrow>
        js_contains J D ''level1'' \<and> js_contains J D ''level2'') \<and>
     (\<forall>e\<in>set (driver_entries J j ''level1''). \<exists>a. level1_entry J G (ce_readval E) e = Inr a) \<and>
     (\<forall>e\<in>set (driver_entries J j ''level2''). \<exists>a. level2_entry J G e = Inr a) \<and>
     blocks_taken J M {} (config_blocks J G E j) (config_devices J G M E j c)"

text \<open>The control object afterwards. The MQTT blocks of the drivers go each to the first device of its
  name.\<close>

definition config_meaning ::
    "'j json_api \<Rightarrow> 'g guid_api \<Rightarrow> ('g, 'm) mqtt_api \<Rightarrow> cfg_env \<Rightarrow> 'j \<Rightarrow> ('g, 'm, 'j, 'db) control
       \<Rightarrow> ('g, 'm, 'j, 'db) control" where
  "config_meaning J G M E j c =
     (let text = setting J (js_get_string J) j;
          key_file = c_str (ce_read E (text [''vscpkey''] []));
          base = text [''mqtt'', ''topic-daemon-base''] (co_topicDaemonBase c);
          prefixed = (\<lambda>t. if mqtt_block J j = None then t else base @ t)
      in c\<lparr>co_runAsUser := text [''runasuser''] [], co_guid := config_guid J G j (co_guid c),
           co_strServerName := text [''servername''] [],
           co_pathClassTypeDefinitionDb := text [''classtypedb''] [],
           co_pathMainDb := text [''maindb''] [],
           co_vscp_key := snd (ce_hex E (co_vscp_key c) 32 key_file),
           co_log := log_meaning J (ce_lower E) j (co_log c),
           co_mqttClient := (case mqtt_block J j of None \<Rightarrow> co_mqttClient c
              | Some v \<Rightarrow> snd (mc_init_json M (co_mqttClient c) (js_dump J v))),
           co_topicDaemonBase := base,
           co_topicDrivers := prefixed (text [''mqtt'', ''topic-drivers''] (co_topicDrivers c)),
           co_topicDiscovery := prefixed (text [''mqtt'', ''topic-discovery''] (co_topicDiscovery c)),
           co_deviceList := with_blocks J M {} (config_blocks J G E j) (config_devices J G M E j c)\<rparr>)"

subsection \<open>The sections\<close>

lemma read_default_setting:
  assumes "json_laws J" and "js_contains J j k" and "js_at J j k = Inr L"
  shows "read_default J get L key cur = setting J get j [k, key] cur"
  using assms by (auto simp: read_default_def setting_def split: sum.splits)

lemma setting_absent [simp]:
  assumes "\<not> js_contains J j k"
  shows "setting J get j (k # ks) cur = cur" and "at_path J j (k # ks) = None"
  using assms by (simp_all add: setting_def)

lemma read_level_setting:
  assumes "json_laws J" and "js_contains J j k" and "js_at J j k = Inr L"
  shows "read_level J lower L key cur = level_setting J lower j [k, key] cur"
proof -
  have "at_path J j [k, key] = None \<longleftrightarrow> \<not> js_contains J L key"
    using assms json_lawsD(1) [OF assms(1), of L key] by (auto split: sum.splits)
  moreover have "read_default J (js_get_string J) L key [] = setting J (js_get_string J) j [k, key] []"
    by (rule read_default_setting [OF assms])
  ultimately show ?thesis
    using parse_level_spec [of "lower (setting J (js_get_string J) j [k, key] [])" cur]
    unfolding read_level_def level_setting_def Let_def by auto
qed

lemma setting_not_object:
  assumes "json_laws J" and "js_contains J j k \<Longrightarrow> \<exists>v. js_at J j k = Inr v \<and> \<not> js_is_object J v"
  shows "at_path J j (k # k' # ks) = None"
proof (cases "js_contains J j k")
  case True
  with assms(2) obtain v where "js_at J j k = Inr v" "\<not> js_is_object J v" by blast
  with json_lawsD(2) [OF assms(1), of v k'] show ?thesis by auto
qed simp

lemma read_logging_meaning:
  assumes "json_laws J"
  shows "read_logging J lower j c = (Inr True, c\<lparr>co_log := log_meaning J lower j (co_log c)\<rparr>)"
proof (cases "\<exists>L. js_contains J j ''logging'' \<and> js_at J j ''logging'' = Inr L \<and> js_is_object J L")
  case True
  then obtain L where L: "js_contains J j ''logging''" "js_at J j ''logging'' = Inr L" "js_is_object J L" by blast
  note s = read_default_setting [OF assms L(1,2)] read_level_setting [OF assms L(1,2)]
  from L show ?thesis
    by (simp add: read_logging_def with_object_def read_udp_log_def read_sys_log_def read_console_log_def
        read_file_log_def s log_meaning_def Let_def)
next
  case False
  then have "at_path J j [''logging'', k] = None" for k
    using json_lawsD(1) [OF assms, of j "''logging''"] by (intro setting_not_object [OF assms]) auto
  then have "log_meaning J lower j g = g" for g by (simp add: log_meaning_def setting_def level_setting_def)
  moreover have "read_logging J lower j c = (Inr True, c)"
    using False json_lawsD(1) [OF assms, of j "''logging''"]
    by (auto simp: read_logging_def with_object_def go_on_def)
  ultimately show ?thesis by simp
qed

lemma setting_here:
  assumes "at_string J j k = Inr s" and "js_contains J j k"
  shows "setting J (js_get_string J) j [k] cur = s" and "string_at J j [k]"
  using assms by (auto simp: setting_def string_at_def at_string_def split: sum.splits)

lemma string_at_here: "string_at J j [k] \<longleftrightarrow> js_contains J j k \<and> (\<exists>s. at_string J j k = Inr s)"
  by (auto simp: string_at_def at_string_def split: sum.splits)

lemma setting_below:
  assumes "js_contains J j k" and "js_at J j k = Inr v"
  shows "setting J get j (k # ks) cur = setting J get v ks cur"
  using assms by (simp add: setting_def)

lemma read_general_meaning:
  "read_general J G j c = (Inr True, c') \<longleftrightarrow>
     (\<forall>k\<in>set required_keys. string_at J j [k]) \<and>
     c' = c\<lparr>co_runAsUser := setting J (js_get_string J) j [''runasuser''] [],
            co_guid := g_from_string G (co_guid c) (setting J (js_get_string J) j [''guid''] []),
            co_strServerName := setting J (js_get_string J) j [''servername''] [],
            co_pathClassTypeDefinitionDb := setting J (js_get_string J) j [''classtypedb''] [],
            co_pathMainDb := setting J (js_get_string J) j [''maindb''] []\<rparr>"
proof
  assume "read_general J G j c = (Inr True, c')"
  then show "(\<forall>k\<in>set required_keys. string_at J j [k]) \<and>
     c' = c\<lparr>co_runAsUser := setting J (js_get_string J) j [''runasuser''] [],
            co_guid := g_from_string G (co_guid c) (setting J (js_get_string J) j [''guid''] []),
            co_strServerName := setting J (js_get_string J) j [''servername''] [],
            co_pathClassTypeDefinitionDb := setting J (js_get_string J) j [''classtypedb''] [],
            co_pathMainDb := setting J (js_get_string J) j [''maindb''] []\<rparr>"
    by (auto simp: read_general_True required_keys_def string_at_here setting_here)
next
  assume r: "(\<forall>k\<in>set required_keys. string_at J j [k]) \<and>
     c' = c\<lparr>co_runAsUser := setting J (js_get_string J) j [''runasuser''] [],
            co_guid := g_from_string G (co_guid c) (setting J (js_get_string J) j [''guid''] []),
            co_strServerName := setting J (js_get_string J) j [''servername''] [],
            co_pathClassTypeDefinitionDb := setting J (js_get_string J) j [''classtypedb''] [],
            co_pathMainDb := setting J (js_get_string J) j [''maindb''] []\<rparr>"
  have "\<exists>s. at_string J j k = Inr s \<and> js_contains J j k \<and> setting J (js_get_string J) j [k] [] = s"
    if "k \<in> set required_keys" for k
    using r that setting_here(1) by (metis string_at_here)
  with r show "read_general J G j c = (Inr True, c')"
    unfolding read_general_True by (auto simp: required_keys_def)
qed

lemma read_vscpkey_meaning:
  assumes "json_laws J"
  shows "read_vscpkey J read hex j c = (Inr True, c') \<longleftrightarrow>
     (js_contains J j ''vscpkey'' \<longrightarrow> string_at J j [''vscpkey'']) \<and>
     c' = c\<lparr>co_vscp_key := snd (hex (co_vscp_key c) 32
              (c_str (read (setting J (js_get_string J) j [''vscpkey''] []))))\<rparr>"
proof (cases "js_contains J j ''vscpkey''")
  case True
  show ?thesis
  proof (cases "at_string J j ''vscpkey''")
    case (Inl e)
    with True show ?thesis
      by (cases e) (auto simp: read_vscpkey_def string_at_here)
  next
    case (Inr p)
    from setting_here [OF Inr True] True Inr show ?thesis
      by (auto simp: read_vscpkey_def readEncryptionKey_def split: prod.splits)
  qed
qed (auto simp: read_vscpkey_def readEncryptionKey_def split: prod.splits)

lemma read_topic_True:
  assumes "f cur c = c"
  shows "read_topic J v key f c = (Inr True, c') \<longleftrightarrow>
     (js_contains J v key \<longrightarrow> string_at J v [key]) \<and> c' = f (setting J (js_get_string J) v [key] cur) c"
proof (cases "js_contains J v key")
  case True
  then show ?thesis
    by (cases "at_string J v key") (auto simp: read_topic_def string_at_here setting_here)
qed (use assms in \<open>auto simp: read_topic_def\<close>)

lemma read_topics_True:
  "read_topic J v key (\<lambda>t c. c\<lparr>co_topicDaemonBase := t\<rparr>) c = (Inr True, c') \<longleftrightarrow>
     (js_contains J v key \<longrightarrow> string_at J v [key]) \<and>
     c' = c\<lparr>co_topicDaemonBase := setting J (js_get_string J) v [key] (co_topicDaemonBase c)\<rparr>"
  "read_topic J v key (\<lambda>t c. c\<lparr>co_topicDrivers := t\<rparr>) c = (Inr True, c') \<longleftrightarrow>
     (js_contains J v key \<longrightarrow> string_at J v [key]) \<and>
     c' = c\<lparr>co_topicDrivers := setting J (js_get_string J) v [key] (co_topicDrivers c)\<rparr>"
  "read_topic J v key (\<lambda>t c. c\<lparr>co_topicDiscovery := t\<rparr>) c = (Inr True, c') \<longleftrightarrow>
     (js_contains J v key \<longrightarrow> string_at J v [key]) \<and>
     c' = c\<lparr>co_topicDiscovery := setting J (js_get_string J) v [key] (co_topicDiscovery c)\<rparr>"
  by (rule read_topic_True, simp)+

lemma read_mqtt_meaning:
  assumes "json_laws J"
  shows "read_mqtt J M j c = (Inr True, c') \<longleftrightarrow>
     (\<forall>v. mqtt_block J j = Some v \<longrightarrow>
        fst (mc_init_json M (co_mqttClient c) (js_dump J v)) \<and>
        (\<forall>k\<in>{''topic-daemon-base'', ''topic-drivers'', ''topic-discovery''}.
           js_contains J v k \<longrightarrow> string_at J v [k])) \<and>
     c' = (let text = setting J (js_get_string J) j;
               base = text [''mqtt'', ''topic-daemon-base''] (co_topicDaemonBase c);
               prefixed = (\<lambda>t. if mqtt_block J j = None then t else base @ t)
           in c\<lparr>co_mqttClient := (case mqtt_block J j of None \<Rightarrow> co_mqttClient c
                  | Some v \<Rightarrow> snd (mc_init_json M (co_mqttClient c) (js_dump J v))),
                co_topicDaemonBase := base,
                co_topicDrivers := prefixed (text [''mqtt'', ''topic-drivers''] (co_topicDrivers c)),
                co_topicDiscovery := prefixed (text [''mqtt'', ''topic-discovery''] (co_topicDiscovery c))\<rparr>)"
proof (cases "mqtt_block J j")
  case None
  then have n: "\<not> (js_contains J j ''mqtt'' \<and> (\<exists>v. js_at J j ''mqtt'' = Inr v \<and> js_is_object J v))"
    by (auto simp: mqtt_block_def)
  then have "at_path J j [''mqtt'', k] = None" for k
    using json_lawsD(1) [OF assms, of j "''mqtt''"] by (intro setting_not_object [OF assms]) auto
  then have s: "setting J (js_get_string J) j [''mqtt'', k] cur = cur" for k cur by (simp add: setting_def)
  have "read_mqtt J M j c = (Inr True, c)"
    using n json_lawsD(1) [OF assms, of j "''mqtt''"]
    by (auto simp: read_mqtt_def with_object_def go_on_def)
  then show ?thesis using None by (auto simp: s)
next
  case (Some v)
  then have v: "js_contains J j ''mqtt''" "js_at J j ''mqtt'' = Inr v" "js_is_object J v"
    by (auto simp: mqtt_block_def split: if_splits sum.splits)
  obtain ok m where m: "mc_init_json M (co_mqttClient c) (js_dump J v) = (ok, m)" by fastforce
  have "read_mqtt J M j c = then_step (init_client J M v)
           (then_step (read_topic J v ''topic-daemon-base'' (\<lambda>t c. c\<lparr>co_topicDaemonBase := t\<rparr>))
           (then_step (read_topic J v ''topic-drivers'' (\<lambda>t c. c\<lparr>co_topicDrivers := t\<rparr>))
           (then_step (read_topic J v ''topic-discovery'' (\<lambda>t c. c\<lparr>co_topicDiscovery := t\<rparr>))
                      add_base_prefix))) c"
    using v by (simp add: read_mqtt_def with_object_def)
  then show ?thesis using Some m
    by (auto simp: then_step_True read_topics_True init_client_def add_base_prefix_def setting_below [OF v(1,2)] Let_def
        simp del: setting_absent)
qed

subsection \<open>The drivers\<close>

lemma with_blocks_append:
  "with_blocks J M seen b (xs @ ys) =
     with_blocks J M seen b xs @ with_blocks J M (seen \<union> di_strName ` set xs) b ys"
  by (induction xs arbitrary: seen) (simp_all add: insert_commute)

lemma foldl_configured_name [simp]: "di_strName (foldl (configured J M) d vs) = di_strName d"
  by (induction vs arbitrary: d) simp_all

lemma with_blocks_names [simp]: "map di_strName (with_blocks J M seen b ds) = map di_strName ds"
  by (induction ds arbitrary: seen) simp_all

lemma with_blocks_twice: "with_blocks J M seen b' (with_blocks J M seen b ds) = with_blocks J M seen (b @ b') ds"
  by (induction ds arbitrary: seen) simp_all

lemma with_blocks_known: "fst ` set b \<subseteq> seen \<Longrightarrow> with_blocks J M seen (b @ b') ds = with_blocks J M seen b' ds"
proof (induction b)
  case (Cons x b)
  then show ?case by (cases x) (simp add: with_blocks_seen)
qed simp

text \<open>The blocks of a second list come on top of those of the first.\<close>

lemma with_blocks_lists:
  assumes "fst ` set b \<subseteq> di_strName ` set ds"
  shows "with_blocks J M {} b' (with_blocks J M {} b ds @ rest) = with_blocks J M {} (b @ b') (ds @ rest)"
proof -
  have "di_strName ` set (with_blocks J M {} b ds) = di_strName ` set ds"
    by (metis list.set_map with_blocks_names)
  with assms show ?thesis by (simp add: with_blocks_append with_blocks_twice with_blocks_known)
qed

lemma made_item_name: "di_strName (made_item G M J g x) = fst x"
  by (simp add: made_item_def new_item_def CDeviceItem_new_def Let_def split: prod.splits)

lemma blocks_of_items:
  "fst ` set (mqtt_blocks J exists entry es) \<subseteq> di_strName ` set (map (made_item G M J g) (wanted_items exists entry es))"
proof -
  have "fst ` set (mqtt_blocks J exists entry es) \<subseteq> fst ` set (wanted_items exists entry es)"
  proof (induction es)
    case (Cons e es)
    consider (skip) "\<And>n p path r. entry e \<noteq> Inr (Some (n, p, path, r))"
      | (item) n p path r where "entry e = Inr (Some (n, p, path, r))"
      by (metis prod_cases4)
    then show ?case
    proof cases
      case skip
      then have "mqtt_blocks J exists entry (e # es) = mqtt_blocks J exists entry es"
        by (cases "entry e") (auto split: option.split)
      moreover from skip have "wanted_items exists entry (e # es) = wanted_items exists entry es"
        by (cases "entry e") (auto split: option.split)
      ultimately show ?thesis using Cons by simp
    next
      case item
      then have "mqtt_blocks J exists entry (e # es) =
          (if exists path then (case entry_block J e of None \<Rightarrow> [] | Some v \<Rightarrow> [(n, v)]) else []) @
          mqtt_blocks J exists entry es" by simp
      moreover from item have "wanted_items exists entry (e # es) =
          (if exists path then [(n, p, path, r)] else []) @ wanted_items exists entry es" by simp
      ultimately show ?thesis using Cons by (cases "entry_block J e"; cases "exists path") auto
    qed
  qed simp
  then show ?thesis by (simp add: image_image made_item_name)
qed

lemma takes_append: "takes J M d (vs @ ws) \<longleftrightarrow> takes J M d vs \<and> takes J M (foldl (configured J M) d vs) ws"
  by (induction vs arbitrary: d) auto

lemma blocks_taken_append:
  "blocks_taken J M seen b (xs @ ys) \<longleftrightarrow>
     blocks_taken J M seen b xs \<and> blocks_taken J M (seen \<union> di_strName ` set xs) b ys"
  by (induction xs arbitrary: seen) (auto simp: insert_commute)

lemma blocks_taken_twice:
  "blocks_taken J M seen (b @ b') ds \<longleftrightarrow>
     blocks_taken J M seen b ds \<and> blocks_taken J M seen b' (with_blocks J M seen b ds)"
  by (induction ds arbitrary: seen) (auto simp: takes_append)

lemma blocks_taken_known:
  "fst ` set b \<subseteq> seen \<Longrightarrow> blocks_taken J M seen (b @ b') ds = blocks_taken J M seen b' ds"
proof (induction b)
  case (Cons x b)
  then show ?case by (cases x) (simp add: blocks_taken_seen)
qed simp

lemma blocks_taken_lists:
  assumes "fst ` set b \<subseteq> di_strName ` set ds"
  shows "blocks_taken J M {} b ds \<and> blocks_taken J M {} b' (with_blocks J M {} b ds @ rest) \<longleftrightarrow>
           blocks_taken J M {} (b @ b') (ds @ rest)"
proof -
  have "di_strName ` set (with_blocks J M {} b ds) = di_strName ` set ds"
    by (metis list.set_map with_blocks_names)
  moreover have "blocks_taken J M {} (b @ b') (ds @ rest) \<longleftrightarrow>
      blocks_taken J M {} (b @ b') ds \<and> blocks_taken J M (di_strName ` set ds) b' rest"
    using assms by (simp add: blocks_taken_append blocks_taken_known)
  ultimately show ?thesis by (simp add: blocks_taken_append [of J M "{}" b' "with_blocks J M {} b ds"] blocks_taken_twice)
qed

lemma read_driver_list_True:
  assumes "json_laws J" and "js_is_object J D"
  shows "read_driver_list J D key add c = (Inr True, c') \<longleftrightarrow>
     js_contains J D key \<and>
     for_elems add (case at_path J D [key] of None \<Rightarrow> [] | Some v \<Rightarrow> if js_is_object J v then [] else js_elems J v) c
       = (Inr True, c')"
proof (cases "js_contains J D key")
  case True
  with json_lawsD(1) [OF assms(1) True] show ?thesis
    by (auto simp: read_driver_list_def with_object_def go_on_def)
next
  case False
  with json_lawsD(3) [OF assms(1) False assms(2)] show ?thesis
    by (simp add: read_driver_list_def with_object_def)
qed

lemma read_drivers_meaning:
  fixes c :: "('g, 'm, 'j, 'db) control"
  assumes "json_laws J"
  shows "read_drivers J G M exists readval j c = (Inr True, c') \<longleftrightarrow>
     (\<forall>D. at_path J j [''drivers''] = Some D \<and> js_is_object J D \<longrightarrow>
        js_contains J D ''level1'' \<and> js_contains J D ''level2'') \<and>
     (\<forall>e\<in>set (driver_entries J j ''level1''). \<exists>a. level1_entry J G readval e = Inr a) \<and>
     (\<forall>e\<in>set (driver_entries J j ''level2''). \<exists>a. level2_entry J G e = Inr a) \<and>
     blocks_taken J M {}
        (mqtt_blocks J exists (level1_entry J G readval) (driver_entries J j ''level1'') @
         mqtt_blocks J exists (level2_entry J G) (driver_entries J j ''level2''))
        (co_deviceList c @ map (made_item G M J (co_guid c))
           (wanted_items exists (level1_entry J G readval) (driver_entries J j ''level1'') @
            wanted_items exists (level2_entry J G) (driver_entries J j ''level2''))) \<and>
     c' = c\<lparr>co_deviceList := with_blocks J M {}
        (mqtt_blocks J exists (level1_entry J G readval) (driver_entries J j ''level1'') @
         mqtt_blocks J exists (level2_entry J G) (driver_entries J j ''level2''))
        (co_deviceList c @ map (made_item G M J (co_guid c))
           (wanted_items exists (level1_entry J G readval) (driver_entries J j ''level1'') @
            wanted_items exists (level2_entry J G) (driver_entries J j ''level2'')))\<rparr>"
proof (cases "\<exists>D. js_contains J j ''drivers'' \<and> js_at J j ''drivers'' = Inr D \<and> js_is_object J D")
  case True
  then obtain D where D: "js_contains J j ''drivers''" "js_at J j ''drivers'' = Inr D" "js_is_object J D" by blast
  have es: "driver_entries J j k =
      (case at_path J D [k] of None \<Rightarrow> [] | Some v \<Rightarrow> if js_is_object J v then [] else js_elems J v)" for k
    using D by (simp add: driver_entries_def)
  have "fst ` set (mqtt_blocks J exists entry es) \<subseteq>
      di_strName ` set (co_deviceList c @ map (made_item G M J (co_guid c)) (wanted_items exists entry es))"
    for entry and es :: "'j list"
    using blocks_of_items [of J exists entry es G M "co_guid c"] by auto
  note merge = with_blocks_lists [OF this] blocks_taken_lists [OF this, symmetric]
  have steps: "read_drivers J G M exists readval j c =
      then_step (read_driver_list J D ''level1'' (add_driver J G M exists (level1_entry J G readval)))
        (read_driver_list J D ''level2'' (add_driver J G M exists (level2_entry J G))) c"
    using D by (simp add: read_drivers_def with_object_def)
  have lists: "read_driver_list J D k add c = (Inr True, c') \<longleftrightarrow>
      js_contains J D k \<and> for_elems add (driver_entries J j k) c = (Inr True, c')"
    for k add and c c' :: "('g, 'm, 'j, 'db) control"
    unfolding es by (rule read_driver_list_True [OF assms D(3)])
  have one: "at_path J j [''drivers''] = Some D' \<and> js_is_object J D' \<longleftrightarrow> D' = D" for D'
    using D by auto
  show ?thesis
    by (simp only: steps then_step_True lists one driver_list_True [OF assms])
       (auto simp: merge map_append append_assoc [symmetric] simp del: append_assoc)
next
  case False
  then have "at_path J j [''drivers'', k] = None" for k
    using json_lawsD(1) [OF assms, of j "''drivers''"] by (intro setting_not_object [OF assms]) auto
  then have "driver_entries J j k = []" for k by (simp add: driver_entries_def)
  moreover have "read_drivers J G M exists readval j c = (Inr True, c)"
    using False json_lawsD(1) [OF assms, of j "''drivers''"]
    by (auto simp: read_drivers_def with_object_def go_on_def)
  moreover have "\<not> (at_path J j [''drivers''] = Some D \<and> js_is_object J D)" for D
    using False by (auto split: sum.splits)
  ultimately show ?thesis by auto
qed

text \<open>C10: The meaning of a configuration: \<open>readJSON\<close> accepts exactly the configurations that \<open>config_ok\<close>
  describes, whose MQTT blocks the clients that get them take, and the control object is then what
  \<open>config_meaning\<close> says of it, field by field, a function of the values at their places: the five
  required strings, the key from its file, every logger setting given with its type (any other keeps
  its value), the highest level a text names, the topics behind the base topic, one device for each
  usable entry of the two driver lists in order, and each MQTT block at the first device of its name;
  nothing else changes. This is what the code does, and stricter than what
  \<open>docs/configuring_the_vscp_daemon.md\<close> promises: there an unset \<open>guid\<close> is formed from the MAC address, and
  \<open>servername\<close>, \<open>maindb\<close> and the path of the key have defaults; here the first three are required, and
  without \<open>vscpkey\<close> the empty path is read.\<close>

theorem readJSON_meaning:
  assumes "json_laws J"
  shows "readJSON J G M E j c = (Inr True, c') \<longleftrightarrow> config_ok J G M E j c \<and> c' = config_meaning J G M E j c"
proof -
  have "readJSON J G M E j c = (Inr True, c') \<longleftrightarrow> (\<exists>c1 c2 c3 c4. read_general J G j c = (Inr True, c1) \<and>
      read_vscpkey J (ce_read E) (ce_hex E) j c1 = (Inr True, c2) \<and> read_logging J (ce_lower E) j c2 = (Inr True, c3) \<and>
      read_mqtt J M j c3 = (Inr True, c4) \<and> read_drivers J G M (ce_exists E) (ce_readval E) j c4 = (Inr True, c'))"
    unfolding readJSON_def then_step_True by blast
  also have "\<dots> \<longleftrightarrow> config_ok J G M E j c \<and> c' = config_meaning J G M E j c"
    unfolding read_general_meaning read_vscpkey_meaning [OF assms] read_logging_meaning [OF assms]
      read_mqtt_meaning [OF assms] read_drivers_meaning [OF assms] config_ok_def
    by (auto simp: config_meaning_def config_blocks_def config_devices_def config_guid_def Let_def)
  finally show ?thesis .
qed

text \<open>A configuration with a base topic and one level II driver.\<close>

definition cfg1 :: jv where
  "cfg1 = JObj [(''runasuser'', JStr []), (''guid'', JStr ''G''), (''servername'', JStr ''S''),
     (''classtypedb'', JStr []), (''maindb'', JStr []),
     (''logging'', JObj [(''file-path'', JStr ''f''), (''file-max-size'', JStr ''big'')]),
     (''mqtt'', JObj [(''topic-daemon-base'', JStr ''b/''), (''topic-drivers'', JStr ''dr'')]),
     (''drivers'', JObj [(''level1'', JArr []), (''level2'', JArr
        [JObj [(''enable'', JBool True), (''name'', JStr ''a''), (''path-config'', JStr ''c''),
               (''path-driver'', JStr ''p''), (''guid'', JStr ''g'')]])])]"

definition cfg_env1 :: cfg_env where
  "cfg_env1 = \<lparr>ce_exists = (\<lambda>_. True), ce_read = (\<lambda>_. []), ce_hex = (\<lambda>k n s. (0, k)),
     ce_lower = id, ce_readval = (\<lambda>_. 0)\<rparr>"

lemma cfg1_general:
  "at_path json0 cfg1 [''runasuser''] = Some (JStr [])" "at_path json0 cfg1 [''guid''] = Some (JStr ''G'')"
  "at_path json0 cfg1 [''servername''] = Some (JStr ''S'')" "at_path json0 cfg1 [''classtypedb''] = Some (JStr [])"
  "at_path json0 cfg1 [''maindb''] = Some (JStr [])" "\<not> js_contains json0 cfg1 ''vscpkey''"
  by (simp_all add: cfg1_def lib_simps index_get_def or_throw_def)

lemma cfg1_sections:
  "at_path json0 cfg1 [''logging'', ''file-path''] = Some (JStr ''f'')"
  "at_path json0 cfg1 [''logging'', ''file-max-size''] = Some (JStr ''big'')"
  "at_path json0 cfg1 [''mqtt'', ''topic-daemon-base''] = Some (JStr ''b/'')"
  "at_path json0 cfg1 [''mqtt'', ''topic-drivers''] = Some (JStr ''dr'')"
  "mqtt_block json0 cfg1 = Some (JObj [(''topic-daemon-base'', JStr ''b/''), (''topic-drivers'', JStr ''dr'')])"
  by (simp_all add: cfg1_def mqtt_block_def lib_simps index_get_def or_throw_def)

lemma cfg1_drivers:
  "\<exists>D. at_path json0 cfg1 [''drivers''] = Some D \<and> js_contains json0 D ''level1'' \<and> js_contains json0 D ''level2''"
  "driver_entries json0 cfg1 ''level1'' = []"
  "driver_entries json0 cfg1 ''level2'' = [JObj [(''enable'', JBool True), (''name'', JStr ''a''),
     (''path-config'', JStr ''c''), (''path-driver'', JStr ''p''), (''guid'', JStr ''g'')]]"
  by (simp_all add: cfg1_def driver_entries_def lib_simps index_get_def or_throw_def)

lemma cfg1_entry:
  "\<exists>r. level2_entry json0 guid0 (JObj [(''enable'', JBool True), (''name'', JStr ''a''),
     (''path-config'', JStr ''c''), (''path-driver'', JStr ''p''), (''guid'', JStr ''g'')]) =
     Inr (Some (''a'', ''c'', ''p'', r))"
  by (simp add: level2_entry_def lib_simps index_get_def or_throw_def)

lemmas cfg1_values = cfg1_general cfg1_sections cfg1_drivers

lemma json0_string [simp]:
  "js_get_string json0 (JStr s) = Inr s" "js_get_u32 json0 (JStr s) = Inl JsonTypeError"
  by (simp_all add: lib_simps)

lemma mqtt0_takes: "fst (mc_init_json mqtt0 m s)"
  by (simp add: lib_simps)

lemma cfg1_ok: "config_ok json0 guid0 mqtt0 cfg_env1 cfg1 c"
proof -
  have "string_at json0 cfg1 [k]" if "k \<in> set required_keys" for k
    using that by (auto simp: required_keys_def string_at_def cfg1_general simp del: at_path.simps)
  moreover have "js_contains json0 v k \<longrightarrow> string_at json0 v [k]"
    if "mqtt_block json0 cfg1 = Some v" "k \<in> {''topic-daemon-base'', ''topic-drivers'', ''topic-discovery''}" for v k
    using that unfolding cfg1_sections by (auto simp: string_at_def lib_simps)
  moreover have "\<exists>a. level2_entry json0 guid0 e = Inr a" if "e \<in> set (driver_entries json0 cfg1 ''level2'')" for e
    using that cfg1_entry unfolding cfg1_drivers by fastforce
  moreover obtain D where "at_path json0 cfg1 [''drivers''] = Some D" "js_contains json0 D ''level1''"
    "js_contains json0 D ''level2''" using cfg1_drivers(1) by blast
  ultimately show ?thesis unfolding config_ok_def
    using cfg1_general(6) cfg1_drivers(2) by (simp add: mqtt0_takes blocks_taken_all del: at_path.simps)
qed

theorem readJSON_meaning_witness:
  "\<exists>c :: (u8 list, nat, jv, unit) control.
     readJSON json0 guid0 mqtt0 cfg_env1 cfg1 (CControlObject_new guid0 mqtt0) = (Inr True, c) \<and>
     co_strServerName c = ''S'' \<and> co_topicDrivers c = ''b/dr'' \<and> lg_path_to_log_file (co_log c) = ''f'' \<and>
     lg_max_log_size (co_log c) = 5242880 \<and> map di_strName (co_deviceList c) = [''a'']"
proof -
  let ?n = "CControlObject_new guid0 mqtt0 :: (u8 list, nat, jv, unit) control"
  let ?c = "config_meaning json0 guid0 mqtt0 cfg_env1 cfg1 ?n"
  have "readJSON json0 guid0 mqtt0 cfg_env1 cfg1 ?n = (Inr True, ?c)"
    using readJSON_meaning [OF json0_laws] cfg1_ok by blast
  moreover have "co_strServerName ?c = ''S''" "co_topicDrivers ?c = ''b/dr''"
    by (simp_all add: config_meaning_def setting_def cfg1_values Let_def del: at_path.simps)
  moreover have "lg_path_to_log_file (co_log ?c) = ''f''" "lg_max_log_size (co_log ?c) = lg_max_log_size (co_log ?n)"
    by (simp_all add: config_meaning_def log_meaning_def setting_def cfg1_values Let_def del: at_path.simps)
  moreover have "lg_max_log_size (co_log ?n) = 5242880"
    by (simp add: CControlObject_new_def default_log_def Let_def)
  moreover have "map di_strName (co_deviceList ?c) = [''a'']"
    using cfg1_entry by (auto simp: config_meaning_def config_devices_def cfg1_values cfg_env1_def CControlObject_new_def
        made_item_name Let_def comp_def simp del: at_path.simps)
  ultimately show ?thesis by metis
qed

end
