(* ===== verification/MainSignals.thy ===== *)
theory MainSignals
  imports DaemonCorrect StartupCorrect
begin

text \<open>
  Signals at every point of \<open>main\<close> (\<open>mqttvscpd.cpp\<close>). The handlers are installed before the control
  object is made and stay installed to the end; they write through the global pointer \<open>gpobj\<close>. Here
  \<open>main\<close> is a sequence of steps between any two of which a signal may arrive. \<open>init\<close> and the phases of
  \<open>run\<close> are one step each: none of them reads or writes \<open>m_bQuit\<close>, so a signal during one of them is
  one right after it.
\<close>

subsection \<open>Steps\<close>

text \<open>Where \<open>main\<close> is: before and after \<open>setupSignalHandlers\<close>, with a control object, after \<open>init\<close>, after
  the loggers, in the main loop, after \<open>run\<close>, after \<open>cleanup\<close>, after \<open>delete\<close>, after \<open>gpobj = NULL\<close>, and
  ended by a failure.\<close>

datatype main_pc =
  M_start | M_handlers | M_created | M_ready | M_logging | M_loop | M_stopped | M_cleaned | M_deleted
| M_done | M_failed

datatype gpointer = GP_null | GP_object | GP_dangling

text \<open>\<open>ml_late\<close> counts the iterations of the main loop begun after a signal was taken.\<close>

record ('g, 'm, 'j, 'db) main_life =
  ml_pc :: main_pc
  ml_gpobj :: gpointer
  ml_proc :: "('g, 'm, 'j, 'db) process"
  ml_old :: int
  ml_gbStopDaemon :: bool
  ml_crashed :: bool
  ml_late :: nat

definition main_begin :: "('g, 'm, 'j, 'db) process \<Rightarrow> ('g, 'm, 'j, 'db) main_life" where
  "main_begin p = \<lparr>ml_pc = M_start, ml_gpobj = GP_null, ml_proc = p, ml_old = 0, ml_gbStopDaemon = False,
                   ml_crashed = False, ml_late = 0\<rparr>"

definition with_ctl ::
    "(('g, 'm, 'j, 'db) control \<Rightarrow> ('g, 'm, 'j, 'db) control) \<Rightarrow> ('g, 'm, 'j, 'db) main_life
       \<Rightarrow> ('g, 'm, 'j, 'db) main_life" where
  "with_ctl f s = s\<lparr>ml_proc := on_ctl f (ml_proc s)\<rparr>"

text \<open>What \<open>main\<close> and the functions it calls are given: the program's interfaces, the options, and the
  answers of the operating system.\<close>

record ('g, 'm, 'j, 'c, 'db) surroundings =
  su_env :: "('g, 'm, 'j, 'c, 'db) thread_env"
  su_cfg :: cfg_env
  su_parse :: "string \<Rightarrow> 'j option"
  su_os :: os_api
  su_sql :: "'db sql_api"
  su_main :: main_os
  su_codes :: vscp_codes
  su_fmt :: str_format
  su_libs :: "string \<Rightarrow> driver_lib"
  su_options :: options

abbreviation su_init where
  "su_init U \<equiv> init (en_json (su_env U)) (en_guid (su_env U)) (en_mqtt (su_env U)) (su_cfg U) (su_parse U)
     (su_os U) (su_sql U) (op_cfgfile (su_options U)) (op_rootFolder (su_options U))"

abbreviation su_mqtt where
  "su_mqtt U utc \<equiv> init_mqtt (en_guid (su_env U)) (en_mqtt (su_env U)) (su_fmt U) (en_render (su_env U)) utc"

text \<open>An iteration of the main loop on the state it keeps.\<close>

abbreviation loop_state where
  "loop_state s \<equiv> \<lparr>ms_old = ml_old s, ms_ctl = pr_ctl (ml_proc s), ms_undefined = False\<rparr>"

inductive main_life_step ::
    "('g, 'm, 'j, 'c, 'db) surroundings \<Rightarrow> ('g, 'm, 'j, 'db) main_life \<Rightarrow> ('g, 'm, 'j, 'db) main_life \<Rightarrow> bool"
  for U where
  l_handlers: "ml_pc s = M_start \<Longrightarrow> main_life_step U s (s\<lparr>ml_pc := M_handlers\<rparr>)"
| l_new: "ml_pc s = M_handlers \<Longrightarrow>
     p = main_process (en_guid (su_env U)) (en_mqtt (su_env U)) ids (su_options U) \<Longrightarrow>
     main_life_step U s (s\<lparr>ml_pc := M_created, ml_gpobj := GP_object, ml_proc := p\<rparr>)"
| l_init: "ml_pc s = M_created \<Longrightarrow> su_init U (ml_proc s) = (Inr True, p) \<Longrightarrow>
     main_life_step U s (s\<lparr>ml_pc := M_ready, ml_proc := p\<rparr>)"
| l_init_fails: "ml_pc s = M_created \<Longrightarrow> su_init U (ml_proc s) = (r, p) \<Longrightarrow> r \<noteq> Inr True \<Longrightarrow>
     main_life_step U s (s\<lparr>ml_pc := M_failed, ml_proc := p\<rparr>)"
| l_logging: "ml_pc s = M_ready \<Longrightarrow>
     main_logging (mo_log_file (su_main U)) (mo_mkdir (su_main U)) (mo_dirs (su_main U)) (ml_proc s)
       = Some (dirs, p) \<Longrightarrow>
     main_life_step U s (s\<lparr>ml_pc := M_logging, ml_proc := p\<rparr>)"
| l_logging_fails: "ml_pc s = M_ready \<Longrightarrow>
     main_logging (mo_log_file (su_main U)) (mo_mkdir (su_main U)) (mo_dirs (su_main U)) (ml_proc s) = None \<Longrightarrow>
     main_life_step U s (s\<lparr>ml_pc := M_failed\<rparr>)"
| l_mqtt: "ml_pc s = M_logging \<Longrightarrow> su_mqtt U utc (pr_ctl (ml_proc s)) = (True, c) \<Longrightarrow>
     main_life_step U s (with_ctl (\<lambda>_. snd (startDeviceWorkerThreads created c))
       (s\<lparr>ml_pc := M_loop, ml_old := start - 60\<rparr>))"
| l_mqtt_fails: "ml_pc s = M_logging \<Longrightarrow> su_mqtt U utc (pr_ctl (ml_proc s)) = (False, c) \<Longrightarrow>
     main_life_step U s (with_ctl (\<lambda>_. c) (s\<lparr>ml_pc := M_failed\<rparr>))"
| l_iterate: "ml_pc s = M_loop \<Longrightarrow> \<not> co_bQuit (pr_ctl (ml_proc s)) \<Longrightarrow>
     m = main_body (su_env U) (su_codes U) t (loop_state s) \<Longrightarrow>
     main_life_step U s (with_ctl (\<lambda>_. ms_ctl m)
       (s\<lparr>ml_old := ms_old m, ml_crashed := ms_undefined m,
         ml_late := ml_late s + (if ml_gbStopDaemon s then 1 else 0)\<rparr>))"
| l_leave: "ml_pc s = M_loop \<Longrightarrow> co_bQuit (pr_ctl (ml_proc s)) \<Longrightarrow>
     main_life_step U s (with_ctl (\<lambda>c. snd (cleanup (su_env U) (su_libs U) pos
       (c\<lparr>co_deviceList := map work (co_deviceList c)\<rparr>))) (s\<lparr>ml_pc := M_stopped\<rparr>))"
| l_cleanup: "ml_pc s = M_stopped \<Longrightarrow>
     main_life_step U s (with_ctl (\<lambda>c. snd (cleanup (su_env U) (su_libs U) pos c)) (s\<lparr>ml_pc := M_cleaned\<rparr>))"
| l_delete: "ml_pc s = M_cleaned \<Longrightarrow>
     main_life_step U s (s\<lparr>ml_pc := M_deleted, ml_gpobj := GP_dangling\<rparr>)"
| l_null: "ml_pc s = M_deleted \<Longrightarrow> main_life_step U s (s\<lparr>ml_pc := M_done, ml_gpobj := GP_null\<rparr>)"

text \<open>A signal, once the handlers are installed. Writing through a pointer that does not point to the
  object is undefined behaviour.\<close>

inductive signal_step :: "('g, 'm, 'j, 'db) main_life \<Rightarrow> ('g, 'm, 'j, 'db) main_life \<Rightarrow> bool" where
  s_taken: "ml_pc s \<noteq> M_start \<Longrightarrow> ml_pc s \<noteq> M_failed \<Longrightarrow> ml_gpobj s = GP_object \<Longrightarrow>
     sighandlerStop (Some (pr_ctl (ml_proc s))) = Some (c, stop) \<Longrightarrow>
     signal_step s (with_ctl (\<lambda>_. c) (s\<lparr>ml_gbStopDaemon := stop\<rparr>))"
| s_undefined: "ml_pc s \<noteq> M_start \<Longrightarrow> ml_pc s \<noteq> M_failed \<Longrightarrow> ml_gpobj s \<noteq> GP_object \<Longrightarrow>
     signal_step s (s\<lparr>ml_crashed := True\<rparr>)"

inductive life_reachable ::
    "('g, 'm, 'j, 'c, 'db) surroundings \<Rightarrow> ('g, 'm, 'j, 'db) main_life \<Rightarrow> bool" for U where
  life_start: "life_reachable U (main_begin p)"
| life_main: "life_reachable U s \<Longrightarrow> \<not> ml_crashed s \<Longrightarrow> main_life_step U s t \<Longrightarrow> life_reachable U t"
| life_signal: "life_reachable U s \<Longrightarrow> \<not> ml_crashed s \<Longrightarrow> signal_step s t \<Longrightarrow> life_reachable U t"

inductive_cases main_life_stepE: "main_life_step U s t"
inductive_cases signal_stepE: "signal_step s t"

lemma with_ctl_sel [simp]:
  "ml_pc (with_ctl f s) = ml_pc s" "ml_gpobj (with_ctl f s) = ml_gpobj s"
  "ml_proc (with_ctl f s) = on_ctl f (ml_proc s)" "ml_gbStopDaemon (with_ctl f s) = ml_gbStopDaemon s"
  "ml_crashed (with_ctl f s) = ml_crashed s" "ml_late (with_ctl f s) = ml_late s" "ml_old (with_ctl f s) = ml_old s"
  by (simp_all add: with_ctl_def)

subsection \<open>What keeps \<open>m_bQuit\<close>\<close>

lemma readJSON_keeps_quit:
  "co_bQuit (snd (readJSON J G M E j c)) = co_bQuit c"
proof -
  have "keeps (\<lambda>s. co_bQuit s = co_bQuit c) (readJSON J G M E j)"
    unfolding readJSON_def by (intro keeps_intros) simp_all
  from keepsD [OF this, of c] show ?thesis by simp
qed

lemma init_config_quit:
  "co_bQuit (pr_ctl (snd (init_config J G M E parse cfg p))) = co_bQuit (pr_ctl p)"
  using readJSON_keeps_quit [of J G M E _ "pr_ctl p"]
  by (auto simp: init_config_def readConfiguration_def split: option.splits prod.splits sum.splits)
     (metis snd_conv)+

lemma then_step_same:
  assumes "\<And>p. q (snd (a p)) = q p" and "\<And>p. q (snd (b p)) = q p"
  shows "q (snd (then_step a b p)) = q p"
  using assms by (simp add: then_step_def case_prod_unfold)

lemma init_keeps_quit:
  fixes p :: "('g, 'm, 'j, 'db) process"
  shows "co_bQuit (pr_ctl (snd (init J G M E parse S Q cfg root p))) = co_bQuit (pr_ctl p)"
proof -
  let ?q = "\<lambda>p. co_bQuit (pr_ctl p)"
  have "?q (snd (init_files (ce_exists E) cfg root p)) = ?q p" for p :: "('g, 'm, 'j, 'db) process"
    by (simp add: init_files_def)
  moreover have "?q (snd (init_logging S p)) = ?q p" for p :: "('g, 'm, 'j, 'db) process"
    using logging_kept by (metis prod.collapse)
  moreover have "?q (snd (init_user S p)) = ?q p" for p :: "('g, 'm, 'j, 'db) process"
    using user_kept by (metis prod.collapse)
  moreover have "?q (snd (init_guid_step G S p)) = ?q p" for p :: "('g, 'm, 'j, 'db) process"
    by (simp add: init_guid_step_def split: option.splits)
  moreover have "?q (snd (init_classtype Q p)) = ?q p" for p :: "('g, 'm, 'j, 'db) process"
    by (auto simp: init_classtype_def Let_def split: option.splits prod.splits)
  moreover have "?q (snd (init_discovery G Q ex now p)) = ?q p" for p :: "('g, 'm, 'j, 'db) process" and ex now
    by (auto simp: init_discovery_def open_discovery_def create_discovery_def Let_def
        simp del: exec_all.simps split: option.splits prod.splits bool.splits)
  ultimately show ?thesis
    unfolding init_def by (intro then_step_same [where q = ?q] init_config_quit) simp_all
qed

lemma stop_devices_quit: "co_bQuit (snd (cleanup E libs pos c)) = co_bQuit c"
  by (simp add: cleanup_def stopDeviceWorkerThreads_def Let_def)

subsection \<open>The invariant\<close>

text \<open>Where \<open>gpobj\<close> points to the object.\<close>

definition has_object :: "main_pc \<Rightarrow> bool" where
  "has_object pc \<longleftrightarrow> pc \<notin> {M_start, M_handlers, M_deleted, M_done}"

definition life_inv :: "('g, 'm, 'j, 'db) main_life \<Rightarrow> bool" where
  "life_inv s \<longleftrightarrow>
     (ml_gpobj s = GP_object \<longleftrightarrow> has_object (ml_pc s)) \<and>
     (ml_pc s \<in> {M_start, M_handlers} \<longrightarrow> \<not> ml_gbStopDaemon s) \<and>
     (ml_gbStopDaemon s \<and> has_object (ml_pc s) \<longrightarrow> co_bQuit (pr_ctl (ml_proc s))) \<and>
     ml_late s = 0"

lemma inv_main:
  assumes "main_life_step U s t" and "life_inv s"
  shows "life_inv t"
  using assms(1)
proof (cases rule: main_life_step.cases)
  case (l_init p)
  with init_keeps_quit [of "en_json (su_env U)" "en_guid (su_env U)" "en_mqtt (su_env U)" "su_cfg U"
      "su_parse U" "su_os U" "su_sql U" "op_cfgfile (su_options U)" "op_rootFolder (su_options U)" "ml_proc s"]
    assms(2) show ?thesis by (simp add: life_inv_def has_object_def)
next
  case (l_init_fails r p)
  with init_keeps_quit [of "en_json (su_env U)" "en_guid (su_env U)" "en_mqtt (su_env U)" "su_cfg U"
      "su_parse U" "su_os U" "su_sql U" "op_cfgfile (su_options U)" "op_rootFolder (su_options U)" "ml_proc s"]
    assms(2) show ?thesis by (simp add: life_inv_def has_object_def)
next
  case (l_logging dirs p)
  with main_logging_ctl [OF l_logging(3)] assms(2) show ?thesis by (simp add: life_inv_def has_object_def)
next
  case (l_mqtt utc c created start)
  with init_mqtt_frame(3) [of "en_guid (su_env U)" "en_mqtt (su_env U)" "su_fmt U" "en_render (su_env U)" utc
      "pr_ctl (ml_proc s)"] assms(2) show ?thesis by (simp add: life_inv_def has_object_def)
next
  case (l_mqtt_fails utc c)
  with init_mqtt_frame(3) [of "en_guid (su_env U)" "en_mqtt (su_env U)" "su_fmt U" "en_render (su_env U)" utc
      "pr_ctl (ml_proc s)"] assms(2) show ?thesis by (simp add: life_inv_def has_object_def)
qed (use assms(2) in \<open>auto simp: life_inv_def has_object_def stop_devices_quit\<close>)

lemma inv_signal: "signal_step s t \<Longrightarrow> life_inv s \<Longrightarrow> life_inv t"
  by (erule signal_stepE) (auto simp: life_inv_def has_object_def sighandlerStop_def)

lemma inv_life:
  assumes "life_reachable U s"
  shows "life_inv s"
  using assms
proof (induction rule: life_reachable.induct)
  case (life_start p)
  show ?case by (simp add: life_inv_def main_begin_def has_object_def)
qed (blast intro: inv_main inv_signal)+

text \<open>C18: A signal at any point of \<open>main\<close> after the handlers are installed: it is taken, and sets \<open>m_bQuit\<close>,
  exactly if it comes between the end of the constructor of the control object and the beginning of
  its deletion; in the gap between \<open>setupSignalHandlers\<close> and the constructor, and after \<open>delete\<close>, the
  handler writes through a pointer that does not point to an object.\<close>

theorem signal_windows:
  assumes "life_reachable U s" and "ml_pc s \<noteq> M_start" and "ml_pc s \<noteq> M_failed"
  shows "(\<exists>t. signal_step s t) \<and>
         (\<forall>t. signal_step s t \<longrightarrow>
            (if ml_pc s \<in> {M_handlers, M_deleted, M_done} then ml_crashed t
             else ml_crashed t = ml_crashed s \<and> ml_gbStopDaemon t \<and> co_bQuit (pr_ctl (ml_proc t)) \<and>
                  ml_pc t = ml_pc s))"
proof -
  have o: "ml_gpobj s = GP_object \<longleftrightarrow> ml_pc s \<notin> {M_handlers, M_deleted, M_done}"
    using inv_life [OF assms(1)] assms(2) by (simp add: life_inv_def has_object_def)
  have "\<exists>t. signal_step s t"
  proof (cases "ml_gpobj s = GP_object")
    case True
    then show ?thesis using s_taken [OF assms(2,3)] by (simp add: sighandlerStop_def) blast
  qed (use s_undefined [OF assms(2,3)] in blast)
  moreover have "if ml_pc s \<in> {M_handlers, M_deleted, M_done} then ml_crashed t
      else ml_crashed t = ml_crashed s \<and> ml_gbStopDaemon t \<and> co_bQuit (pr_ctl (ml_proc t)) \<and> ml_pc t = ml_pc s"
    if "signal_step s t" for t
    using that o by (cases rule: signal_step.cases) (auto simp: sighandlerStop_def)
  ultimately show ?thesis by blast
qed

text \<open>A signal between \<open>setupSignalHandlers\<close> and the constructor.\<close>

definition life0 :: "(u8 list, nat, jv, u8 list, nat) surroundings" where
  "life0 = \<lparr>su_env = env0, su_cfg = ce0, su_parse = (\<lambda>_. Some cfg0), su_os = os0, su_sql = sql0 [],
     su_main = \<lparr>mo_fork = ForkParent, mo_setsid = 0, mo_pid_writable = True, mo_chdir = (\<lambda>_. True),
       mo_log_file = (\<lambda>_. True), mo_mkdir = (\<lambda>_ _. MkMade), mo_dirs = []\<rparr>,
     su_codes = codes0, su_fmt = fmt0, su_libs = (\<lambda>_. lib0), su_options = default_options\<rparr>"

abbreviation begin0 where
  "begin0 \<equiv> main_begin (main_process guid0 mqtt0 (0, 0) default_options)"

lemma begin0_handlers: "life_reachable life0 (begin0\<lparr>ml_pc := M_handlers\<rparr>)"
  by (rule life_main [OF life_start _ l_handlers]) (simp_all add: main_begin_def)

theorem signal_windows_witness:
  "\<exists>t. signal_step (begin0\<lparr>ml_pc := M_handlers\<rparr> :: (u8 list, nat, jv, nat) main_life) t \<and> ml_crashed t"
  using signal_windows [OF begin0_handlers] by auto

subsection \<open>Shutdown from anywhere\<close>

abbreviation comes_to where
  "comes_to U Z s \<equiv> (\<exists>t. (main_life_step U)\<^sup>*\<^sup>* s t \<and> ml_pc t \<in> Z \<and> ml_crashed t = ml_crashed s)"

lemma end_step:
  assumes "main_life_step U s u" and "comes_to U Z u" and "ml_crashed u = ml_crashed s"
  shows "comes_to U Z s"
  using assms converse_rtranclp_into_rtranclp [of "main_life_step U" s u] by metis

lemma end_deleted: "ml_pc s = M_deleted \<Longrightarrow> comes_to U {M_done} s"
  by (rule end_step [OF l_null]) (auto intro!: exI [of _ "s\<lparr>ml_pc := M_done, ml_gpobj := GP_null\<rparr>"])

lemma end_cleaned: "ml_pc s = M_cleaned \<Longrightarrow> comes_to U {M_done} s"
  by (rule end_step [OF l_delete end_deleted]) simp_all

lemma end_stopped: "ml_pc s = M_stopped \<Longrightarrow> comes_to U {M_done} s"
  by (rule end_step [OF l_cleanup end_cleaned]) simp_all

lemma end_loop: "ml_pc s = M_loop \<Longrightarrow> co_bQuit (pr_ctl (ml_proc s)) \<Longrightarrow> comes_to U {M_done} s"
  by (rule end_step [OF l_leave end_stopped]) simp_all

text \<open>Before the main loop the initialisation may still fail.\<close>

abbreviation comes_to_end where
  "comes_to_end U s \<equiv> comes_to U {M_done, M_failed} s"

lemma done_end: "comes_to U {M_done} s \<Longrightarrow> comes_to_end U s"
  by blast

lemma end_failed: "ml_pc s \<in> {M_done, M_failed} \<Longrightarrow> comes_to_end U s"
  by blast

lemma end_logging:
  assumes "ml_pc s = M_logging" and "life_inv s" and "ml_gbStopDaemon s"
  shows "comes_to_end U s"
proof -
  obtain ok c where c: "su_mqtt U None (pr_ctl (ml_proc s)) = (ok, c)" by fastforce
  show ?thesis
  proof (cases ok)
    case True
    let ?u = "with_ctl (\<lambda>_. snd (startDeviceWorkerThreads (\<lambda>_. True) c)) (s\<lparr>ml_pc := M_loop, ml_old := 0 - 60\<rparr>)"
    have u: "main_life_step U s ?u" using l_mqtt [OF assms(1), of U None c "\<lambda>_. True" 0] c True by simp
    from inv_main [OF u assms(2)] assms(3) have "co_bQuit (pr_ctl (ml_proc ?u))"
      by (simp add: life_inv_def has_object_def)
    then show ?thesis by (intro end_step [OF u done_end [OF end_loop]]) simp_all
  next
    case False
    with c have "main_life_step U s (with_ctl (\<lambda>_. c) (s\<lparr>ml_pc := M_failed\<rparr>))"
      using l_mqtt_fails [OF assms(1)] by simp
    then show ?thesis by (rule end_step [OF _ end_failed]) simp_all
  qed
qed

lemma end_ready:
  assumes "ml_pc s = M_ready" and "life_inv s" and "ml_gbStopDaemon s"
  shows "comes_to_end U s"
proof (cases "main_logging (mo_log_file (su_main U)) (mo_mkdir (su_main U)) (mo_dirs (su_main U)) (ml_proc s)")
  case None
  from l_logging_fails [OF assms(1) None] show ?thesis by (rule end_step [OF _ end_failed]) simp_all
next
  case (Some x)
  then obtain dirs p where x: "main_logging (mo_log_file (su_main U)) (mo_mkdir (su_main U)) (mo_dirs (su_main U))
      (ml_proc s) = Some (dirs, p)" by (cases x) auto
  note u = l_logging [OF assms(1) x]
  show ?thesis by (rule end_step [OF u end_logging]) (use inv_main [OF u assms(2)] assms(3) in simp_all)
qed

lemma end_created:
  assumes "ml_pc s = M_created" and "life_inv s" and "ml_gbStopDaemon s"
  shows "comes_to_end U s"
proof -
  obtain r p where rp: "su_init U (ml_proc s) = (r, p)" by fastforce
  show ?thesis
  proof (cases "r = Inr True")
    case True
    with rp have u: "main_life_step U s (s\<lparr>ml_pc := M_ready, ml_proc := p\<rparr>)" using l_init [OF assms(1)] by simp
    show ?thesis by (rule end_step [OF u end_ready]) (use inv_main [OF u assms(2)] assms(3) in simp_all)
  next
    case False
    from l_init_fails [OF assms(1) rp False] show ?thesis by (rule end_step [OF _ end_failed]) simp_all
  qed
qed

text \<open>C17: No signal that is taken is lost, wherever in \<open>main\<close> it comes, during the initialisation as well as
  in the main loop: after it the main loop begins no further iteration, heartbeats included, and from
  every state that can be reached then \<open>main\<close> comes to its end by its own steps, through the
  shutdown once it is in the main loop, without touching anything undefined.\<close>

theorem signal_never_lost:
  assumes "life_reachable U s" and "ml_gbStopDaemon s"
  shows "ml_late s = 0 \<and>
         (\<exists>t. (main_life_step U)\<^sup>*\<^sup>* s t \<and> ml_crashed t = ml_crashed s \<and>
            (if ml_pc s \<in> {M_created, M_ready, M_logging} then ml_pc t \<in> {M_done, M_failed}
             else if ml_pc s = M_failed then t = s else ml_pc t = M_done))"
proof -
  note inv = inv_life [OF assms(1)]
  have early: "comes_to_end U s" if "ml_pc s \<in> {M_created, M_ready, M_logging}"
    using that inv assms(2) end_created end_ready end_logging by blast
  have late: "comes_to U {M_done} s" if "ml_pc s \<in> {M_loop, M_stopped, M_cleaned, M_deleted, M_done}"
  proof (cases "ml_pc s = M_loop")
    case True
    with inv assms(2) show ?thesis by (intro end_loop) (simp_all add: life_inv_def has_object_def)
  qed (use that end_stopped end_cleaned end_deleted in blast)
  have "ml_pc s \<noteq> M_start" "ml_pc s \<noteq> M_handlers" using inv assms(2) by (auto simp: life_inv_def)
  then consider (e) "ml_pc s \<in> {M_created, M_ready, M_logging}"
    | (l) "ml_pc s \<in> {M_loop, M_stopped, M_cleaned, M_deleted, M_done}" | (f) "ml_pc s = M_failed"
    by (cases "ml_pc s") auto
  then have "\<exists>t. (main_life_step U)\<^sup>*\<^sup>* s t \<and> ml_crashed t = ml_crashed s \<and>
      (if ml_pc s \<in> {M_created, M_ready, M_logging} then ml_pc t \<in> {M_done, M_failed}
       else if ml_pc s = M_failed then t = s else ml_pc t = M_done)"
  proof cases
    case e
    with early [OF e] show ?thesis by auto
  next
    case l
    with late [OF l] show ?thesis by auto
  qed auto
  with inv show ?thesis by (simp add: life_inv_def)
qed

text \<open>A signal right after the constructor, before \<open>init\<close>.\<close>

definition signalled0 :: "(u8 list, nat, jv, nat) main_life" where
  "signalled0 = with_ctl (\<lambda>c. c\<lparr>co_bQuit := True\<rparr>)
     (begin0\<lparr>ml_pc := M_created, ml_gpobj := GP_object, ml_gbStopDaemon := True\<rparr>)"

lemma signalled0_reachable: "life_reachable life0 signalled0"
proof -
  let ?s = "begin0\<lparr>ml_pc := M_created, ml_gpobj := GP_object\<rparr> :: (u8 list, nat, jv, nat) main_life"
  have "main_life_step life0 (begin0\<lparr>ml_pc := M_handlers\<rparr>) ?s"
    using l_new [of "begin0\<lparr>ml_pc := M_handlers\<rparr>", OF _ refl, of life0 "(0, 0)"]
    by (simp add: main_begin_def life0_def lib_simps)
  from life_main [OF begin0_handlers _ this] have r: "life_reachable life0 ?s" by (simp add: main_begin_def)
  have t: "signal_step ?s signalled0"
    using s_taken [of ?s] by (simp add: sighandlerStop_def signalled0_def with_ctl_def main_begin_def on_ctl_def)
  show ?thesis by (rule life_signal [OF r _ t]) (simp add: main_begin_def)
qed

theorem signal_never_lost_witness:
  "\<exists>t. (main_life_step life0)\<^sup>*\<^sup>* signalled0 t \<and> \<not> ml_crashed t \<and> ml_pc t \<in> {M_done, M_failed}"
proof -
  have "ml_gbStopDaemon signalled0" "ml_pc signalled0 = M_created" "\<not> ml_crashed signalled0"
    by (simp_all add: signalled0_def main_begin_def)
  with signal_never_lost [OF signalled0_reachable] show ?thesis by auto
qed

end
