(* ===== verification/Simulation.thy ===== *)
theory Simulation
  imports Prelude
begin

text \<open>
  What it takes to look at one part of a larger system: a view of the state under which every step of
  the system is a step of the part or none. The process as a whole is related in this way to each
  device with its threads and to the calls of \<open>discovery\<close>, so that what holds of the parts holds of it.
\<close>

locale simulation =
  fixes start :: "'s \<Rightarrow> bool" and inv :: "'s \<Rightarrow> bool" and step :: "'s \<Rightarrow> 's \<Rightarrow> bool"
    and view :: "'s \<Rightarrow> 'a" and part_step :: "'a \<Rightarrow> 'a \<Rightarrow> bool"
  assumes start_inv: "start s \<Longrightarrow> inv s"
    and step_inv: "inv s \<Longrightarrow> step s t \<Longrightarrow> inv t"
    and simulates: "inv s \<Longrightarrow> step s t \<Longrightarrow> part_step (view s) (view t) \<or> view t = view s"
begin

lemma run_inv:
  assumes "step\<^sup>*\<^sup>* s t" and "inv s"
  shows "inv t"
  using assms by (induction rule: rtranclp_induct) (auto intro: step_inv)

lemma run_view:
  assumes "step\<^sup>*\<^sup>* s t" and "inv s"
  shows "part_step\<^sup>*\<^sup>* (view s) (view t)"
  using assms(1)
proof (induction rule: rtranclp_induct)
  case (step t u)
  from simulates [OF run_inv [OF step.hyps(1) assms(2)] step.hyps(2)] step.IH show ?case
    by (auto intro: rtranclp.rtrancl_into_rtrancl)
qed simp

lemma part_run:
  assumes "start s0" and "step\<^sup>*\<^sup>* s0 s"
  shows "inv s" and "part_step\<^sup>*\<^sup>* (view s0) (view s)"
  using run_inv run_view start_inv assms by blast+

end

end
