(* ===== verification/Process.thy ===== *)
theory Process
  imports Teardown Simulation
begin

text \<open>
  The process as a whole, from the moment \<open>run\<close> starts the drivers (\<open>controlobject.cpp\<close>) to the deletion
  of the control object at the end of \<open>main\<close> (\<open>mqttvscpd.cpp\<close>): the main thread, the worker thread and
  the event callback of every device, the calls of \<open>discovery\<close> the workers make on the control object,
  and signals, in any interleaving. The devices are those of \<open>Lifecycle\<close>, the calls those of
  \<open>DiscoveryThreads\<close>; here they run beside the main thread, over one control object.
\<close>

subsection \<open>State\<close>

text \<open>Where the main thread is: in \<open>startDeviceWorkerThreads\<close> before a device, before and after the test
  of the main loop, in \<open>stopDeviceWorkerThreads\<close> before a device or in its join, for the first time
  (in \<open>run\<close>) or the second (\<open>cleanup\<close> called by \<open>main\<close>), before \<open>delete\<close>, and after it, with what the
  destructors released.\<close>

datatype main_at =
  At_start nat | At_test | At_body | At_stop nat nat | At_join nat nat | At_delete
| At_end "resource list option"

record ('g, 'm, 'j, 'db) world =
  wo_main :: main_at
  wo_sys :: "('g, 'm, 'j, 'db) disc_sys"
  wo_dev :: "nat \<Rightarrow> device_state"

abbreviation wo_ctl where "wo_ctl w \<equiv> sy_ctl (wo_sys w)"

abbreviation wo_list where "wo_list w \<equiv> co_deviceList (wo_ctl w)"

definition world_start :: "('g, 'm, 'j, 'db) control \<Rightarrow> ('g, 'm, 'j, 'db) world" where
  "world_start c = \<lparr>wo_main = At_start 0, wo_sys = sys_init c, wo_dev = (\<lambda>_. ds_init)\<rparr>"

definition set_ctl ::
    "('g, 'm, 'j, 'db) control \<Rightarrow> ('g, 'm, 'j, 'db) world \<Rightarrow> ('g, 'm, 'j, 'db) world" where
  "set_ctl c w = w\<lparr>wo_sys := (wo_sys w)\<lparr>sy_ctl := c\<rparr>\<rparr>"

definition set_device ::
    "nat \<Rightarrow> ('g, 'm, 'j) device \<Rightarrow> ('g, 'm, 'j, 'db) world \<Rightarrow> ('g, 'm, 'j, 'db) world" where
  "set_device k d w = set_ctl ((wo_ctl w)\<lparr>co_deviceList := (wo_list w)[k := d]\<rparr>) w"

definition set_state ::
    "nat \<Rightarrow> device_state \<Rightarrow> ('g, 'm, 'j, 'db) world \<Rightarrow> ('g, 'm, 'j, 'db) world" where
  "set_state k s w = w\<lparr>wo_dev := (wo_dev w)(k := s)\<rparr>"

text \<open>\<open>m_bQuit = true\<close> in \<open>stopDriver\<close>, as the threads of the device see it; the second time it changes
  nothing.\<close>

definition ask :: "device_state \<Rightarrow> device_state" where
  "ask s = s\<lparr>ds_stop := (if ds_stop s = S_idle then S_join else ds_stop s), ds_quit := True\<rparr>"

subsection \<open>Steps\<close>

text \<open>The main thread. A heartbeat is sent event by event, and \<open>m_bQuit\<close> is read only by the test of the
  loop. The join waits for the end of the worker.\<close>

inductive process_main ::
    "('g, 'm) mqtt_api \<Rightarrow> ('g, 'm, 'j, 'db) world \<Rightarrow> ('g, 'm, 'j, 'db) world \<Rightarrow> bool" for M where
  p_start: "wo_main w = At_start k \<Longrightarrow> k < length (wo_list w) \<Longrightarrow> d = wo_list w ! k \<Longrightarrow>
     process_main M w (set_device k (if \<not> di_bEnable d then d else snd (startDriver created d))
                         (w\<lparr>wo_main := At_start (Suc k)\<rparr>))"
| p_started: "wo_main w = At_start k \<Longrightarrow> \<not> k < length (wo_list w) \<Longrightarrow>
     process_main M w (w\<lparr>wo_main := At_test\<rparr>)"
| p_enter: "wo_main w = At_test \<Longrightarrow> \<not> co_bQuit (wo_ctl w) \<Longrightarrow> process_main M w (w\<lparr>wo_main := At_body\<rparr>)"
| p_send: "wo_main w = At_body \<Longrightarrow> process_main M w (set_ctl (snd (CControlObject_sendEvent M (wo_ctl w) pex)) w)"
| p_again: "wo_main w = At_body \<Longrightarrow> process_main M w (w\<lparr>wo_main := At_test\<rparr>)"
| p_leave: "wo_main w = At_test \<Longrightarrow> co_bQuit (wo_ctl w) \<Longrightarrow> process_main M w (w\<lparr>wo_main := At_stop 0 0\<rparr>)"
| p_ask: "wo_main w = At_stop r k \<Longrightarrow> k < length (wo_list w) \<Longrightarrow> d = wo_list w ! k \<Longrightarrow> di_bEnable d \<Longrightarrow>
     process_main M w (set_device k (d\<lparr>di_bQuit := True\<rparr>) (set_state k (ask (wo_dev w k))
                         (w\<lparr>wo_main := At_join r k\<rparr>)))"
| p_skip: "wo_main w = At_stop r k \<Longrightarrow> k < length (wo_list w) \<Longrightarrow> \<not> di_bEnable (wo_list w ! k) \<Longrightarrow>
     process_main M w (w\<lparr>wo_main := At_stop r (Suc k)\<rparr>)"
| p_join: "wo_main w = At_join r k \<Longrightarrow> d = wo_list w ! k \<Longrightarrow> di_bThreadStarted d \<Longrightarrow>
     ds_worker (wo_dev w k) = W_end \<Longrightarrow>
     process_main M w (set_device k (d\<lparr>di_bThreadStarted := False\<rparr>)
                         (set_state k ((wo_dev w k)\<lparr>ds_stop := S_done\<rparr>) (w\<lparr>wo_main := At_stop r (Suc k)\<rparr>)))"
| p_no_join: "wo_main w = At_join r k \<Longrightarrow> \<not> di_bThreadStarted (wo_list w ! k) \<Longrightarrow>
     process_main M w (w\<lparr>wo_main := At_stop r (Suc k)\<rparr>)"
| p_stopped: "wo_main w = At_stop r k \<Longrightarrow> \<not> k < length (wo_list w) \<Longrightarrow>
     process_main M w (set_ctl ((wo_ctl w)\<lparr>co_mqttClient := mc_disconnect M (co_mqttClient (wo_ctl w))\<rparr>)
                         (w\<lparr>wo_main := if r = 0 then At_stop 1 0 else At_delete\<rparr>))"
| p_delete: "wo_main w = At_delete \<Longrightarrow>
     process_main M w (w\<lparr>wo_main := At_end (CControlObject_destroy (locked_at (wo_sys w) (wo_dev w)) (wo_ctl w))\<rparr>)"

definition ended :: "('g, 'm, 'j, 'db) world \<Rightarrow> bool" where
  "ended w \<longleftrightarrow> (case wo_main w of At_end r \<Rightarrow> True | _ \<Rightarrow> False)"

text \<open>All threads. The worker of a device runs from \<open>pthread_create\<close> to its end; \<open>discovery\<close> is called
  from its work loop, and it goes on when the call has returned. The client of a device, which runs
  the callback, and the control object, which the signal handlers write, exist until the deletion.
  \<open>lev\<close> tells which devices are of level II.\<close>

inductive process_step ::
    "('g, 'm, 'j, 'c, 'db) thread_env \<Rightarrow> (nat \<Rightarrow> bool) \<Rightarrow> ('g, 'm, 'j, 'db) world
       \<Rightarrow> ('g, 'm, 'j, 'db) world \<Rightarrow> bool" for E lev where
  main: "process_main (en_mqtt E) w t \<Longrightarrow> process_step E lev w t"
| signal: "\<not> ended w \<Longrightarrow> process_step E lev w (set_ctl ((wo_ctl w)\<lparr>co_bQuit := True\<rparr>) w)"
| worker: "i < length (wo_list w) \<Longrightarrow> di_bThreadStarted (wo_list w ! i) \<Longrightarrow> sy_pc (wo_sys w) i = D_idle \<Longrightarrow>
     worker_step (lev i) (wo_dev w i) s \<Longrightarrow> process_step E lev w (set_state i s w)"
| callback: "\<not> ended w \<Longrightarrow> callback_step (wo_dev w i) s \<Longrightarrow> process_step E lev w (set_state i s w)"
| discover: "ds_worker (wo_dev w i) = W_loop \<Longrightarrow> discovery_step E i (wo_sys w) s \<Longrightarrow>
     process_step E lev w (w\<lparr>wo_sys := s\<rparr>)"

inductive_cases process_mainE: "process_main M w t"
inductive_cases process_stepE: "process_step E lev w t"

lemma world_sel [simp]:
  "wo_main (set_ctl c w) = wo_main w" "wo_dev (set_ctl c w) = wo_dev w" "wo_ctl (set_ctl c w) = c"
  "sy_pc (wo_sys (set_ctl c w)) = sy_pc (wo_sys w)" "sy_mutex (wo_sys (set_ctl c w)) = sy_mutex (wo_sys w)"
  "wo_main (set_device k d w) = wo_main w" "wo_dev (set_device k d w) = wo_dev w"
  "wo_ctl (set_device k d w) = (wo_ctl w)\<lparr>co_deviceList := (wo_list w)[k := d]\<rparr>"
  "sy_pc (wo_sys (set_device k d w)) = sy_pc (wo_sys w)"
  "wo_main (set_state k s w) = wo_main w" "wo_sys (set_state k s w) = wo_sys w"
  "wo_dev (set_state k s w) = (wo_dev w)(k := s)"
  by (simp_all add: set_ctl_def set_device_def set_state_def)

subsection \<open>The invariant\<close>

text \<open>The devices before position \<open>k\<close> have been stopped.\<close>

definition stopped_upto :: "nat \<Rightarrow> ('g, 'm, 'j) device list \<Rightarrow> bool" where
  "stopped_upto k ds \<longleftrightarrow>
     (\<forall>i. i < k \<longrightarrow> i < length ds \<longrightarrow> \<not> di_bThreadStarted (ds ! i) \<and> (di_bEnable (ds ! i) \<longrightarrow> di_bQuit (ds ! i)))"

text \<open>What has been done to the devices by the place of the main thread.\<close>

definition place_ok :: "main_at \<Rightarrow> ('g, 'm, 'j) device list \<Rightarrow> (nat \<Rightarrow> device_state) \<Rightarrow> bool" where
  "place_ok m ds dev \<longleftrightarrow>
     (case m of
        At_start k \<Rightarrow> (\<forall>i. ds_stop (dev i) = S_idle) \<and>
          (\<forall>i. k \<le> i \<longrightarrow> i < length ds \<longrightarrow> \<not> di_bThreadStarted (ds ! i))
      | At_test \<Rightarrow> \<forall>i. ds_stop (dev i) = S_idle
      | At_body \<Rightarrow> \<forall>i. ds_stop (dev i) = S_idle
      | At_stop r k \<Rightarrow>
          if r = 0 then stopped_upto k ds \<and> (\<forall>i. k \<le> i \<longrightarrow> ds_stop (dev i) = S_idle)
          else stopped_upto (length ds) ds
      | At_join r k \<Rightarrow> k < length ds \<and> di_bQuit (ds ! k) \<and>
          (if r = 0 then stopped_upto k ds \<and> ds_stop (dev k) = S_join \<and>
             (\<forall>i. k < i \<longrightarrow> ds_stop (dev i) = S_idle)
           else stopped_upto (length ds) ds)
      | At_delete \<Rightarrow> stopped_upto (length ds) ds
      | At_end res \<Rightarrow> stopped_upto (length ds) ds)"

text \<open>How a device in the list and the state of its threads fit together.\<close>

definition device_ok :: "('g, 'm, 'j) device list \<Rightarrow> nat \<Rightarrow> device_state \<Rightarrow> bool" where
  "device_ok ds i s \<longleftrightarrow>
     device_inv s \<and>
     (\<not> i < length ds \<longrightarrow> s = ds_init) \<and>
     (i < length ds \<longrightarrow> (ds_worker s \<notin> {W_load, W_end} \<longrightarrow> di_bThreadStarted (ds ! i)) \<and>
        (di_bThreadStarted (ds ! i) \<longrightarrow> di_bEnable (ds ! i)) \<and> (di_bQuit (ds ! i) \<longrightarrow> ds_quit s))"

definition process_inv :: "('g, 'm, 'j, 'db) world \<Rightarrow> bool" where
  "process_inv w \<longleftrightarrow>
     (\<forall>i. device_ok (wo_list w) i (wo_dev w i)) \<and>
     (\<forall>i. sy_pc (wo_sys w) i \<noteq> D_idle \<longrightarrow> ds_worker (wo_dev w i) = W_loop) \<and>
     place_ok (wo_main w) (wo_list w) (wo_dev w)"

text \<open>A control object as \<open>init\<close> leaves it: no driver runs or has been asked to quit.\<close>

definition all_idle :: "('g, 'm, 'j, 'db) control \<Rightarrow> bool" where
  "all_idle c \<longleftrightarrow> (\<forall>d\<in>set (co_deviceList c). \<not> di_bThreadStarted d \<and> \<not> di_bQuit d)"

lemma start_process_inv: "all_idle c \<Longrightarrow> process_inv (world_start c)"
  by (auto simp: process_inv_def device_ok_def place_ok_def world_start_def sys_init_def all_idle_def
      inv_init [unfolded ds_init_def] ds_init_def)

lemma ask_inv: "device_inv s \<Longrightarrow> device_inv (ask s)"
  by (auto simp: inv_defs ask_def split: worker_pc.splits)

lemma joined_inv: "device_inv s \<Longrightarrow> ds_quit s \<Longrightarrow> ds_worker s = W_end \<Longrightarrow> device_inv (s\<lparr>ds_stop := S_done\<rparr>)"
  by (auto simp: inv_defs)

lemma stopped_upto_Suc:
  "stopped_upto (Suc k) ds \<longleftrightarrow> stopped_upto k ds \<and>
     (k < length ds \<longrightarrow> \<not> di_bThreadStarted (ds ! k) \<and> (di_bEnable (ds ! k) \<longrightarrow> di_bQuit (ds ! k)))"
  by (auto simp: stopped_upto_def less_Suc_eq)

lemma stopped_upto_update:
  "stopped_upto j ds \<Longrightarrow> (k < j \<Longrightarrow> \<not> di_bThreadStarted d \<and> (di_bEnable d \<longrightarrow> di_bQuit d)) \<Longrightarrow>
     stopped_upto j (ds[k := d])"
  unfolding stopped_upto_def by (metis length_list_update nth_list_update_eq nth_list_update_neq)

lemma stopped_upto_all: "\<not> k < length ds \<Longrightarrow> stopped_upto k ds \<longleftrightarrow> stopped_upto (length ds) ds"
  by (auto simp: stopped_upto_def)

lemma device_ok_set:
  assumes "device_ok ds i s" and "k < length ds" and "i = k \<Longrightarrow> device_ok (ds[k := d]) k s'"
    and "i \<noteq> k \<Longrightarrow> s' = s"
  shows "device_ok (ds[k := d]) i s'"
  using assms by (cases "i = k") (auto simp: device_ok_def)

lemma inv_update:
  assumes "process_inv w" and "k < length (wo_list w)" and "device_ok ((wo_list w)[k := d]) k s"
    and "ds_worker s = ds_worker (wo_dev w k)" and "place_ok m ((wo_list w)[k := d]) ((wo_dev w)(k := s))"
  shows "process_inv (set_device k d (set_state k s (w\<lparr>wo_main := m\<rparr>)))"
proof -
  have "device_ok ((wo_list w)[k := d]) i (((wo_dev w)(k := s)) i)" for i
    by (rule device_ok_set [of _ _ "wo_dev w i"]) (use assms(1-3) in \<open>auto simp: process_inv_def\<close>)
  with assms(1,4,5) show ?thesis by (simp add: process_inv_def)
qed

lemma inv_process_main:
  assumes "process_main M w t" and "process_inv w"
  shows "process_inv t"
proof -
  have D: "device_ok (wo_list w) i (wo_dev w i)" for i using assms(2) by (simp add: process_inv_def)
  have P: "place_ok (wo_main w) (wo_list w) (wo_dev w)" using assms(2) by (simp add: process_inv_def)
  have same: "process_inv (w\<lparr>wo_main := m\<rparr>)" if "place_ok m (wo_list w) (wo_dev w)" for m
    using assms(2) that by (simp add: process_inv_def)
  from assms(1) show ?thesis
  proof cases
    case (p_start k d created)
    let ?d = "if \<not> di_bEnable d then d else snd (startDriver created d)"
    have "device_ok ((wo_list w)[k := ?d]) k (wo_dev w k)"
      using D [of k] p_start by (auto simp: device_ok_def startDriver_def)
    from inv_update [OF assms(2) p_start(3) this refl, of "At_start (Suc k)"] p_start P show ?thesis
      by (simp add: place_ok_def set_state_def)
  next
    case (p_ask r k d)
    let ?ds = "(wo_list w)[k := d\<lparr>di_bQuit := True\<rparr>]"
    have ok: "device_ok ?ds k (ask (wo_dev w k))"
      using D [of k] p_ask ask_inv by (auto simp: device_ok_def ask_def)
    have up: "stopped_upto j ?ds" if "stopped_upto j (wo_list w)" for j
      by (rule stopped_upto_update [OF that]) (use that p_ask in \<open>auto simp: stopped_upto_def\<close>)
    have "place_ok (At_join r k) ?ds ((wo_dev w)(k := ask (wo_dev w k)))"
      using p_ask P up by (auto simp: place_ok_def ask_def)
    from inv_update [OF assms(2) p_ask(3) ok _ this] p_ask show ?thesis by (simp add: ask_def)
  next
    case (p_join r k d)
    have k: "k < length (wo_list w)" "di_bQuit d" "r = 0"
      using P p_join by (auto simp: place_ok_def stopped_upto_def split: if_splits)
    let ?ds = "(wo_list w)[k := d\<lparr>di_bThreadStarted := False\<rparr>]"
    have ok: "device_ok ?ds k ((wo_dev w k)\<lparr>ds_stop := S_done\<rparr>)"
      using D [of k] p_join k by (auto simp: device_ok_def intro!: joined_inv)
    have "stopped_upto k ?ds"
      by (rule stopped_upto_update) (use P p_join k in \<open>simp_all add: place_ok_def\<close>)
    with k have "stopped_upto (Suc k) ?ds" by (simp add: stopped_upto_Suc)
    then have "place_ok (At_stop r (Suc k)) ?ds ((wo_dev w)(k := (wo_dev w k)\<lparr>ds_stop := S_done\<rparr>))"
      using P p_join k by (auto simp: place_ok_def)
    from inv_update [OF assms(2) k(1) ok _ this] p_join show ?thesis by simp
  next
    case (p_skip r k)
    have "\<not> di_bThreadStarted (wo_list w ! k)" using D [of k] p_skip by (auto simp: device_ok_def)
    with p_skip P show ?thesis
      by (auto intro!: same simp: place_ok_def stopped_upto_Suc split: if_splits)
  next
    case (p_no_join r k)
    with P show ?thesis by (auto intro!: same simp: place_ok_def stopped_upto_Suc split: if_splits)
  next
    case (p_stopped r k)
    from stopped_upto_all [OF p_stopped(3)] P p_stopped(2) have "stopped_upto (length (wo_list w)) (wo_list w)"
      by (simp add: place_ok_def split: if_splits)
    with p_stopped assms(2) show ?thesis by (simp add: process_inv_def place_ok_def)
  next
    case (p_send pex)
    then show ?thesis using assms(2)
      by (simp add: process_inv_def CControlObject_sendEvent_def Let_def split: option.splits prod.splits)
  qed (use P in \<open>simp_all add: same place_ok_def stopped_upto_def\<close>)
qed

text \<open>A step of the threads of one device.\<close>

lemma inv_set_state:
  assumes "process_inv w" and "device_inv s" and "ds_stop s = ds_stop (wo_dev w i)"
    and "i < length (wo_list w)" and "ds_worker s \<notin> {W_load, W_end} \<Longrightarrow> di_bThreadStarted (wo_list w ! i)"
    and "sy_pc (wo_sys w) i \<noteq> D_idle \<Longrightarrow> ds_worker s = W_loop" and "ds_quit (wo_dev w i) \<Longrightarrow> ds_quit s"
  shows "process_inv (set_state i s w)"
proof -
  from assms(1) have D: "device_ok (wo_list w) i (wo_dev w i)" by (simp add: process_inv_def)
  have "device_ok (wo_list w) i s" using D assms(2,4,5,7) by (auto simp: device_ok_def)
  moreover have "place_ok (wo_main w) (wo_list w) ((wo_dev w)(i := s))"
  proof -
    have "ds_stop (((wo_dev w)(i := s)) j) = ds_stop (wo_dev w j)" for j using assms(3) by simp
    with assms(1) show ?thesis by (simp add: process_inv_def place_ok_def split: main_at.splits)
  qed
  ultimately show ?thesis using assms(1,6) by (simp add: process_inv_def)
qed

lemma inv_process:
  assumes "process_step E lev w t" and "process_inv w"
  shows "process_inv t"
  using assms(1)
proof cases
  case main
  with assms(2) show ?thesis by (rule inv_process_main [rotated])
next
  case signal
  with assms(2) show ?thesis by (simp add: process_inv_def)
next
  case (worker i s)
  then have "device_inv s" using assms(2) inv_worker by (auto simp: process_inv_def device_ok_def)
  moreover have "ds_stop s = ds_stop (wo_dev w i)" "ds_quit (wo_dev w i) \<Longrightarrow> ds_quit s"
    using worker(5) by (auto elim!: worker_stepE)
  ultimately show ?thesis unfolding worker(1) by (intro inv_set_state assms(2)) (use worker in simp_all)
next
  case (callback i s)
  then have "device_inv s" using assms(2) inv_callback by (auto simp: process_inv_def device_ok_def)
  moreover have "ds_stop s = ds_stop (wo_dev w i)" "ds_quit s = ds_quit (wo_dev w i)"
    "ds_worker s = ds_worker (wo_dev w i)"
    using callback(3) by (auto elim!: callback_stepE)
  moreover have "i < length (wo_list w)"
  proof (rule ccontr)
    assume "\<not> i < length (wo_list w)"
    then have "wo_dev w i = ds_init" using assms(2) by (simp add: process_inv_def device_ok_def)
    with callback(3) show False by (auto simp: ds_init_def elim!: callback_stepE)
  qed
  ultimately show ?thesis unfolding callback(1)
    by (intro inv_set_state assms(2)) (use assms(2) in \<open>auto simp: process_inv_def device_ok_def\<close>)
next
  case (discover i s)
  then have "co_deviceList (sy_ctl s) = wo_list w" "\<forall>j. j \<noteq> i \<longrightarrow> sy_pc s j = sy_pc (wo_sys w) j"
    by (auto elim!: discovery_stepE)
  with assms(2) discover show ?thesis by (auto simp: process_inv_def)
qed

subsection \<open>The parts of the process\<close>

text \<open>Seen from the calls of \<open>discovery\<close>, and seen from one device.\<close>

lemma step_sys:
  assumes "process_step E lev w t"
  shows "sys_step E (wo_sys w) (wo_sys t) \<or> wo_sys t = wo_sys w"
proof -
  have ctl: "sys_step E (wo_sys w) (wo_sys (set_ctl c v))"
    if "main_step (en_mqtt E) (wo_ctl w) c" "wo_sys v = wo_sys w" for c v
    using by_main [OF that(1)] that(2) by (simp add: set_ctl_def)
  from assms show ?thesis
  proof cases
    case main
    then show ?thesis
    proof cases
      case (p_start k d created)
      then show ?thesis
        using m_devices [of "en_mqtt E" "wo_ctl w" "wo_list w"]
        by (auto simp: set_device_def intro!: disjI1 ctl m_devices)
    qed (auto simp: set_device_def set_state_def intro!: ctl m_devices m_send m_disconnect)
  qed (auto simp: set_state_def intro: ctl m_signal by_thread)
qed

lemma step_device:
  assumes "process_inv w" and "process_step E lev w t"
  shows "device_step (lev i) (wo_dev w i) (wo_dev t i) \<or> wo_dev t i = wo_dev w i"
  using assms(2)
proof cases
  case main
  have "device_inv (wo_dev w i)" using assms(1) by (simp add: process_inv_def device_ok_def)
  then have ask: "device_step l (wo_dev w i) (ask (wo_dev w i)) \<or> ask (wo_dev w i) = wo_dev w i" for l
  proof (cases "ds_stop (wo_dev w i) = S_idle")
    case True
    with by_stop [OF s_ask] show ?thesis by (auto simp: ask_def)
  next
    case False
    then have "ds_quit (wo_dev w i)" using \<open>device_inv (wo_dev w i)\<close> by (simp add: device_inv_def stop_ok_def)
    with False show ?thesis by (simp add: ask_def)
  qed
  from main show ?thesis
  proof cases
    case (p_join r k d)
    then have "ds_stop (wo_dev w k) = S_join"
      using assms(1) by (auto simp: process_inv_def place_ok_def stopped_upto_def split: if_splits)
    then have "device_step (lev k) (wo_dev w k) ((wo_dev w k)\<lparr>ds_stop := S_done\<rparr>)"
      using p_join by (intro by_stop s_join)
    with p_join show ?thesis by simp
  next
    case (p_ask r k d)
    with ask [of "lev i"] show ?thesis by (cases "i = k") auto
  qed simp_all
qed (auto simp: set_state_def intro: by_worker by_callback)

interpretation pc: simulation "\<lambda>w. \<exists>c. all_idle c \<and> w = world_start c" process_inv "process_step E lev"
    wo_sys "sys_step E"
  for E lev
  by unfold_locales (use start_process_inv inv_process step_sys in blast)+

interpretation pd: simulation "\<lambda>w. \<exists>c. all_idle c \<and> w = world_start c" process_inv "process_step E lev"
    "\<lambda>w. wo_dev w i" "device_step (lev i)"
  for E lev i
  by unfold_locales (use start_process_inv inv_process step_device in blast)+

subsection \<open>The parts live their own lives\<close>

abbreviation process_run where
  "process_run E lev \<equiv> (process_step E lev)\<^sup>*\<^sup>*"

lemma sys_run_reachable: "(sys_step E)\<^sup>*\<^sup>* (sys_init c) s \<Longrightarrow> sys_reachable E c s"
  by (induction rule: rtranclp_induct) (auto intro: sys_start sys_more)

lemma device_run_reachable: "(device_step l2)\<^sup>*\<^sup>* ds_init s \<Longrightarrow> reachable l2 s"
  by (induction rule: rtranclp_induct) (auto intro: start step)

lemma process_view:
  assumes "all_idle c0" and "process_run E lev (world_start c0) w"
  shows "process_inv w" and "sys_reachable E c0 (wo_sys w)" and "reachable (lev i) (wo_dev w i)"
proof -
  have i: "\<exists>c. all_idle c \<and> world_start c0 = world_start c" using assms(1) by blast
  show "process_inv w" by (rule pc.part_run(1) [OF i assms(2)])
  show "sys_reachable E c0 (wo_sys w)"
    using pc.part_run(2) [OF i assms(2)] by (intro sys_run_reachable) (simp add: world_start_def)
  show "reachable (lev i) (wo_dev w i)"
    using pd.part_run(2) [OF i assms(2)] by (intro device_run_reachable) (simp add: world_start_def)
qed

text \<open>The drivers of the configuration stay what they are and where they are.\<close>

lemma drivers_kept:
  assumes "process_step E lev w t"
  shows "map (\<lambda>d. (di_strName d, di_bEnable d)) (wo_list t) = map (\<lambda>d. (di_strName d, di_bEnable d)) (wo_list w)"
proof -
  have upd: "map f ((wo_list w)[k := d]) = map f (wo_list w)" if "f d = f (wo_list w ! k)" for f k d
    using that by (metis list_update_id map_update)
  from assms show ?thesis
  proof cases
    case main
    then show ?thesis
    proof cases
      case (p_send pex)
      then show ?thesis by (simp add: CControlObject_sendEvent_def Let_def split: option.splits prod.splits)
    qed (simp_all add: upd startDriver_def)
  next
    case (discover i s)
    then have "co_deviceList (sy_ctl s) = wo_list w" by (auto elim!: discovery_stepE)
    with discover show ?thesis by simp
  qed simp_all
qed

text \<open>Nothing happens any more after the deletion, and it releases what it does at that moment.\<close>

lemma ended_final:
  assumes "process_inv w" and "ended w"
  shows "\<not> process_step E lev w t"
proof
  from assms obtain res where res: "wo_main w = At_end res" by (auto simp: ended_def split: main_at.splits)
  have none: "\<not> di_bThreadStarted (wo_list w ! i)" if "i < length (wo_list w)" for i
    using assms(1) res that by (auto simp: process_inv_def place_ok_def stopped_upto_def)
  then have out: "ds_worker (wo_dev w i) \<in> {W_load, W_end}" for i
    using assms(1) by (cases "i < length (wo_list w)") (auto simp: process_inv_def device_ok_def ds_init_def)
  assume "process_step E lev w t"
  then show False
  proof cases
    case main
    then show False by cases (simp_all add: res)
  next
    case (discover i s)
    with out [of i] show False by simp
  qed (use assms(2) none in auto)
qed

lemma end_result:
  assumes "all_idle c0" and "process_run E lev (world_start c0) w" and "wo_main w = At_end res"
  shows "res = CControlObject_destroy (locked_at (wo_sys w) (wo_dev w)) (wo_ctl w)"
  using assms(2,3)
proof (cases rule: rtranclp.cases)
  case (rtrancl_into_rtrancl v)
  note v = process_view(1) [OF assms(1) rtrancl_into_rtrancl(1)]
  then have "\<not> ended v" using ended_final rtrancl_into_rtrancl(2) by blast
  from rtrancl_into_rtrancl(2) show ?thesis
  proof cases
    case main
    then show ?thesis using assms(3) by cases (auto split: if_splits)
  qed (use \<open>\<not> ended v\<close> assms(3) in \<open>auto simp: ended_def\<close>)
qed (simp add: world_start_def)

lemma quiet_unlocked:
  assumes "reachable l2 d" and "ds_worker d \<in> {W_load, W_end}" and "ds_callback d \<in> {C_idle, C_lock}"
  shows "ds_mutex d = None"
  by (rule dm.all_out_free [OF reachable_steps [OF assms(1)]]) (use assms(2,3) in \<open>auto simp: owner_all\<close>)

lemma quiet_at_end:
  assumes "process_inv w" and "wo_main w = At_delete \<or> ended w"
  shows "ds_worker (wo_dev w i) \<in> {W_load, W_end} \<and> sy_pc (wo_sys w) i = D_idle"
    and "stopped_upto (length (wo_list w)) (wo_list w)"
proof -
  from assms show s: "stopped_upto (length (wo_list w)) (wo_list w)"
    by (auto simp: process_inv_def place_ok_def ended_def split: main_at.splits)
  have out: "ds_worker (wo_dev w i) \<in> {W_load, W_end}"
    using assms(1) s by (cases "i < length (wo_list w)")
      (auto simp: process_inv_def device_ok_def ds_init_def stopped_upto_def)
  with assms(1) show "ds_worker (wo_dev w i) \<in> {W_load, W_end} \<and> sy_pc (wo_sys w) i = D_idle"
    by (force simp: process_inv_def)
qed

lemma quiet_locked:
  assumes "reachable l2 d" and "ds_callback d \<notin> {C_idle, C_lock}"
  shows "ds_mutex d = Some Callback"
proof -
  from inv_reachable [OF assms(1)] have "mutex_ok d" by (simp add: device_inv_def)
  with assms(2) show ?thesis by (cases "ds_callback d") (auto simp: mutex_ok_def)
qed

text \<open>The deletion in every interleaving: no delivery has the mutex of its device, and all is released,
  or one has, and the deletion is undefined.\<close>

lemma end_deletion:
  assumes "all_idle c0" and "process_run E lev (world_start c0) w" and "wo_main w = At_end res"
  shows "\<forall>i. ds_callback (wo_dev w i) \<in> {C_idle, C_lock} \<Longrightarrow> \<exists>rs. res = Some rs \<and> releases_all (wo_ctl w) rs"
    and "ds_callback (wo_dev w i) \<notin> {C_idle, C_lock} \<Longrightarrow> res = None"
proof -
  note v = process_view [OF assms(1,2)]
  have e: "ended w" using assms(3) by (simp add: ended_def)
  with quiet_at_end(1) [OF v(1)] have q: "ds_worker (wo_dev w i) \<in> {W_load, W_end} \<and> sy_pc (wo_sys w) i = D_idle"
    for i by blast
  then have "sy_mutex (wo_sys w) = None" using idle_unlocked [OF v(2)] by blast
  moreover assume "\<forall>i. ds_callback (wo_dev w i) \<in> {C_idle, C_lock}"
  then have "ds_mutex (wo_dev w i) = None" for i using quiet_unlocked [OF v(3)] q by blast
  ultimately show "\<exists>rs. res = Some rs \<and> releases_all (wo_ctl w) rs"
    unfolding end_result [OF assms] by (intro destroy_complete) simp_all
next
  note v = process_view [OF assms(1,2)]
  assume c: "ds_callback (wo_dev w i) \<notin> {C_idle, C_lock}"
  with v(1) have "i < length (wo_list w)"
    by (cases "i < length (wo_list w)") (auto simp: process_inv_def device_ok_def ds_init_def)
  with quiet_locked [OF v(3) c] show "res = None"
    unfolding end_result [OF assms] by (intro destroy_undefined) auto
qed

text \<open>C3: The threads and the control object they share: however the main thread, the workers, the event
  callbacks, the calls of \<open>discovery\<close> and signals interleave, a thread is inside \<open>discovery\<close> only from
  its work loop; and when \<open>main\<close> comes to delete the control object, and after it, no worker of any
  device is running, none is inside \<open>discovery\<close>, no callback is inside a driver, every thread that was
  started has been joined and every enabled driver asked to quit. What the deletion does is told by
  the deliveries of the client then under way, which nothing waits for: if one is between the
  locking and the unlocking of its device's mutex the deletion is undefined behaviour, destroying
  a locked mutex; in every other case it releases, once each, all that the constructors and \<open>init\<close>
  have set up except the MQTT library, which nothing ever cleans up.\<close>

theorem no_thread_outlives_object:
  assumes "all_idle c0" and "process_run E lev (world_start c0) w"
  shows "(\<forall>i. sy_pc (wo_sys w) i \<noteq> D_idle \<longrightarrow> ds_worker (wo_dev w i) = W_loop) \<and>
         (wo_main w = At_delete \<or> ended w \<longrightarrow>
            (\<forall>i. ds_worker (wo_dev w i) \<in> {W_load, W_end} \<and> sy_pc (wo_sys w) i = D_idle \<and>
                 (\<forall>h. ds_callback (wo_dev w i) \<noteq> C_call h)) \<and>
            (\<forall>d\<in>set (wo_list w). \<not> di_bThreadStarted d \<and> (di_bEnable d \<longrightarrow> di_bQuit d))) \<and>
         (\<forall>res. wo_main w = At_end res \<longrightarrow>
            (if \<exists>i. ds_callback (wo_dev w i) \<in> {C_test, C_unlock} then res = None
             else \<exists>rs. res = Some rs \<and> distinct rs \<and>
               add_mset R_mosquitto (mset rs) = mset (holds (wo_ctl w))))"
proof -
  note v = process_view [OF assms]
  have call: "ds_callback (wo_dev w i) \<noteq> C_call h" if "ds_worker (wo_dev w i) \<in> {W_load, W_end}" for i h
    using lifecycle_call [OF v(3)] that by fastforce
  have stopped: "\<forall>d\<in>set (wo_list w). \<not> di_bThreadStarted d \<and> (di_bEnable d \<longrightarrow> di_bQuit d)"
    if "wo_main w = At_delete \<or> ended w"
    using quiet_at_end(2) [OF v(1) that] by (auto simp: stopped_upto_def in_set_conv_nth)
  have deleted: "if \<exists>i. ds_callback (wo_dev w i) \<in> {C_test, C_unlock} then res = None
      else \<exists>rs. res = Some rs \<and> distinct rs \<and> add_mset R_mosquitto (mset rs) = mset (holds (wo_ctl w))"
    if "wo_main w = At_end res" for res
  proof (cases "\<forall>i. ds_callback (wo_dev w i) \<in> {C_idle, C_lock}")
    case True
    then have "\<not> (\<exists>i. ds_callback (wo_dev w i) \<in> {C_test, C_unlock})"
      by (metis callback_pc.distinct insertE emptyE)
    with end_deletion(1) [OF assms that True] show ?thesis by (auto simp: releases_all_def)
  next
    case False
    then obtain i where i: "ds_callback (wo_dev w i) \<notin> {C_idle, C_lock}" by blast
    have "ended w" using that by (simp add: ended_def)
    with quiet_at_end(1) [OF v(1)] call have "\<forall>h. ds_callback (wo_dev w i) \<noteq> C_call h" by blast
    with i have "ds_callback (wo_dev w i) \<in> {C_test, C_unlock}" by (cases "ds_callback (wo_dev w i)") auto
    with end_deletion(2) [OF assms that i] show ?thesis by auto
  qed
  show ?thesis
    using v(1) quiet_at_end(1) [OF v(1)] call stopped deleted
    unfolding process_inv_def by blast
qed

subsection \<open>Shutdown\<close>

text \<open>How many steps the main thread, a worker with its callback, and a call of \<open>discovery\<close> have left at
  most, once \<open>m_bQuit\<close> is set.\<close>

fun main_left :: "nat \<Rightarrow> main_at \<Rightarrow> nat" where
  "main_left n (At_start k) = 4 * n + 7 + (n - k)"
| "main_left n At_body = 4 * n + 7"
| "main_left n At_test = 4 * n + 6"
| "main_left n (At_stop r k) = (if r = 0 then 2 * n + 1 else 0) + 2 * (n - k) + 2"
| "main_left n (At_join r k) = (if r = 0 then 2 * n + 1 else 0) + 2 * (n - k) + 1"
| "main_left n At_delete = 1"
| "main_left n (At_end res) = 0"

fun disc_left :: "disc_pc \<Rightarrow> nat" where
  "disc_left D_idle = 0" | "disc_left D_unlock = 1" | "disc_left (D_remember ev now) = 2"
| "disc_left (D_publish ev now) = 3" | "disc_left (D_insert ev) = 4" | "disc_left (D_find ev) = 5"
| "disc_left (D_wait ev) = 6"

definition thread_left :: "('g, 'm, 'j, 'db) world \<Rightarrow> nat \<Rightarrow> nat" where
  "thread_left w i = steps_left (wo_dev w i) + disc_left (sy_pc (wo_sys w) i)"

definition process_left :: "('g, 'm, 'j, 'db) world \<Rightarrow> nat" where
  "process_left w = main_left (length (wo_list w)) (wo_main w) + (\<Sum>i<length (wo_list w). thread_left w i)"

text \<open>One step towards the end: of the main thread, or of one of the threads.\<close>

lemma main_progress:
  assumes "length (wo_list t) = length (wo_list w)"
    and "main_left (length (wo_list w)) (wo_main t) < main_left (length (wo_list w)) (wo_main w)"
    and "\<And>i. thread_left t i = thread_left w i"
  shows "process_left t < process_left w"
  using assms by (simp add: process_left_def)

lemma thread_progress:
  assumes "wo_main t = wo_main w" and "length (wo_list t) = length (wo_list w)" and "i < length (wo_list w)"
    and "thread_left t i < thread_left w i" and "\<And>j. j \<noteq> i \<Longrightarrow> thread_left t j = thread_left w j"
  shows "process_left t < process_left w"
proof -
  have "(\<Sum>j<length (wo_list w). thread_left t j) < (\<Sum>j<length (wo_list w). thread_left w j)"
    using assms(3-5) by (intro sum_strict_mono_ex1) (auto simp: le_less, metis)
  with assms(1,2) show ?thesis by (simp add: process_left_def)
qed

lemma section_step:
  assumes "in_section (sy_pc s i)" and "co_db_vscp_daemon (sy_ctl s) \<noteq> None"
  shows "\<exists>t. discovery_step E i s t \<and> disc_left (sy_pc t i) < disc_left (sy_pc s i)"
proof -
  have go: "\<exists>t. discovery_step E i s t \<and> disc_left (sy_pc t i) < disc_left (sy_pc s i)"
    if "discovery_step E i s t" "disc_left (sy_pc t i) < disc_left (sy_pc s i)" for t
    using that by blast
  show ?thesis
  proof (cases "sy_pc s i")
    case (D_find ev)
    show ?thesis
    proof (cases "co_map_discoveryGuidToName (sy_ctl s) (event_key (en_guid E) ev) = None")
      case True
      with D_find show ?thesis by (intro go [OF d_unknown]) simp_all
    next
      case False
      with D_find show ?thesis by (intro go [OF d_known]) simp_all
    qed
  next
    case (D_insert ev)
    obtain db ok db' where x: "co_db_vscp_daemon (sy_ctl s) = Some db"
      "en_exec E db (discovery_sql [] (event_key (en_guid E) ev)) = (ok, db')"
      using assms(2) by (metis option.exhaust surj_pair)
    show ?thesis
    proof (cases ok)
      case True
      with x D_insert show ?thesis by (intro go [OF d_stored [OF D_insert x(1)]]) simp_all
    next
      case False
      with x D_insert show ?thesis by (intro go [OF d_refused [OF D_insert x(1)]]) simp_all
    qed
  next
    case (D_publish ev now)
    then show ?thesis by (intro go [OF d_publish [OF _ refl]]) simp_all
  next
    case (D_remember ev now)
    then show ?thesis by (intro go [OF d_remember]) simp_all
  next
    case D_unlock
    then show ?thesis by (intro go [OF d_unlock]) simp_all
  qed (use assms(1) in simp_all)
qed

lemma call_step:
  assumes "sys_reachable E c0 s" and "sy_pc s i \<noteq> D_idle"
  shows "\<exists>j t. sy_pc s j \<noteq> D_idle \<and> discovery_step E j s t \<and> disc_left (sy_pc t j) < disc_left (sy_pc s j)"
proof -
  note inv = sys_inv_reachable [OF assms(1), unfolded sys_inv_def]
  with assms(2) have db: "co_db_vscp_daemon (sy_ctl s) \<noteq> None" by blast
  have inside: ?thesis if "in_section (sy_pc s j)" for j
    using section_step [OF that db] that by (metis section_pc(1))
  show ?thesis
  proof (cases "\<exists>ev. sy_pc s i = D_wait ev")
    case True
    then obtain ev where w: "sy_pc s i = D_wait ev" by blast
    show ?thesis
    proof (cases "sy_mutex s")
      case None
      from d_lock [OF w None] w show ?thesis by (intro exI [of _ i] exI conjI) auto
    next
      case (Some j)
      with inv have "in_section (sy_pc s j)" by blast
      then show ?thesis by (rule inside)
    qed
  next
    case False
    with assms(2) have "in_section (sy_pc s i)" by (cases "sy_pc s i") auto
    then show ?thesis by (rule inside)
  qed
qed

lemma discovery_step_frame:
  "discovery_step E i s t \<Longrightarrow> co_deviceList (sy_ctl t) = co_deviceList (sy_ctl s)
     \<and> co_bQuit (sy_ctl t) = co_bQuit (sy_ctl s) \<and> (\<forall>j. j \<noteq> i \<longrightarrow> sy_pc t j = sy_pc s j)"
  by (auto elim!: discovery_stepE)

text \<open>The worker the main thread waits for, and the callback of a device whose deletion is next.\<close>

definition nearer ::
    "('g, 'm, 'j, 'c, 'db) thread_env \<Rightarrow> (nat \<Rightarrow> bool) \<Rightarrow> ('g, 'm, 'j, 'db) world \<Rightarrow> bool" where
  "nearer E lev w \<longleftrightarrow> (\<exists>t. process_step E lev w t \<and> process_left t < process_left w \<and> co_bQuit (wo_ctl t) \<and>
     (ended t \<longrightarrow> (\<forall>i. ds_callback (wo_dev t i) = C_idle)))"

lemma nearer_thread:
  assumes "process_step E lev w (set_state i s w)" and "i < length (wo_list w)"
    and "steps_left s < steps_left (wo_dev w i)" and "co_bQuit (wo_ctl w)" and "\<not> ended w"
  shows "nearer E lev w"
proof -
  have "process_left (set_state i s w) < process_left w"
    by (rule thread_progress [of _ _ i]) (use assms(2,3) in \<open>simp_all add: thread_left_def\<close>)
  with assms show ?thesis unfolding nearer_def by (intro exI [of _ "set_state i s w"]) (simp add: ended_def)
qed

lemma nearer_join:
  assumes "process_inv w" and "sys_reachable E c0 (wo_sys w)" and "co_bQuit (wo_ctl w)"
    and "wo_main w = At_join r k" and "di_bThreadStarted (wo_list w ! k)" and "ds_worker (wo_dev w k) \<noteq> W_end"
  shows "nearer E lev w"
proof -
  have e: "\<not> ended w" using assms(4) by (simp add: ended_def)
  have k: "k < length (wo_list w)" "device_inv (wo_dev w k)" "ds_quit (wo_dev w k)"
    using assms(1,4) by (auto simp: process_inv_def place_ok_def device_ok_def)
  show ?thesis
  proof (cases "sy_pc (wo_sys w) k = D_idle")
    case True
    from some_step [OF k(2,3) assms(6)] obtain s where
      s: "worker_step (lev k) (wo_dev w k) s \<or> callback_step (wo_dev w k) s" "steps_left s < steps_left (wo_dev w k)"
      by blast
    with worker [OF k(1) assms(5) True, of lev s E] callback [OF e, of k s E lev]
    have "process_step E lev w (set_state k s w)" by blast
    from nearer_thread [OF this k(1) s(2) assms(3) e] show ?thesis .
  next
    case False
    from call_step [OF assms(2) False] obtain j s where j: "sy_pc (wo_sys w) j \<noteq> D_idle"
      "discovery_step E j (wo_sys w) s" "disc_left (sy_pc s j) < disc_left (sy_pc (wo_sys w) j)" by blast
    have W: "ds_worker (wo_dev w j) = W_loop" using assms(1) j(1) by (simp add: process_inv_def)
    with assms(1) have "j < length (wo_list w)"
      by (auto simp: process_inv_def device_ok_def ds_init_def)
    then have "process_left (w\<lparr>wo_sys := s\<rparr>) < process_left w"
      using discovery_step_frame [OF j(2)] j(3)
      by (intro thread_progress [of _ _ j]) (simp_all add: thread_left_def)
    with discover [OF W j(2), of lev] discovery_step_frame [OF j(2)] assms(3) e show ?thesis
      unfolding nearer_def by (intro exI [of _ "w\<lparr>wo_sys := s\<rparr>"]) (simp add: ended_def)
  qed
qed

lemma nearer_main:
  assumes "process_main (en_mqtt E) w t" and "process_left t < process_left w" and "co_bQuit (wo_ctl t)"
    and "ended t \<Longrightarrow> \<forall>i. ds_callback (wo_dev t i) = C_idle"
  shows "nearer E lev w"
  unfolding nearer_def using main [OF assms(1)] assms(2-4) by blast

lemma callback_ends:
  assumes "device_inv s" and "ds_worker s \<notin> {W_close, W_unlock}" and "ds_callback s \<noteq> C_idle"
  shows "\<exists>t. callback_step s t \<and> steps_left t < steps_left s"
proof -
  have go: "\<exists>t. callback_step s t \<and> steps_left t < steps_left s"
    if "callback_step s t" "steps_left t < steps_left s" for t
    using that by blast
  show ?thesis
  proof (cases "ds_callback s")
    case C_lock
    with assms(1,2) have "ds_mutex s \<noteq> Some Worker" "ds_mutex s \<noteq> Some Callback"
      by (auto simp: device_inv_def mutex_ok_def)
    then have "ds_mutex s = None" by (metis not_Some_eq owner.exhaust)
    with C_lock show ?thesis by (intro go [OF c_lock]) (simp_all add: steps_left_def)
  next
    case C_test
    then show ?thesis by (intro go [OF c_return]) (simp_all add: steps_left_def)
  next
    case (C_call h)
    then show ?thesis by (intro go [OF c_called]) (simp_all add: steps_left_def)
  next
    case C_unlock
    then show ?thesis by (intro go [OF c_unlock]) (simp_all add: steps_left_def)
  qed (use assms(3) in simp)
qed

lemma nearer_delete:
  assumes "process_inv w" and "co_bQuit (wo_ctl w)" and "wo_main w = At_delete"
  shows "nearer E lev w"
proof (cases "\<forall>i. ds_callback (wo_dev w i) = C_idle")
  case True
  show ?thesis
    by (rule nearer_main [OF p_delete [OF assms(3)] main_progress])
       (use assms True in \<open>simp_all add: thread_left_def\<close>)
next
  case False
  then obtain i where i: "ds_callback (wo_dev w i) \<noteq> C_idle" by blast
  have e: "\<not> ended w" using assms(3) by (simp add: ended_def)
  have D: "device_ok (wo_list w) i (wo_dev w i)" "stopped_upto (length (wo_list w)) (wo_list w)"
    using assms(1,3) by (simp_all add: process_inv_def place_ok_def)
  with i have n: "i < length (wo_list w)" by (auto simp: device_ok_def ds_init_def)
  have "ds_worker (wo_dev w i) \<notin> {W_close, W_unlock}" using D n by (auto simp: device_ok_def stopped_upto_def)
  with D(1) i obtain s where "callback_step (wo_dev w i) s" "steps_left s < steps_left (wo_dev w i)"
    using callback_ends by (meson device_ok_def)
  with nearer_thread [OF callback [OF e] n _ assms(2) e] show ?thesis by blast
qed

lemma progress:
  assumes "process_inv w" and "sys_reachable E c0 (wo_sys w)" and "co_bQuit (wo_ctl w)" and "\<not> ended w"
  shows "nearer E lev w"
proof (cases "wo_main w")
  case (At_start k)
  show ?thesis
  proof (cases "k < length (wo_list w)")
    case True
    show ?thesis
      by (rule nearer_main [OF p_start [OF At_start True refl, of _ True] main_progress])
         (use At_start True assms in \<open>simp_all add: thread_left_def ended_def\<close>)
  next
    case False
    show ?thesis
      by (rule nearer_main [OF p_started [OF At_start False] main_progress])
         (use At_start assms in \<open>simp_all add: thread_left_def ended_def\<close>)
  qed
next
  case At_test
  show ?thesis
    by (rule nearer_main [OF p_leave [OF At_test assms(3)] main_progress])
       (use At_test assms in \<open>simp_all add: thread_left_def ended_def\<close>)
next
  case At_body
  show ?thesis
    by (rule nearer_main [OF p_again [OF At_body] main_progress])
       (use At_body assms in \<open>simp_all add: thread_left_def ended_def\<close>)
next
  case (At_stop r k)
  consider (ask) "k < length (wo_list w)" "di_bEnable (wo_list w ! k)"
    | (skip) "k < length (wo_list w)" "\<not> di_bEnable (wo_list w ! k)" | (stopped) "\<not> k < length (wo_list w)"
    by blast
  then show ?thesis
  proof cases
    case ask
    show ?thesis
      by (rule nearer_main [OF p_ask [OF At_stop ask(1) refl ask(2)] main_progress])
         (use At_stop ask assms in \<open>simp_all add: thread_left_def ended_def ask_def steps_left_def\<close>)
  next
    case skip
    show ?thesis
      by (rule nearer_main [OF p_skip [OF At_stop skip] main_progress])
         (use At_stop skip assms in \<open>simp_all add: thread_left_def ended_def\<close>)
  next
    case stopped
    show ?thesis
      by (rule nearer_main [OF p_stopped [OF At_stop stopped] main_progress])
         (use At_stop stopped assms in \<open>simp_all add: thread_left_def ended_def split: if_splits\<close>)
  qed
next
  case (At_join r k)
  have k: "k < length (wo_list w)" using assms(1) At_join by (simp add: process_inv_def place_ok_def)
  consider (none) "\<not> di_bThreadStarted (wo_list w ! k)"
    | (joined) "di_bThreadStarted (wo_list w ! k)" "ds_worker (wo_dev w k) = W_end"
    | (waits) "di_bThreadStarted (wo_list w ! k)" "ds_worker (wo_dev w k) \<noteq> W_end" by blast
  then show ?thesis
  proof cases
    case none
    show ?thesis
      by (rule nearer_main [OF p_no_join [OF At_join none] main_progress])
         (use At_join k assms in \<open>simp_all add: thread_left_def ended_def\<close>)
  next
    case joined
    show ?thesis
      by (rule nearer_main [OF p_join [OF At_join refl joined] main_progress])
         (use At_join k assms in \<open>simp_all add: thread_left_def ended_def steps_left_def\<close>)
  next
    case waits
    from nearer_join [OF assms(1-3) At_join waits] show ?thesis .
  qed
next
  case At_delete
  with nearer_delete [OF assms(1,3)] show ?thesis by blast
qed (use assms(4) in \<open>simp add: ended_def\<close>)

lemma process_ends:
  assumes "all_idle c0" and "process_run E lev (world_start c0) w" and "co_bQuit (wo_ctl w)" and "\<not> ended w"
  shows "\<exists>t rs. process_run E lev w t \<and> wo_main t = At_end (Some rs) \<and> releases_all (wo_ctl t) rs"
  using assms(2-4)
proof (induction "process_left w" arbitrary: w rule: less_induct)
  case less
  note v = process_view [OF assms(1) less.prems(1)]
  from progress [OF v(1,2) less.prems(2,3)] obtain t where t: "process_step E lev w t"
    "process_left t < process_left w" "co_bQuit (wo_ctl t)" "ended t \<longrightarrow> (\<forall>i. ds_callback (wo_dev t i) = C_idle)"
    by (auto simp: nearer_def)
  have r: "process_run E lev (world_start c0) t" using less.prems(1) t(1) by simp
  show ?case
  proof (cases "ended t")
    case True
    then obtain res where res: "wo_main t = At_end res" by (auto simp: ended_def split: main_at.splits)
    with t(4) True end_deletion(1) [OF assms(1) r res] show ?thesis using t(1) by blast
  next
    case False
    from less.hyps [OF t(2) r t(3) False] t(1) show ?thesis
      by (meson converse_rtranclp_into_rtranclp)
  qed
qed

lemma run_drivers_kept:
  "process_run E lev w t \<Longrightarrow>
     map (\<lambda>d. (di_strName d, di_bEnable d)) (wo_list t) = map (\<lambda>d. (di_strName d, di_bEnable d)) (wo_list w)"
  by (induction rule: rtranclp_induct) (auto dest: drivers_kept)

text \<open>C7: The process can always be shut down: from every state it can reach in which \<open>m_bQuit\<close> is set,
  while drivers are still being started, in the main loop, in the middle of a heartbeat or of the
  shutdown, with every worker, callback and call of \<open>discovery\<close> anywhere and the mutexes held by
  anyone, the threads can run on to the deletion of the control object, which destroys no locked
  mutex and releases, once each, all that is held but the MQTT library; the device list is then that of the start, no thread running
  and every enabled driver asked to quit.\<close>

theorem process_shutdown:
  assumes "all_idle c0" and "process_run E lev (world_start c0) w" and "co_bQuit (wo_ctl w)" and "\<not> ended w"
  shows "\<exists>t rs. process_run E lev w t \<and> wo_main t = At_end (Some rs) \<and>
           add_mset R_mosquitto (mset rs) = mset (holds (wo_ctl t)) \<and> distinct rs \<and>
           map (\<lambda>d. (di_strName d, di_bEnable d)) (wo_list t) =
             map (\<lambda>d. (di_strName d, di_bEnable d)) (co_deviceList c0) \<and>
           (\<forall>d\<in>set (wo_list t). \<not> di_bThreadStarted d \<and> (di_bEnable d \<longrightarrow> di_bQuit d))"
proof -
  from process_ends [OF assms] obtain t rs where t: "process_run E lev w t" "wo_main t = At_end (Some rs)"
    "releases_all (wo_ctl t) rs" by blast
  have r: "process_run E lev (world_start c0) t" using assms(2) t(1) by simp
  have "ended t" using t(2) by (simp add: ended_def)
  with quiet_at_end(2) [OF process_view(1) [OF assms(1) r]]
  have "\<forall>d\<in>set (wo_list t). \<not> di_bThreadStarted d \<and> (di_bEnable d \<longrightarrow> di_bQuit d)"
    by (auto simp: stopped_upto_def in_set_conv_nth)
  with t run_drivers_kept [OF r] show ?thesis
    by (intro exI [of _ t] exI [of _ rs]) (simp add: world_start_def sys_init_def releases_all_def)
qed

text \<open>C8: The process is made of the parts that the other theories treat one by one: in every state it
  can reach, the control object with the calls of \<open>discovery\<close> is in a state of the interleaved
  \<open>discovery\<close>, every device with its worker, callback and stop is in a state of the device life cycle,
  the calls of \<open>discovery\<close> so far act one after the other, and no callback calls a closed driver.\<close>

theorem process_refines_parts:
  assumes "all_idle c0" and "process_run E lev (world_start c0) w"
  shows "sys_reachable E c0 (wo_sys w) \<and> (\<forall>i. reachable (lev i) (wo_dev w i)) \<and>
         (sy_mutex (wo_sys w) = None \<longrightarrow>
            disc_view (wo_ctl w) = disc_view (serial E c0 (sy_done (wo_sys w)))) \<and>
         (\<forall>i h. ds_callback (wo_dev w i) = C_call h \<longrightarrow>
            ds_loaded (wo_dev w i) \<and> ds_open (wo_dev w i) = Some h \<and> \<not> ended w)"
proof -
  note v = process_view [OF assms]
  have "disc_view (wo_ctl w) = disc_view (serial E c0 (sy_done (wo_sys w)))" if "sy_mutex (wo_sys w) = None"
    using sys_inv_reachable [OF v(2)] that by (simp add: sys_inv_def)
  moreover have "ds_loaded (wo_dev w i) \<and> ds_open (wo_dev w i) = Some h \<and> \<not> ended w"
    if "ds_callback (wo_dev w i) = C_call h" for i h
    using inv_reachable [OF v(3) [of i]] lifecycle_call [OF v(3) that] quiet_at_end(1) [OF v(1), of i] that
    by (auto simp: device_inv_def callback_ok_def)
  ultimately show ?thesis using v(2,3) by blast
qed

subsection \<open>A concrete run\<close>

text \<open>One driver; its worker is inside \<open>discovery\<close> and its callback before the mutex when the signal comes.\<close>

definition one_driver :: "(u8 list, nat, jv, nat) control" where
  "one_driver = ctl0\<lparr>co_deviceList := [dev0 1]\<rparr>"

lemma one_driver_idle: "all_idle one_driver"
  by (simp add: all_idle_def one_driver_def dev0_def CDeviceItem_new_def)

lemma busy_process:
  "\<exists>w. process_run env0 (\<lambda>_. False) (world_start one_driver) w \<and> co_bQuit (wo_ctl w) \<and> \<not> ended w \<and>
     sy_pc (wo_sys w) 0 = D_wait zero_event \<and> ds_callback (wo_dev w 0) = C_lock"
proof -
  let ?run = "process_run env0 (\<lambda>_. False) (world_start one_driver)"
  let ?step = "process_step env0 (\<lambda>_. False)"
  let ?sys = "(sys_init one_driver)\<lparr>sy_ctl := one_driver\<lparr>co_deviceList := [(dev0 1)\<lparr>di_bThreadStarted := True\<rparr>]\<rparr>\<rparr>"
  let ?s = "\<lambda>p h op ld li cb. \<lparr>ds_worker = p, ds_callback = cb, ds_stop = S_idle, ds_quit = False, ds_handle = h,
     ds_open = op, ds_loaded = ld, ds_mutex = None, ds_listening = li\<rparr>"
  let ?w = "\<lambda>sys s. \<lparr>wo_main = At_start 1, wo_sys = sys, wo_dev = (\<lambda>_. ds_init)(0 := s)\<rparr>"
  have dev: "di_bEnable (dev0 1)" by (simp add: dev0_def)
  have go: "?run t" if "?run v" "?step v t" for v t using that by (rule rtranclp.rtrancl_into_rtrancl)
  have work: "?run (?w ?sys t)" if "?run (?w ?sys s)" "worker_step False s t" for s t
    using go [OF that(1) worker [of 0 _ _ t]] that(2) by (simp add: set_state_def sys_init_def)
  have "?step (world_start one_driver) (?w ?sys ds_init)"
    using main [OF p_start [OF _ _ refl, of "world_start one_driver" 0 _ True], where E = env0 and lev = "\<lambda>_. False"] dev
    by (simp add: world_start_def sys_init_def one_driver_def set_device_def set_ctl_def startDriver_def fun_upd_idem)
  then have "?run (?w ?sys (?s W_load 0 None False False C_idle))" by (auto simp: ds_init_def)
  from work [OF this w_load] have "?run (?w ?sys (?s W_open 0 None True False C_idle))" by simp
  from work [OF this w_open [where h = 7]] have "?run (?w ?sys (?s W_connect 7 (Some 7) True False C_idle))" by simp
  from work [OF this w_connect] have loop: "?run (?w ?sys (?s W_loop 7 (Some 7) True True C_idle))" by simp
  let ?busy = "goto 0 (D_wait zero_event) (?sys\<lparr>sy_calls := (sy_calls ?sys)(0 := [zero_event])\<rparr>)"
  have "discovery_step env0 0 ?sys ?busy"
    using d_call [of ?sys 0 env0 zero_event] by (simp add: sys_init_def one_driver_def lib_simps)
  with go [OF loop discover [where i = 0 and s = ?busy]] have "?run (?w ?busy (?s W_loop 7 (Some 7) True True C_idle))" by simp
  from go [OF this callback [OF _ c_enter, where i = 0]] have b: "?run (?w ?busy (?s W_loop 7 (Some 7) True True C_lock))"
    by (simp add: ended_def set_state_def)
  let ?v = "?w ?busy (?s W_loop 7 (Some 7) True True C_lock)"
  let ?t = "set_ctl ((wo_ctl ?v)\<lparr>co_bQuit := True\<rparr>) ?v"
  have "?run ?t" by (rule go [OF b signal]) (simp add: ended_def)
  moreover have "\<not> ended ?t" by (simp add: ended_def)
  ultimately show ?thesis by (intro exI [of _ ?t] conjI) (simp_all only: world_sel, simp_all)
qed

theorem no_thread_outlives_object_witness:
  "\<exists>w rs. process_run env0 (\<lambda>_. False) (world_start one_driver) w \<and> wo_main w = At_end (Some rs) \<and>
     ds_worker (wo_dev w 0) \<in> {W_load, W_end}"
proof -
  from busy_process obtain w where w: "process_run env0 (\<lambda>_. False) (world_start one_driver) w"
    "co_bQuit (wo_ctl w)" "\<not> ended w" by blast
  from process_ends [OF one_driver_idle w] obtain t rs where t: "process_run env0 (\<lambda>_. False) w t"
    "wo_main t = At_end (Some rs)" by blast
  have r: "process_run env0 (\<lambda>_. False) (world_start one_driver) t" using w(1) t(1) by simp
  from no_thread_outlives_object [OF one_driver_idle r] t r show ?thesis by (auto simp: ended_def)
qed

theorem process_shutdown_witness:
  "\<exists>w t rs. ds_callback (wo_dev w 0) = C_lock \<and> process_run env0 (\<lambda>_. False) w t \<and> wo_main t = At_end (Some rs) \<and>
     map di_bThreadStarted (wo_list t) = [False]"
proof -
  from busy_process obtain w where w: "process_run env0 (\<lambda>_. False) (world_start one_driver) w"
    "co_bQuit (wo_ctl w)" "\<not> ended w" "ds_callback (wo_dev w 0) = C_lock" by blast
  from process_shutdown [OF one_driver_idle w(1-3)] obtain t rs where t: "process_run env0 (\<lambda>_. False) w t"
    "wo_main t = At_end (Some rs)" "map (\<lambda>d. (di_strName d, di_bEnable d)) (wo_list t) =
       map (\<lambda>d. (di_strName d, di_bEnable d)) (co_deviceList one_driver)"
    "\<forall>d\<in>set (wo_list t). \<not> di_bThreadStarted d" by blast
  then have "map di_bThreadStarted (wo_list t) = [False]" by (auto simp: one_driver_def)
  with w(4) t(1,2) show ?thesis by (intro exI [of _ w] exI [of _ t] exI [of _ rs] conjI)
qed

theorem process_refines_parts_witness:
  "\<exists>w :: (u8 list, nat, jv, nat) world. sy_pc (wo_sys w) 0 = D_wait zero_event \<and> sys_reachable env0 one_driver (wo_sys w) \<and> reachable False (wo_dev w 0)"
proof -
  from busy_process obtain w where "process_run env0 (\<lambda>_. False) (world_start one_driver) w"
    "sy_pc (wo_sys w) 0 = D_wait zero_event" by blast
  with process_refines_parts [OF one_driver_idle this(1)] show ?thesis by blast
qed

end
