(* ===== verification/Delivery.thy ===== *)
theory Delivery
  imports Process ThreadDelivery
begin

text \<open>
  The events of the drivers in the running process. In \<open>Process\<close> an iteration of a work loop
  (\<open>devicethread.cpp\<close>) is a step that changes nothing; here it is taken apart: the test of \<open>m_bQuit\<close>,
  the message of the driver and its translation, the call of \<open>discovery\<close> by \<open>CDeviceItem::sendEvent\<close>,
  statement by statement, and the client's \<open>send\<close>. The steps of all other threads, of the other
  devices too, come between any two of them. The histories say what each driver has given and what
  each client has been handed.
\<close>

subsection \<open>State\<close>

text \<open>Where the worker is in its work loop: before the test, before the read, before and in
  \<open>discovery\<close>, before the client's \<open>send\<close>. A worker that is not in its loop is at \<open>L_test\<close>.\<close>

datatype loop_at =
  L_test | L_read | L_discover vscp_event | L_inside vscp_event | L_send vscp_event

record ('g, 'm, 'j, 'c, 'db) traffic =
  tf_world :: "('g, 'm, 'j, 'db) world"
  tf_at :: "nat \<Rightarrow> loop_at"
  tf_given :: "nat \<Rightarrow> 'c answers list"
  tf_sent :: "nat \<Rightarrow> vscp_event list"

definition traffic_start :: "('g, 'm, 'j, 'db) control \<Rightarrow> ('g, 'm, 'j, 'c, 'db) traffic" where
  "traffic_start c = \<lparr>tf_world = world_start c, tf_at = (\<lambda>_. L_test), tf_given = (\<lambda>_. []), tf_sent = (\<lambda>_. [])\<rparr>"

definition loop_goto ::
    "nat \<Rightarrow> loop_at \<Rightarrow> ('g, 'm, 'j, 'c, 'db) traffic \<Rightarrow> ('g, 'm, 'j, 'c, 'db) traffic" where
  "loop_goto i l s = s\<lparr>tf_at := (tf_at s)(i := l)\<rparr>"

definition set_world ::
    "('g, 'm, 'j, 'db) world \<Rightarrow> ('g, 'm, 'j, 'c, 'db) traffic \<Rightarrow> ('g, 'm, 'j, 'c, 'db) traffic" where
  "set_world w s = s\<lparr>tf_world := w\<rparr>"

text \<open>An event that has been received and translated and not yet handed to the client.\<close>

fun pending :: "loop_at \<Rightarrow> vscp_event list" where
  "pending L_test = []" | "pending L_read = []" | "pending (L_discover ev) = [ev]"
| "pending (L_inside ev) = [ev]" | "pending (L_send ev) = [ev]"

text \<open>The place after a read: a message that is missing or cannot be converted is a \<open>continue\<close>.\<close>

fun after_read :: "vscp_event list \<Rightarrow> loop_at" where
  "after_read [] = L_test"
| "after_read (ev # rest) = L_discover ev"

subsection \<open>Steps\<close>

inductive traffic_step ::
    "('g, 'm, 'j, 'c, 'db) thread_env \<Rightarrow> (nat \<Rightarrow> bool) \<Rightarrow> (nat \<Rightarrow> driver_lib)
       \<Rightarrow> ('g, 'm, 'j, 'c, 'db) traffic \<Rightarrow> ('g, 'm, 'j, 'c, 'db) traffic \<Rightarrow> bool" for E lev L where
  f_main: "process_main (en_mqtt E) (tf_world s) w \<Longrightarrow> traffic_step E lev L s (set_world w s)"
| f_signal: "\<not> ended (tf_world s) \<Longrightarrow>
     traffic_step E lev L s (set_world (set_ctl ((wo_ctl (tf_world s))\<lparr>co_bQuit := True\<rparr>) (tf_world s)) s)"
| f_callback: "\<not> ended (tf_world s) \<Longrightarrow> callback_step (wo_dev (tf_world s) i) d \<Longrightarrow>
     traffic_step E lev L s (set_world (set_state i d (tf_world s)) s)"
| f_worker: "i < length (wo_list (tf_world s)) \<Longrightarrow> di_bThreadStarted (wo_list (tf_world s) ! i) \<Longrightarrow>
     ds_worker (wo_dev (tf_world s) i) \<noteq> W_loop \<Longrightarrow> worker_step (lev i) (wo_dev (tf_world s) i) d \<Longrightarrow>
     traffic_step E lev L s (set_world (set_state i d (tf_world s)) s)"
| f_leave: "i < length (wo_list (tf_world s)) \<Longrightarrow> di_bThreadStarted (wo_list (tf_world s) ! i) \<Longrightarrow>
     ds_worker (wo_dev (tf_world s) i) = W_loop \<Longrightarrow> tf_at s i = L_test \<Longrightarrow>
     ds_quit (wo_dev (tf_world s) i) \<Longrightarrow> worker_step (lev i) (wo_dev (tf_world s) i) d \<Longrightarrow>
     traffic_step E lev L s (set_world (set_state i d (tf_world s)) s)"
| f_test: "ds_worker (wo_dev (tf_world s) i) = W_loop \<Longrightarrow> tf_at s i = L_test \<Longrightarrow>
     \<not> ds_quit (wo_dev (tf_world s) i) \<Longrightarrow> traffic_step E lev L s (loop_goto i L_read s)"
| f_read: "tf_at s i = L_read \<Longrightarrow>
     traffic_step E lev L s (loop_goto i (after_read (thread_emit E (L i) (wo_list (tf_world s) ! i) a))
       (s\<lparr>tf_given := (tf_given s)(i := tf_given s i @ [a])\<rparr>))"
| f_no_discovery: "tf_at s i = L_discover ev \<Longrightarrow> co_db_vscp_daemon (wo_ctl (tf_world s)) = None \<Longrightarrow>
     traffic_step E lev L s (loop_goto i (L_send ev) s)"
| f_discovery: "tf_at s i = L_discover ev \<Longrightarrow> sy_pc (wo_sys (tf_world s)) i = D_idle \<Longrightarrow>
     discovery_step E i (wo_sys (tf_world s)) t \<Longrightarrow> sy_pc t i = D_wait ev \<Longrightarrow>
     traffic_step E lev L s (loop_goto i (L_inside ev) (set_world ((tf_world s)\<lparr>wo_sys := t\<rparr>) s))"
| f_inside: "tf_at s i = L_inside ev \<Longrightarrow> sy_pc (wo_sys (tf_world s)) i \<noteq> D_idle \<Longrightarrow>
     discovery_step E i (wo_sys (tf_world s)) t \<Longrightarrow>
     traffic_step E lev L s (set_world ((tf_world s)\<lparr>wo_sys := t\<rparr>) s)"
| f_return: "tf_at s i = L_inside ev \<Longrightarrow> sy_pc (wo_sys (tf_world s)) i = D_idle \<Longrightarrow>
     traffic_step E lev L s (loop_goto i (L_send ev) s)"
| f_send: "tf_at s i = L_send ev \<Longrightarrow>
     traffic_step E lev L s (loop_goto i L_test (s\<lparr>tf_sent := (tf_sent s)(i := tf_sent s i @ [ev])\<rparr>))"

inductive_cases traffic_stepE: "traffic_step E lev L s t"

lemma traffic_sel [simp]:
  "tf_world (loop_goto i l s) = tf_world s" "tf_at (loop_goto i l s) = (tf_at s)(i := l)"
  "tf_given (loop_goto i l s) = tf_given s" "tf_sent (loop_goto i l s) = tf_sent s"
  "tf_world (set_world w s) = w" "tf_at (set_world w s) = tf_at s" "tf_given (set_world w s) = tf_given s"
  "tf_sent (set_world w s) = tf_sent s"
  by (simp_all add: loop_goto_def set_world_def)

subsection \<open>The process underneath\<close>

text \<open>A worker is inside its loop exactly where its place says so, and inside \<open>discovery\<close> only with the
  event it carries.\<close>

definition places_ok :: "('g, 'm, 'j, 'c, 'db) traffic \<Rightarrow> bool" where
  "places_ok s \<longleftrightarrow>
     (\<forall>i. tf_at s i \<noteq> L_test \<longrightarrow> ds_worker (wo_dev (tf_world s) i) = W_loop) \<and>
     (\<forall>i. sy_pc (wo_sys (tf_world s)) i \<noteq> D_idle \<longrightarrow> (\<exists>ev. tf_at s i = L_inside ev))"

lemma traffic_process:
  assumes "traffic_step E lev L s t" and "process_inv (tf_world s)" and "places_ok s"
  shows "process_step E lev (tf_world s) (tf_world t) \<or> tf_world t = tf_world s"
  using assms(1)
proof cases
  case (f_worker i d)
  then have "sy_pc (wo_sys (tf_world s)) i = D_idle" using assms(2) by (auto simp: process_inv_def)
  with f_worker show ?thesis by (auto intro: worker)
next
  case (f_leave i d)
  then have "sy_pc (wo_sys (tf_world s)) i = D_idle" using assms(3) by (auto simp: places_ok_def)
  with f_leave show ?thesis by (auto intro: worker)
next
  case (f_discovery i ev t')
  then have "ds_worker (wo_dev (tf_world s) i) = W_loop" using assms(3) by (auto simp: places_ok_def)
  with f_discovery show ?thesis by (auto intro: discover)
next
  case (f_inside i ev t')
  then have "ds_worker (wo_dev (tf_world s) i) = W_loop" using assms(3) by (auto simp: places_ok_def)
  with f_inside show ?thesis by (auto intro: discover)
qed (auto intro: main signal callback)

text \<open>What the main thread leaves alone.\<close>

definition fixed_parts :: "('g, 'm, 'j, 'db) world \<Rightarrow> ('g \<times> u32 \<times> u8) list \<times> bool" where
  "fixed_parts w = (map (\<lambda>d. (di_guid d, di_translation d, di_driverLevel d)) (wo_list w),
                    co_db_vscp_daemon (wo_ctl w) = None)"

lemma map_update_same: "f d = f (xs ! k) \<Longrightarrow> map f (xs[k := d]) = map f xs"
  by (metis list_update_id map_update)

lemma send_fixed:
  "co_deviceList (snd (CControlObject_sendEvent M c p)) = co_deviceList c"
  "co_db_vscp_daemon (snd (CControlObject_sendEvent M c p)) = co_db_vscp_daemon c"
  by (simp_all add: CControlObject_sendEvent_def Let_def split: option.splits prod.splits)

lemma process_main_frame:
  assumes "process_main M w t"
  shows "ds_worker (wo_dev t i) = ds_worker (wo_dev w i)" and "ds_quit (wo_dev w i) \<Longrightarrow> ds_quit (wo_dev t i)"
    and "sy_pc (wo_sys t) = sy_pc (wo_sys w)" and "sy_calls (wo_sys t) = sy_calls (wo_sys w)"
    and "fixed_parts t = fixed_parts w"
proof -
  from assms have "ds_worker (wo_dev t i) = ds_worker (wo_dev w i) \<and>
      (ds_quit (wo_dev w i) \<longrightarrow> ds_quit (wo_dev t i)) \<and> sy_calls (wo_sys t) = sy_calls (wo_sys w) \<and>
      sy_pc (wo_sys t) = sy_pc (wo_sys w) \<and> fixed_parts t = fixed_parts w"
    by cases (auto simp: ask_def set_device_def set_ctl_def set_state_def fixed_parts_def send_fixed
        map_update_same startDriver_def)
  then show "ds_worker (wo_dev t i) = ds_worker (wo_dev w i)" "ds_quit (wo_dev w i) \<Longrightarrow> ds_quit (wo_dev t i)"
    "sy_pc (wo_sys t) = sy_pc (wo_sys w)" "sy_calls (wo_sys t) = sy_calls (wo_sys w)"
    "fixed_parts t = fixed_parts w" by blast+
qed

lemma callback_frame: "callback_step d d' \<Longrightarrow> ds_worker d' = ds_worker d \<and> ds_quit d' = ds_quit d"
  by (auto elim!: callback_stepE)

lemma worker_quit: "worker_step l d d' \<Longrightarrow> ds_quit d \<Longrightarrow> ds_quit d'"
  by (auto elim!: worker_stepE)

lemma discovery_database:
  "discovery_step E i s t \<Longrightarrow> co_db_vscp_daemon (sy_ctl t) = None \<longleftrightarrow> co_db_vscp_daemon (sy_ctl s) = None"
  by (auto elim!: discovery_stepE)

lemma discovery_calls:
  assumes "discovery_step E i s t"
  shows "\<forall>j. j \<noteq> i \<longrightarrow> sy_calls t j = sy_calls s j"
    and "sy_pc s i \<noteq> D_idle \<Longrightarrow> sy_calls t i = sy_calls s i"
    and "sy_pc s i = D_idle \<Longrightarrow> sy_pc t i = D_wait ev \<Longrightarrow> sy_calls t i = sy_calls s i @ [ev] \<and> co_db_vscp_daemon (sy_ctl s) \<noteq> None"
  using assms by (auto elim!: discovery_stepE)

lemma places_kept:
  assumes "traffic_step E lev L s t" and "places_ok s"
  shows "places_ok t"
  using assms(1)
proof cases
  case (f_main w)
  with assms(2) process_main_frame [OF f_main(2)] show ?thesis by (simp add: places_ok_def)
next
  case (f_callback i d)
  with assms(2) callback_frame [OF f_callback(3)] show ?thesis by (simp add: places_ok_def)
next
  case (f_worker i d)
  then have "tf_at s i = L_test" using assms(2) by (auto simp: places_ok_def)
  with f_worker assms(2) show ?thesis by (simp add: places_ok_def)
next
  case (f_discovery i ev t')
  with assms(2) discovery_step_frame [OF f_discovery(4)] show ?thesis by (auto simp: places_ok_def)
next
  case (f_inside i ev t')
  with assms(2) discovery_step_frame [OF f_inside(4)] show ?thesis by (auto simp: places_ok_def)
qed (use assms(2) in \<open>auto simp: places_ok_def\<close>)

subsection \<open>The accounts\<close>

text \<open>The events the messages of a driver are translated to.\<close>

definition translated ::
    "('g, 'm, 'j, 'c, 'db) thread_env \<Rightarrow> (nat \<Rightarrow> driver_lib) \<Rightarrow> ('g, 'm, 'j, 'db) control
       \<Rightarrow> nat \<Rightarrow> 'c answers list \<Rightarrow> vscp_event list" where
  "translated E L c0 i given = concat (map (thread_emit E (L i) (co_deviceList c0 ! i)) given)"

text \<open>Each of them is with the client or in the worker's hands, and each has been taken to \<open>discovery\<close>
  unless that comes next.\<close>

fun before_discovery :: "loop_at \<Rightarrow> vscp_event list" where
  "before_discovery (L_discover ev) = [ev]"
| "before_discovery l = []"

definition account_ok ::
    "('g, 'm, 'j, 'c, 'db) thread_env \<Rightarrow> (nat \<Rightarrow> driver_lib) \<Rightarrow> ('g, 'm, 'j, 'db) control
       \<Rightarrow> ('g, 'm, 'j, 'c, 'db) traffic \<Rightarrow> nat \<Rightarrow> bool" where
  "account_ok E L c0 s i \<longleftrightarrow>
     tf_sent s i @ pending (tf_at s i) = translated E L c0 i (tf_given s i) \<and>
     (co_db_vscp_daemon c0 \<noteq> None \<longrightarrow>
        sy_calls (wo_sys (tf_world s)) i @ before_discovery (tf_at s i) = translated E L c0 i (tf_given s i))"

definition traffic_inv where
  "traffic_inv E L c0 s \<longleftrightarrow>
     process_inv (tf_world s) \<and> places_ok s \<and> fixed_parts (tf_world s) = fixed_parts (world_start c0) \<and>
     (\<forall>i. account_ok E L c0 s i)"

lemma thread_emit_cases: "thread_emit E L d a = [] \<or> (\<exists>ev. thread_emit E L d a = [ev])"
  by (auto simp: thread_emit_def l1_blocking_emit_def l1_polling_emit_def l2_emit_def Let_def split: option.splits)

lemma thread_emit_fixed:
  assumes "fixed_parts w = fixed_parts (world_start c0)" and "i < length (wo_list w)"
  shows "thread_emit E L (wo_list w ! i) a = thread_emit E L (co_deviceList c0 ! i) a"
proof -
  let ?f = "\<lambda>d. (di_guid d, di_translation d, di_driverLevel d)"
  have m: "map ?f (wo_list w) = map ?f (co_deviceList c0)"
    using assms(1) by (simp add: fixed_parts_def world_start_def sys_init_def)
  have "i < length (co_deviceList c0)" using arg_cong [OF m, of length] assms(2) by simp
  then have "?f (wo_list w ! i) = ?f (co_deviceList c0 ! i)"
    using arg_cong [OF m, of "\<lambda>fs. fs ! i"] assms(2) by simp
  then show ?thesis by (simp add: thread_emit_def)
qed

lemma fixed_kept:
  assumes "traffic_step E lev L s t"
  shows "fixed_parts (tf_world t) = fixed_parts (tf_world s)"
  using assms
proof cases
  case (f_main w)
  from process_main_frame(5) [OF f_main(2)] f_main(1) show ?thesis by simp
next
  case (f_discovery i ev t')
  from f_discovery(1) have w: "wo_sys (tf_world t) = t'" by simp
  show ?thesis unfolding fixed_parts_def w
    by (simp only: discovery_database [OF f_discovery(4)] discovery_step_frame [OF f_discovery(4), THEN conjunct1])
next
  case (f_inside i ev t')
  from f_inside(1) have w: "wo_sys (tf_world t) = t'" by simp
  show ?thesis unfolding fixed_parts_def w
    by (simp only: discovery_database [OF f_inside(4)] discovery_step_frame [OF f_inside(4), THEN conjunct1])
qed (simp_all add: fixed_parts_def)

text \<open>A step that does not touch the worker's event.\<close>

lemma account_same:
  assumes "account_ok E L c0 s i" and "tf_sent t i = tf_sent s i" and "tf_given t i = tf_given s i"
    and "pending (tf_at t i) = pending (tf_at s i)" and "before_discovery (tf_at t i) = before_discovery (tf_at s i)"
    and "sy_calls (wo_sys (tf_world t)) i = sy_calls (wo_sys (tf_world s)) i"
  shows "account_ok E L c0 t i"
  using assms by (simp add: account_ok_def)

lemma account_kept:
  assumes "traffic_step E lev L s t" and "traffic_inv E L c0 s"
  shows "account_ok E L c0 t j"
proof -
  have A: "account_ok E L c0 s j" using assms(2) by (simp add: traffic_inv_def)
  note same = account_same [OF A]
  from assms(1) show ?thesis
  proof cases
    case (f_main w)
    then show ?thesis using process_main_frame(4) [OF f_main(2)] by (intro same) simp_all
  next
    case (f_read i a)
    let ?w = "tf_world s"
    have "ds_worker (wo_dev ?w i) = W_loop" using f_read assms(2) by (auto simp: traffic_inv_def places_ok_def)
    then have "i < length (wo_list ?w)"
      using assms(2) by (auto simp: traffic_inv_def process_inv_def device_ok_def ds_init_def)
    then have e: "thread_emit E (L i) (wo_list ?w ! i) a = thread_emit E (L i) (co_deviceList c0 ! i) a"
      using assms(2) by (intro thread_emit_fixed) (simp add: traffic_inv_def)
    show ?thesis
    proof (cases "j = i")
      case True
      with thread_emit_cases [of E "L i" "co_deviceList c0 ! i" a] A f_read show ?thesis
        by (auto simp: account_ok_def translated_def e)
    qed (use f_read in \<open>auto intro!: same\<close>)
  next
    case (f_no_discovery i ev)
    then have "co_db_vscp_daemon c0 = None"
      using assms(2) by (simp add: traffic_inv_def fixed_parts_def world_start_def sys_init_def)
    with A f_no_discovery show ?thesis by (cases "j = i") (auto simp: account_ok_def)
  next
    case (f_discovery i ev t')
    with discovery_calls(1,3) [OF f_discovery(4)] A show ?thesis by (cases "j = i") (auto simp: account_ok_def)
  next
    case (f_inside i ev t')
    with discovery_calls(1,2) [OF f_inside(4)] show ?thesis
      by (intro same; cases "j = i") simp_all
  next
    case (f_return i ev)
    with A show ?thesis by (cases "j = i") (auto simp: account_ok_def)
  next
    case (f_send i ev)
    with A show ?thesis by (cases "j = i") (auto simp: account_ok_def)
  next
    case (f_test i)
    then show ?thesis by (intro same; cases "j = i") simp_all
  qed (auto intro!: same simp: set_ctl_def)
qed

lemma traffic_inv_kept:
  assumes "traffic_inv E L c0 s" and "traffic_step E lev L s t"
  shows "traffic_inv E L c0 t"
proof -
  have i: "process_inv (tf_world s)" "places_ok s" using assms(1) by (simp_all add: traffic_inv_def)
  have "process_inv (tf_world t)" using traffic_process [OF assms(2) i] inv_process i(1) by metis
  with places_kept [OF assms(2) i(2)] fixed_kept [OF assms(2)] account_kept [OF assms(2,1)] assms(1)
  show ?thesis by (simp add: traffic_inv_def)
qed

lemma traffic_inv_start:
  assumes "all_idle c0"
  shows "traffic_inv E L c0 (traffic_start c0)"
  using start_process_inv [OF assms]
  by (simp add: traffic_inv_def traffic_start_def places_ok_def account_ok_def translated_def)
     (simp add: world_start_def sys_init_def)

interpretation tp: simulation "\<lambda>s. all_idle c0 \<and> s = traffic_start c0" "traffic_inv E L c0" "traffic_step E lev L"
    tf_world "process_step E lev"
  for E lev L c0
proof unfold_locales
  fix s t assume "traffic_inv E L c0 s" "traffic_step E lev L s t"
  then show "process_step E lev (tf_world s) (tf_world t) \<or> tf_world t = tf_world s"
    by (auto simp: traffic_inv_def dest: traffic_process)
qed (auto intro: traffic_inv_start traffic_inv_kept)

abbreviation traffic_run where
  "traffic_run E lev L \<equiv> (traffic_step E lev L)\<^sup>*\<^sup>*"

lemma traffic_view:
  assumes "all_idle c0" and "traffic_run E lev L (traffic_start c0) s"
  shows "traffic_inv E L c0 s" and "process_run E lev (world_start c0) (tf_world s)"
  using tp.part_run [of c0 "traffic_start c0" E lev L s] assms by (simp_all add: traffic_start_def)

subsection \<open>What is delivered\<close>

lemma pending_short: "length (pending l) \<le> 1"
  by (cases l) simp_all

lemma out_of_loop: "traffic_inv E L c0 s \<Longrightarrow> ds_worker (wo_dev (tf_world s) i) \<noteq> W_loop \<Longrightarrow> tf_at s i = L_test"
  by (auto simp: traffic_inv_def places_ok_def)

lemma settled:
  assumes "traffic_inv E L c0 s" and "ds_worker (wo_dev (tf_world s) i) \<noteq> W_loop"
  shows "tf_sent s i = translated E L c0 i (tf_given s i)"
proof -
  have "tf_at s i = L_test" by (rule out_of_loop [OF assms])
  moreover have "account_ok E L c0 s i" using assms(1) by (simp add: traffic_inv_def)
  ultimately show ?thesis by (simp add: account_ok_def)
qed

text \<open>C4: Nothing is lost between the drivers and the broker, whatever the threads do: at every moment the
  client of each device has been handed the translations of what the driver has given, in that order,
  up to at most one event, which the worker carries; when the worker is not in its loop, and so when
  the control object is deleted and after it, it has been handed all of them.\<close>

theorem process_delivers:
  assumes "all_idle c0" and "traffic_run E lev L (traffic_start c0) s"
  shows "(\<forall>i. \<exists>rest. translated E L c0 i (tf_given s i) = tf_sent s i @ rest \<and> length rest \<le> 1 \<and>
            (ds_worker (wo_dev (tf_world s) i) \<noteq> W_loop \<longrightarrow> rest = [])) \<and>
         (wo_main (tf_world s) = At_delete \<or> ended (tf_world s) \<longrightarrow>
            (\<forall>i. tf_sent s i = translated E L c0 i (tf_given s i)))"
proof -
  note inv = traffic_view(1) [OF assms]
  have "\<exists>rest. translated E L c0 i (tf_given s i) = tf_sent s i @ rest \<and> length rest \<le> 1 \<and>
          (ds_worker (wo_dev (tf_world s) i) \<noteq> W_loop \<longrightarrow> rest = [])" for i
  proof (intro exI conjI)
    have "account_ok E L c0 s i" using inv by (simp add: traffic_inv_def)
    then show "translated E L c0 i (tf_given s i) = tf_sent s i @ pending (tf_at s i)" by (simp add: account_ok_def)
    show "ds_worker (wo_dev (tf_world s) i) \<noteq> W_loop \<longrightarrow> pending (tf_at s i) = []"
      using out_of_loop [OF inv] by simp
  qed (rule pending_short)
  moreover have "tf_sent s i = translated E L c0 i (tf_given s i)"
    if "wo_main (tf_world s) = At_delete \<or> ended (tf_world s)" for i
    using quiet_at_end(1) [of "tf_world s" i] that inv by (intro settled [OF inv]) (auto simp: traffic_inv_def)
  ultimately show ?thesis by blast
qed

lemma before_stop_iters [simp]: "before_stop (map Iter as @ [Stop]) = as"
  by (rule before_stop_append)

text \<open>C5: The interleaved work loop and \<open>deviceThread\<close>: when a worker has left its loop, whatever all
  the other threads have done meanwhile, its client has been handed exactly the events that the
  function \<open>deviceThread\<close> hands to it when it runs alone, on the messages the driver has given.\<close>

theorem interleaved_matches_thread:
  assumes "all_idle c0" and "traffic_run E lev L (traffic_start c0) s" and "i < length (co_deviceList c0)"
    and "ds_worker (wo_dev (tf_world s) i) \<noteq> W_loop" and "exit_spec E (L i) (co_deviceList c0 ! i) c = X_Done"
  shows "\<exists>th'. deviceThread E (L i) (map Iter (tf_given s i) @ [Stop])
             \<lparr>th_dev = co_deviceList c0 ! i, th_ctl = c, th_trace = []\<rparr> = Some (X_Done, th') \<and>
           di_sent (th_dev th') = di_sent (co_deviceList c0 ! i) @ tf_sent s i"
proof -
  let ?th = "\<lparr>th_dev = co_deviceList c0 ! i, th_ctl = c, th_trace = []\<rparr>"
  have "map_option fst (deviceThread E (L i) (map Iter (tf_given s i) @ [Stop]) ?th) = Some X_Done"
    using deviceThread_exit [of E "L i" "map Iter (tf_given s i) @ [Stop]" ?th] assms(5) by simp
  then obtain th' where th': "deviceThread E (L i) (map Iter (tf_given s i) @ [Stop]) ?th = Some (X_Done, th')"
    by auto
  have "\<not> di_bQuit (co_deviceList c0 ! i)" using assms(1,3) by (simp add: all_idle_def)
  with deviceThread_output [OF th'] settled [OF traffic_view(1) [OF assms(1,2)] assms(4)] th'
  show ?thesis by (simp add: translated_def)
qed

subsection \<open>Discovery comes first\<close>

lemma serial_known:
  assumes "\<forall>db sql. fst (en_exec E db sql)" and "co_db_vscp_daemon c0 \<noteq> None" and "(i, ev, now) \<in> set calls"
  shows "co_map_discoveryGuidToName (serial E c0 calls) (event_key (en_guid E) ev) \<noteq> None"
proof -
  have one: "co_db_vscp_daemon (discovery (en_guid E) (en_json E) (en_mqtt E) (en_render E) (en_exec E) a now' (Some e)) \<noteq> None \<and>
      co_map_discoveryGuidToName (discovery (en_guid E) (en_json E) (en_mqtt E) (en_render E) (en_exec E) a now' (Some e))
        (event_key (en_guid E) e) \<noteq> None \<and>
      (\<forall>k. co_map_discoveryGuidToName a k \<noteq> None \<longrightarrow> co_map_discoveryGuidToName
         (discovery (en_guid E) (en_json E) (en_mqtt E) (en_render E) (en_exec E) a now' (Some e)) k \<noteq> None)"
    if d: "co_db_vscp_daemon a \<noteq> None" for a e now'
  proof (cases "co_map_discoveryGuidToName a (event_key (en_guid E) e) = None")
    case True
    obtain db where db: "co_db_vscp_daemon a = Some db" using d by blast
    obtain db' where "en_exec E db (discovery_sql now' (event_key (en_guid E) e)) = (True, db')"
      using assms(1) by (metis prod.collapse)
    from decided_stored [OF True db, where x = "en_exec E", OF this, of "en_json E" "en_mqtt E" "en_render E"]
    show ?thesis by (auto simp: disc_view_def)
  qed (use d in \<open>simp add: decided_known\<close>)
  have "co_db_vscp_daemon (serial E c0 calls) \<noteq> None \<and>
      (\<forall>(i, ev, now)\<in>set calls. co_map_discoveryGuidToName (serial E c0 calls) (event_key (en_guid E) ev) \<noteq> None)"
  proof (induction calls rule: rev_induct)
    case Nil
    then show ?case using assms(2) by (simp add: serial_def)
  next
    case (snoc x calls)
    obtain j e n where x: "x = (j, e, n)" by (cases x)
    with snoc one [of "serial E c0 calls" n e] show ?case by (fastforce simp: serial_snoc)
  qed
  with assms(3) show ?thesis by fastforce
qed

lemma ahead_map:
  "ahead E a c pc \<Longrightarrow> co_map_discoveryGuidToName c = co_map_discoveryGuidToName a"
  by (auto simp: ahead_def disc_view_def Let_def split: disc_pc.splits)

lemma sent_decided:
  assumes "traffic_inv E L c0 s" and "sys_inv E c0 (wo_sys (tf_world s))" and "co_db_vscp_daemon c0 \<noteq> None"
  shows "\<exists>rest. map (fst \<circ> snd) (filter (\<lambda>x. fst x = i) (sy_done (wo_sys (tf_world s)))) = tf_sent s i @ rest"
proof -
  let ?y = "wo_sys (tf_world s)"
  let ?done = "map (fst \<circ> snd) (filter (\<lambda>x. fst x = i) (sy_done ?y))"
  have calls: "sy_calls ?y i = ?done @ open_call (sy_pc ?y i)" using assms(2) by (simp add: sys_inv_def)
  have "account_ok E L c0 s i" using assms(1) by (simp add: traffic_inv_def)
  with assms(3) have e: "?done @ open_call (sy_pc ?y i) @ before_discovery (tf_at s i) = tf_sent s i @ pending (tf_at s i)"
    by (simp add: account_ok_def calls)
  have idle: "sy_pc ?y i = D_idle" if "\<forall>ev. tf_at s i \<noteq> L_inside ev"
    using assms(1) that by (auto simp: traffic_inv_def places_ok_def)
  have open1: "open_call (sy_pc ?y i) = [] \<or> (\<exists>ev. open_call (sy_pc ?y i) = [ev])"
    by (cases "sy_pc ?y i") simp_all
  show ?thesis
  proof (cases "tf_at s i")
    case (L_inside ev)
    with e open1 show ?thesis by auto
  qed (use e idle in auto)
qed

text \<open>C6: Discovery comes before delivery. While the database is open, at every moment of every
  interleaving the events handed to a client were first taken through \<open>discovery\<close>, by the worker of
  that device and in the same order, so that their calls are decided; and if the database accepts
  every row, the node of each of them is known, and so announced, before its event reaches the broker.\<close>

theorem discovered_before_sent:
  assumes "all_idle c0" and "traffic_run E lev L (traffic_start c0) s" and "co_db_vscp_daemon c0 \<noteq> None"
  shows "(\<exists>rest. map (fst \<circ> snd) (filter (\<lambda>x. fst x = i) (sy_done (wo_sys (tf_world s)))) = tf_sent s i @ rest) \<and>
         ((\<forall>db sql. fst (en_exec E db sql)) \<longrightarrow>
            (\<forall>ev\<in>set (tf_sent s i).
               co_map_discoveryGuidToName (wo_ctl (tf_world s)) (event_key (en_guid E) ev) \<noteq> None))"
proof -
  let ?y = "wo_sys (tf_world s)"
  note inv = traffic_view [OF assms(1,2)]
  have y: "sys_inv E c0 ?y" by (rule sys_inv_reachable [OF process_view(2) [OF assms(1) inv(2)]])
  obtain rest where rest: "map (fst \<circ> snd) (filter (\<lambda>x. fst x = i) (sy_done ?y)) = tf_sent s i @ rest"
    using sent_decided [OF inv(1) y assms(3)] by blast
  moreover have "co_map_discoveryGuidToName (sy_ctl ?y) (event_key (en_guid E) ev) \<noteq> None"
    if "\<forall>db sql. fst (en_exec E db sql)" "ev \<in> set (tf_sent s i)" for ev
  proof -
    from that(2) have "ev \<in> set (map (fst \<circ> snd) (filter (\<lambda>x. fst x = i) (sy_done ?y)))" unfolding rest by simp
    then obtain now where "(i, ev, now) \<in> set (sy_done ?y)" by auto
    from serial_known [OF that(1) assms(3) this] y ahead_map show ?thesis unfolding sys_inv_def by metis
  qed
  ultimately show ?thesis by blast
qed

subsection \<open>No event is stuck\<close>

abbreviation with_sys where
  "with_sys y s \<equiv> set_world ((tf_world s)\<lparr>wo_sys := y\<rparr>) s"

lemma with_sys_same [simp]: "set_world (tf_world s) s = s" "set_world v (set_world w s) = set_world v s"
  by (simp_all add: set_world_def)

definition calls_left :: "('g, 'm, 'j, 'c, 'db) traffic \<Rightarrow> nat" where
  "calls_left s = (\<Sum>j<length (wo_list (tf_world s)). disc_left (sy_pc (wo_sys (tf_world s)) j))"

lemma loop_in_list:
  assumes "traffic_inv E L c0 s" and "tf_at s j \<noteq> L_test"
  shows "j < length (wo_list (tf_world s))"
proof -
  have "ds_worker (wo_dev (tf_world s) j) = W_loop" using assms by (auto simp: traffic_inv_def places_ok_def)
  then show ?thesis using assms(1) by (auto simp: traffic_inv_def process_inv_def device_ok_def ds_init_def)
qed

lemma call_progress:
  assumes "all_idle c0" and "traffic_run E lev L (traffic_start c0) s" and "sy_pc (wo_sys (tf_world s)) i \<noteq> D_idle"
  shows "\<exists>y. traffic_step E lev L s (with_sys y s) \<and> calls_left (with_sys y s) < calls_left s \<and>
           co_deviceList (sy_ctl y) = wo_list (tf_world s)"
proof -
  let ?w = "tf_world s"
  note inv = traffic_view [OF assms(1,2)]
  from call_step [OF process_view(2) [OF assms(1) inv(2)] assms(3)] obtain j y where j:
    "sy_pc (wo_sys ?w) j \<noteq> D_idle" "discovery_step E j (wo_sys ?w) y" "disc_left (sy_pc y j) < disc_left (sy_pc (wo_sys ?w) j)"
    by blast
  obtain ev where ev: "tf_at s j = L_inside ev" using inv(1) j(1) by (auto simp: traffic_inv_def places_ok_def)
  then have n: "j < length (wo_list ?w)" using inv(1) by (intro loop_in_list) simp_all
  note fr = discovery_step_frame [OF j(2)]
  have "(\<Sum>k<length (wo_list ?w). disc_left (sy_pc y k)) < (\<Sum>k<length (wo_list ?w). disc_left (sy_pc (wo_sys ?w) k))"
  proof (rule sum_strict_mono_ex1)
    have "disc_left (sy_pc y k) \<le> disc_left (sy_pc (wo_sys ?w) k)" for k using fr j(3) by (cases "k = j") simp_all
    then show "\<forall>k\<in>{..<length (wo_list ?w)}. disc_left (sy_pc y k) \<le> disc_left (sy_pc (wo_sys ?w) k)" by blast
  qed (use j(3) n in auto)
  then have "calls_left (with_sys y s) < calls_left s" using fr by (simp add: calls_left_def)
  with f_inside [OF ev j(1,2), of lev L] fr show ?thesis by blast
qed

lemma call_returns:
  assumes "all_idle c0" and "traffic_run E lev L (traffic_start c0) s"
  shows "\<exists>y. traffic_run E lev L s (with_sys y s) \<and> sy_pc y i = D_idle \<and> co_deviceList (sy_ctl y) = wo_list (tf_world s)"
  using assms(2)
proof (induction "calls_left s" arbitrary: s rule: less_induct)
  case less
  show ?case
  proof (cases "sy_pc (wo_sys (tf_world s)) i = D_idle")
    case True
    then show ?thesis by (intro exI [of _ "wo_sys (tf_world s)"]) simp
  next
    case False
    from call_progress [OF assms(1) less.prems False] obtain y where y: "traffic_step E lev L s (with_sys y s)"
      "calls_left (with_sys y s) < calls_left s" "co_deviceList (sy_ctl y) = wo_list (tf_world s)" by blast
    from less.hyps [OF y(2) rtranclp.rtrancl_into_rtrancl [OF less.prems y(1)]] obtain z where
      "traffic_run E lev L (with_sys y s) (with_sys z s)" "sy_pc z i = D_idle" "co_deviceList (sy_ctl z) = wo_list (tf_world s)"
      using y(3) by auto
    with y(1) show ?thesis by (meson converse_rtranclp_into_rtranclp)
  qed
qed

lemma stuck_free:
  assumes "all_idle c0" and "traffic_run E lev L (traffic_start c0) s" and "pending (tf_at s i) = [ev]"
  shows "\<exists>t. traffic_run E lev L s t \<and> tf_sent t i = tf_sent s i @ [ev] \<and> tf_at t i = L_test \<and>
           tf_given t = tf_given s \<and> wo_main (tf_world t) = wo_main (tf_world s) \<and>
           wo_dev (tf_world t) = wo_dev (tf_world s) \<and> wo_list (tf_world t) = wo_list (tf_world s)"
proof -
  have send: ?thesis if "traffic_run E lev L s u" "tf_at u i = L_send ev" "tf_sent u i = tf_sent s i"
    "tf_given u = tf_given s" "wo_main (tf_world u) = wo_main (tf_world s)"
    "wo_dev (tf_world u) = wo_dev (tf_world s)" "wo_list (tf_world u) = wo_list (tf_world s)" for u
    using that rtranclp.rtrancl_into_rtrancl [OF that(1) f_send [OF that(2)]] by (intro exI conjI) (assumption, simp_all)
  have inside: ?thesis if u: "traffic_run E lev L s u" "tf_at u i = L_inside ev" "tf_sent u i = tf_sent s i"
    "tf_given u = tf_given s" "wo_main (tf_world u) = wo_main (tf_world s)"
    "wo_dev (tf_world u) = wo_dev (tf_world s)" "wo_list (tf_world u) = wo_list (tf_world s)" for u
  proof -
    from call_returns [OF assms(1) rtranclp_trans [OF assms(2) u(1)]] obtain y where y:
      "traffic_run E lev L u (with_sys y u)" "sy_pc y i = D_idle" "co_deviceList (sy_ctl y) = wo_list (tf_world u)" by blast
    have "traffic_run E lev L u (loop_goto i (L_send ev) (with_sys y u))"
      by (rule rtranclp.rtrancl_into_rtrancl [OF y(1)], rule f_return) (use u(2) y(2) in simp_all)
    from rtranclp_trans [OF u(1) this] show ?thesis by (rule send) (use u y(3) in simp_all)
  qed
  show ?thesis
  proof (cases "tf_at s i")
    case (L_discover e)
    let ?y = "wo_sys (tf_world s)"
    from L_discover assms(3) have e: "e = ev" by simp
    show ?thesis
    proof (cases "co_db_vscp_daemon (wo_ctl (tf_world s)) = None")
      case True
      from f_no_discovery [OF L_discover True, of E lev L]
      have "traffic_run E lev L s (loop_goto i (L_send e) s)" by (rule r_into_rtranclp)
      then show ?thesis by (rule send) (simp_all add: e)
    next
      case False
      have idle: "sy_pc ?y i = D_idle"
        using traffic_view(1) [OF assms(1,2)] L_discover by (auto simp: traffic_inv_def places_ok_def)
      let ?z = "goto i (D_wait e) (?y\<lparr>sy_calls := (sy_calls ?y)(i := sy_calls ?y i @ [e])\<rparr>)"
      have "traffic_step E lev L s (loop_goto i (L_inside e) (with_sys ?z s))"
        by (rule f_discovery [OF L_discover idle d_call [OF idle False]]) simp
      then have "traffic_run E lev L s (loop_goto i (L_inside e) (with_sys ?z s))" by (rule r_into_rtranclp)
      then show ?thesis by (rule inside) (simp_all add: e)
    qed
  next
    case (L_inside e)
    with assms(3) show ?thesis by (intro inside) simp_all
  next
    case (L_send e)
    with assms(3) show ?thesis by (intro send) simp_all
  qed (use assms(3) in simp_all)
qed

text \<open>C13: No event is stuck: from every state of every interleaving in which a worker carries an event, the
  threads can go on so that its client is handed the event and the worker is back at the test of its
  loop, without another message being read, the main thread, the callbacks or any flag of a device
  moving: calls of \<open>discovery\<close> that are in the way come to their end.\<close>

theorem event_not_stuck:
  assumes "all_idle c0" and "traffic_run E lev L (traffic_start c0) s" and "pending (tf_at s i) = [ev]"
  shows "\<exists>t. traffic_run E lev L s t \<and> tf_sent t i = tf_sent s i @ [ev] \<and> tf_at t i = L_test \<and>
           tf_given t = tf_given s \<and> wo_main (tf_world t) = wo_main (tf_world s) \<and>
           wo_dev (tf_world t) = wo_dev (tf_world s) \<and> wo_list (tf_world t) = wo_list (tf_world s)"
  by (rule stuck_free [OF assms])

subsection \<open>After the request to quit\<close>

text \<open>How many messages the worker has read or is about to read.\<close>

definition reads :: "('g, 'm, 'j, 'c, 'db) traffic \<Rightarrow> nat \<Rightarrow> nat" where
  "reads s i = length (tf_given s i) + (if tf_at s i = L_read then 1 else 0)"

lemma after_read_not_read [simp]: "after_read evs \<noteq> L_read"
  by (cases evs) simp_all

lemma asked_step:
  assumes "traffic_step E lev L s t" and "ds_quit (wo_dev (tf_world s) i)"
  shows "ds_quit (wo_dev (tf_world t) i) \<and> reads t i = reads s i"
  using assms(1)
proof cases
  case (f_main w)
  from process_main_frame(2) [OF f_main(2) assms(2)] f_main(1) show ?thesis by (simp add: reads_def)
next
  case (f_callback j d)
  from callback_frame [OF f_callback(3)] f_callback(1) assms(2) show ?thesis by (auto simp: reads_def)
next
  case (f_worker j d)
  with worker_quit [OF f_worker(5)] assms(2) show ?thesis by (auto simp: reads_def)
next
  case (f_leave j d)
  with worker_quit [OF f_leave(7)] assms(2) show ?thesis by (auto simp: reads_def)
qed (use assms(2) in \<open>auto simp: reads_def\<close>)

lemma quit_run:
  assumes "traffic_run E lev L s t" and "ds_quit (wo_dev (tf_world s) i)"
  shows "ds_quit (wo_dev (tf_world t) i) \<and> reads t i = reads s i"
  using assms(1)
proof (induction rule: rtranclp_induct)
  case (step y z)
  with asked_step [OF step.hyps(2), of i] show ?case by simp
qed (use assms(2) in simp)

lemma given_run:
  assumes "traffic_run E lev L s t"
  shows "\<exists>more. tf_given t i = tf_given s i @ more"
  using assms
proof (induction rule: rtranclp_induct)
  case (step y z)
  from step.hyps(2) have "\<exists>more. tf_given z i = tf_given y i @ more" by cases auto
  with step.IH show ?case by auto
qed simp

lemma translated_append: "translated E L c0 i (xs @ ys) = translated E L c0 i xs @ translated E L c0 i ys"
  by (simp add: translated_def)

lemma translated_short: "length (translated E L c0 i xs) \<le> length xs"
proof (induction xs)
  case (Cons a xs)
  with thread_emit_cases [of E "L i" "co_deviceList c0 ! i" a] show ?case by (auto simp: translated_def)
qed (simp add: translated_def)

text \<open>C14: A worker that has been asked to quit reads at most one more message: if it is already past its
  test the driver is called once more, otherwise not at all, however long its loop is left to run and
  whatever the other threads do; and at most one more event reaches the broker.\<close>

theorem quit_bounds_reads:
  assumes "all_idle c0" and "traffic_run E lev L (traffic_start c0) s" and "ds_quit (wo_dev (tf_world s) i)"
    and "traffic_run E lev L s t"
  shows "\<exists>more. tf_given t i = tf_given s i @ more \<and> length more \<le> (if tf_at s i = L_read then 1 else 0) \<and>
           length (tf_sent t i) \<le> length (tf_sent s i) + 1"
proof -
  obtain more where m: "tf_given t i = tf_given s i @ more" using given_run [OF assms(4)] by blast
  have short: "length more \<le> (if tf_at s i = L_read then 1 else 0)"
    using quit_run [OF assms(4,3)] by (auto simp: reads_def m split: if_splits)
  have inv: "traffic_inv E L c0 s" "traffic_inv E L c0 t"
    using traffic_view(1) [OF assms(1)] rtranclp_trans [OF assms(2,4)] assms(2) by blast+
  have whole: "length (tf_sent u i) + length (pending (tf_at u i)) = length (translated E L c0 i (tf_given u i))"
    if "traffic_inv E L c0 u" for u
    using that by (simp add: traffic_inv_def account_ok_def flip: length_append)
  have "length (tf_sent t i) \<le> length (tf_sent s i) + length (pending (tf_at s i)) + length more"
    using whole [OF inv(1)] whole [OF inv(2)] translated_short [of E L c0 i more]
    by (simp add: m translated_append)
  moreover have "length (pending (tf_at s i)) + length more \<le> 1"
    using short pending_short [of "tf_at s i"] by (cases "tf_at s i") auto
  ultimately show ?thesis using m short by (intro exI [of _ more]) simp
qed

subsection \<open>A concrete run\<close>

text \<open>One driver; it has passed the test of its loop when the signal comes and the main thread asks it to
  quit.\<close>

lemma asked_process:
  "\<exists>s. traffic_run env0 (\<lambda>_. False) (\<lambda>_. lib0) (traffic_start one_driver) s \<and> tf_at s 0 = L_read \<and>
     tf_given s 0 = [] \<and> tf_sent s 0 = [] \<and> ds_quit (wo_dev (tf_world s) 0) \<and>
     ds_worker (wo_dev (tf_world s) 0) = W_loop \<and> map di_bThreadStarted (wo_list (tf_world s)) = [True]"
proof -
  let ?run = "traffic_run env0 (\<lambda>_. False) (\<lambda>_. lib0) (traffic_start one_driver)"
  let ?step = "traffic_step env0 (\<lambda>_. False) (\<lambda>_. lib0)"
  let ?sys = "(sys_init one_driver)\<lparr>sy_ctl := one_driver\<lparr>co_deviceList := [(dev0 1)\<lparr>di_bThreadStarted := True\<rparr>]\<rparr>\<rparr>"
  let ?s = "\<lambda>p h op ld li. \<lparr>ds_worker = p, ds_callback = C_idle, ds_stop = S_idle, ds_quit = False, ds_handle = h,
     ds_open = op, ds_loaded = ld, ds_mutex = None, ds_listening = li\<rparr>"
  let ?w = "\<lambda>s. \<lparr>tf_world = \<lparr>wo_main = At_start 1, wo_sys = ?sys, wo_dev = (\<lambda>_. ds_init)(0 := s)\<rparr>,
     tf_at = (\<lambda>_. L_test), tf_given = (\<lambda>_. []), tf_sent = (\<lambda>_. [])\<rparr> :: (u8 list, nat, jv, u8 list, nat) traffic"
  have dev: "di_bEnable (dev0 1)" by (simp add: dev0_def)
  have go: "?run t" if "?run v" "?step v t" for v t using that by (rule rtranclp.rtrancl_into_rtrancl)
  have work: "?run (?w t)" if "?run (?w s)" "worker_step False s t" "ds_worker s \<noteq> W_loop" for s t
    using go [OF that(1) f_worker [of 0 _ _ t]] that(2,3) by (simp add: set_state_def set_world_def sys_init_def)
  have "?step (traffic_start one_driver) (?w ds_init)"
    using f_main [OF p_start [OF _ _ refl, of _ 0 _ True], where s = "traffic_start one_driver"
        and E = env0 and lev = "\<lambda>_. False" and L = "\<lambda>_. lib0"] dev
    by (simp add: traffic_start_def world_start_def sys_init_def one_driver_def set_device_def set_ctl_def
        set_world_def startDriver_def fun_upd_idem)
  then have "?run (?w (?s W_load 0 None False False))" by (auto simp: ds_init_def)
  from work [OF this w_load] have "?run (?w (?s W_open 0 None True False))" by simp
  from work [OF this w_open [where h = 7]] have "?run (?w (?s W_connect 7 (Some 7) True False))" by simp
  from work [OF this w_connect] have loop: "?run (?w (?s W_loop 7 (Some 7) True True))" by simp
  let ?a = "loop_goto 0 L_read (?w (?s W_loop 7 (Some 7) True True))"
  have a: "?run ?a" by (rule go [OF loop f_test]) simp_all
  let ?b = "set_world ((tf_world ?a)\<lparr>wo_main := At_test\<rparr>) ?a"
  have b: "?run ?b" by (rule go [OF a f_main], rule p_started [of _ 1]) simp_all
  let ?c = "set_world (set_ctl ((wo_ctl (tf_world ?b))\<lparr>co_bQuit := True\<rparr>) (tf_world ?b)) ?b"
  have c: "?run ?c" by (rule go [OF b f_signal]) (simp add: ended_def)
  let ?d = "set_world ((tf_world ?c)\<lparr>wo_main := At_stop 0 0\<rparr>) ?c"
  have d: "?run ?d" by (rule go [OF c f_main], rule p_leave) simp_all
  have "\<exists>e. ?step ?d e \<and> tf_at e = tf_at ?d \<and> tf_given e = tf_given ?d \<and> tf_sent e = tf_sent ?d \<and>
      wo_dev (tf_world e) = (wo_dev (tf_world ?d))(0 := ask (wo_dev (tf_world ?d) 0)) \<and>
      map di_bThreadStarted (wo_list (tf_world e)) = [True]"
    by (intro exI conjI, rule f_main, rule p_ask [OF _ _ refl, of _ 0 0]) (simp_all add: dev)
  with go [OF d] show ?thesis by (fastforce simp: ask_def)
qed

abbreviation run0 where
  "run0 \<equiv> traffic_run env0 (\<lambda>_. False) (\<lambda>_. lib0)"

lemma emit0: "\<exists>ev. thread_emit env0 lib0 (dev0 1) (rx0 [7]) = [ev] \<and> ev_pdata ev = [7]"
  by (simp add: thread_emit_def driver_consts lib_simps has_proc_def l1_blocking_emit_def
      rx0_def l1_blocking_event_def outgoing_def)

text \<open>Then the driver gives a message.\<close>

lemma given_process:
  "\<exists>s ev. run0 (traffic_start one_driver) s \<and> pending (tf_at s 0) = [ev] \<and> ev_pdata ev = [7] \<and>
     tf_given s 0 = [rx0 [7]] \<and> tf_sent s 0 = [] \<and> ds_quit (wo_dev (tf_world s) 0) \<and>
     ds_worker (wo_dev (tf_world s) 0) = W_loop \<and> map di_bThreadStarted (wo_list (tf_world s)) = [True]"
proof -
  obtain s where s: "run0 (traffic_start one_driver) s" "tf_at s 0 = L_read" "tf_given s 0 = []"
    "tf_sent s 0 = []" "ds_quit (wo_dev (tf_world s) 0)" "ds_worker (wo_dev (tf_world s) 0) = W_loop"
    "map di_bThreadStarted (wo_list (tf_world s)) = [True]"
    using asked_process by (elim exE conjE) (rule that)
  note inv = traffic_view(1) [OF one_driver_idle s(1)]
  have "0 < length (wo_list (tf_world s))" using inv s(2) by (intro loop_in_list) simp_all
  then have "thread_emit env0 lib0 (wo_list (tf_world s) ! 0) a = thread_emit env0 lib0 (dev0 1) a" for a
    using thread_emit_fixed [of "tf_world s" one_driver 0 env0 lib0 a] inv by (simp add: traffic_inv_def one_driver_def)
  with emit0 obtain ev where ev: "thread_emit env0 lib0 (wo_list (tf_world s) ! 0) (rx0 [7]) = [ev]" "ev_pdata ev = [7]"
    by auto
  let ?t = "loop_goto 0 (after_read [ev]) (s\<lparr>tf_given := (tf_given s)(0 := tf_given s 0 @ [rx0 [7]])\<rparr>)"
  have "run0 (traffic_start one_driver) ?t"
    using rtranclp.rtrancl_into_rtrancl [OF s(1) f_read [OF s(2), of env0 "\<lambda>_. False" "\<lambda>_. lib0" "rx0 [7]"]]
    unfolding ev(1) .
  moreover have "pending (tf_at ?t 0) = [ev]" "tf_given ?t 0 = [rx0 [7]]" "tf_sent ?t 0 = []"
    "tf_world ?t = tf_world s" using s(3,4) by (simp_all add: loop_goto_def)
  ultimately show ?thesis using ev(2) s(5-7) by (intro exI [of _ ?t] exI [of _ ev]) (simp only:)
qed

text \<open>And its event is handed on; the worker leaves its loop.\<close>

lemma sent_process:
  "\<exists>s t ev. run0 (traffic_start one_driver) s \<and> tf_given s 0 = [rx0 [7]] \<and> tf_sent s 0 = [ev] \<and> ev_pdata ev = [7] \<and>
     run0 s t \<and> tf_given t 0 = [rx0 [7]] \<and> tf_sent t 0 = [ev] \<and> ds_worker (wo_dev (tf_world t) 0) \<noteq> W_loop"
proof -
  obtain s ev where s: "run0 (traffic_start one_driver) s" "pending (tf_at s 0) = [ev]" "ev_pdata ev = [7]"
    "tf_given s 0 = [rx0 [7]]" "tf_sent s 0 = []" "ds_quit (wo_dev (tf_world s) 0)"
    "ds_worker (wo_dev (tf_world s) 0) = W_loop" "map di_bThreadStarted (wo_list (tf_world s)) = [True]"
    using given_process by (elim exE conjE) (rule that)
  obtain u where u: "run0 s u" "tf_sent u 0 = [ev]" "tf_at u 0 = L_test" "tf_given u 0 = [rx0 [7]]"
    "ds_worker (wo_dev (tf_world u) 0) = W_loop" "ds_quit (wo_dev (tf_world u) 0)"
    "map di_bThreadStarted (wo_list (tf_world u)) = [True]"
  proof -
    from stuck_free [OF one_driver_idle s(1,2)] obtain u where "run0 s u" "tf_sent u 0 = tf_sent s 0 @ [ev]"
      "tf_at u 0 = L_test" "tf_given u = tf_given s" "wo_dev (tf_world u) = wo_dev (tf_world s)"
      "wo_list (tf_world u) = wo_list (tf_world s)" by blast
    with s(4-8) that [of u] show thesis by (simp only: append_Nil)
  qed
  have "0 < length (wo_list (tf_world u)) \<and> di_bThreadStarted (wo_list (tf_world u) ! 0)"
    using u(7) by (cases "wo_list (tf_world u)") auto
  then have l: "0 < length (wo_list (tf_world u))" "di_bThreadStarted (wo_list (tf_world u) ! 0)" by simp_all
  let ?d = "(wo_dev (tf_world u) 0)\<lparr>ds_worker := W_disconnect, ds_quit := True\<rparr>"
  let ?t = "set_world (set_state 0 ?d (tf_world u)) u"
  have "traffic_step env0 (\<lambda>_. False) (\<lambda>_. lib0) u ?t"
    by (rule f_leave [OF l u(5,3,6)]) (rule w_leave_loop [OF u(5,6)])
  then have "run0 u ?t" by (rule r_into_rtranclp)
  moreover have "run0 (traffic_start one_driver) u" using s(1) u(1) by (rule rtranclp_trans)
  ultimately show ?thesis using s(3) u(2,4)
    by (intro exI [of _ u] exI [of _ ?t] exI [of _ ev]) simp
qed

theorem process_delivers_witness:
  "\<exists>s ev. run0 (traffic_start one_driver) s \<and> tf_sent s 0 = [ev] \<and> ev_pdata ev = [7] \<and>
     translated env0 (\<lambda>_. lib0) one_driver 0 [rx0 [7]] = [ev]"
proof -
  obtain s t ev where s: "run0 (traffic_start one_driver) s" "tf_given s 0 = [rx0 [7]]" "tf_sent s 0 = [ev]" "ev_pdata ev = [7]"
    "run0 s t" "tf_given t 0 = [rx0 [7]]" "tf_sent t 0 = [ev]" "ds_worker (wo_dev (tf_world t) 0) \<noteq> W_loop"
    using sent_process by (elim exE conjE) (rule that)
  have r: "run0 (traffic_start one_driver) t" using s(1,5) by (rule rtranclp_trans)
  from process_delivers [OF one_driver_idle r] s(6-8) have "translated env0 (\<lambda>_. lib0) one_driver 0 [rx0 [7]] = [ev]"
    by fastforce
  with r s(4,7) show ?thesis by blast
qed

theorem interleaved_matches_thread_witness:
  "\<exists>th'. deviceThread env0 lib0 [Iter (rx0 [7]), Stop] \<lparr>th_dev = dev0 1, th_ctl = ctl0, th_trace = []\<rparr>
           = Some (X_Done, th') \<and> map ev_pdata (di_sent (th_dev th')) = [[7]]"
proof -
  obtain s t ev where s: "run0 (traffic_start one_driver) s" "tf_given s 0 = [rx0 [7]]" "tf_sent s 0 = [ev]" "ev_pdata ev = [7]"
    "run0 s t" "tf_given t 0 = [rx0 [7]]" "tf_sent t 0 = [ev]" "ds_worker (wo_dev (tf_world t) 0) \<noteq> W_loop"
    using sent_process by (elim exE conjE) (rule that)
  have r: "run0 (traffic_start one_driver) t" using s(1,5) by (rule rtranclp_trans)
  have d: "0 < length (co_deviceList one_driver)" "co_deviceList one_driver ! 0 = dev0 1" by (simp_all add: one_driver_def)
  have "exit_spec env0 lib0 (co_deviceList one_driver ! 0) ctl0 = X_Done" unfolding d(2) by (rule exit_spec0) simp
  from interleaved_matches_thread [OF one_driver_idle r d(1) s(8) this] s(4,6,7) show ?thesis
    by (auto simp: d(2) lib_simps)
qed

theorem discovered_before_sent_witness:
  "\<exists>s ev. run0 (traffic_start one_driver) s \<and> tf_sent s 0 = [ev] \<and>
     co_map_discoveryGuidToName (wo_ctl (tf_world s)) (event_key guid0 ev) \<noteq> None"
proof -
  obtain s t ev where s: "run0 (traffic_start one_driver) s" "tf_given s 0 = [rx0 [7]]" "tf_sent s 0 = [ev]" "ev_pdata ev = [7]"
    "run0 s t" "tf_given t 0 = [rx0 [7]]" "tf_sent t 0 = [ev]" "ds_worker (wo_dev (tf_world t) 0) \<noteq> W_loop"
    using sent_process by (elim exE conjE) (rule that)
  have "co_db_vscp_daemon one_driver \<noteq> None" by (simp add: one_driver_def lib_simps)
  moreover have "\<forall>db sql. fst (en_exec env0 db sql)" by (simp add: env0_def)
  ultimately have "co_map_discoveryGuidToName (wo_ctl (tf_world s)) (event_key (en_guid env0) ev) \<noteq> None"
    using discovered_before_sent [OF one_driver_idle s(1), of 0] s(3) by auto
  with s(1,3) show ?thesis by (simp only: env0_sel) blast
qed

theorem event_not_stuck_witness:
  "\<exists>s t ev. pending (tf_at s 0) = [ev] \<and> run0 s t \<and> tf_sent t 0 = [ev] \<and> ev_pdata ev = [7] \<and>
     tf_at t 0 = L_test"
proof -
  obtain s ev where s: "run0 (traffic_start one_driver) s" "pending (tf_at s 0) = [ev]" "ev_pdata ev = [7]"
    "tf_given s 0 = [rx0 [7]]" "tf_sent s 0 = []" "ds_quit (wo_dev (tf_world s) 0)"
    "ds_worker (wo_dev (tf_world s) 0) = W_loop" "map di_bThreadStarted (wo_list (tf_world s)) = [True]"
    using given_process by (elim exE conjE) (rule that)
  from event_not_stuck [OF one_driver_idle s(1,2)] obtain t where "run0 s t" "tf_sent t 0 = tf_sent s 0 @ [ev]"
    "tf_at t 0 = L_test" by blast
  with s(2,3,5) show ?thesis by (intro exI [of _ s] exI [of _ t] exI [of _ ev]) simp
qed

theorem quit_bounds_reads_witness:
  "\<exists>s t. tf_at s 0 = L_read \<and> ds_quit (wo_dev (tf_world s) 0) \<and> run0 s t \<and> tf_given t 0 = [rx0 [7]] \<and>
     length (tf_sent t 0) \<le> 1"
proof -
  obtain s where s: "run0 (traffic_start one_driver) s" "tf_at s 0 = L_read" "tf_given s 0 = []"
    "tf_sent s 0 = []" "ds_quit (wo_dev (tf_world s) 0)" "ds_worker (wo_dev (tf_world s) 0) = W_loop"
    "map di_bThreadStarted (wo_list (tf_world s)) = [True]"
    using asked_process by (elim exE conjE) (rule that)
  from f_read [OF s(2), of env0 "\<lambda>_. False" "\<lambda>_. lib0" "rx0 [7]"] s(3)
  obtain t where t: "run0 s t" "tf_given t 0 = [rx0 [7]]" by (auto dest: r_into_rtranclp)
  from quit_bounds_reads [OF one_driver_idle s(1,5) t(1)] s(4) have "length (tf_sent t 0) \<le> 1" by auto
  with s(2,5) t show ?thesis by blast
qed

end
