(* ===== verification/WindowsClock.thy ===== *)
theory WindowsClock
  imports StartupCorrect "HOL-Library.Signed_Division" Complex_Main
begin

text \<open>
  The clock of the main loop on Windows (\<open>getFILETIMEoffset\<close>, \<open>clock_gettime\<close> and \<open>usleep\<close> of
  \<open>controlobject.cpp\<close>): 64-bit counters, a quotient of two \<open>double\<close> numbers, and a \<open>long\<close> of 32 bits
  for the seconds; and what that makes of the heartbeats of \<open>run\<close>.
\<close>

subsection \<open>Numbers of type double\<close>

text \<open>A \<open>double\<close> is a real number with 53 significant bits; an operation rounds its exact result to the
  nearest such number, to the even one of two. The numbers here are far from the limits of the
  exponent.\<close>

definition nearest_even :: "real \<Rightarrow> int" where
  "nearest_even y =
     (let f = \<lfloor>y\<rfloor>; r = y - of_int f
      in if r < 1 / 2 \<or> r = 1 / 2 \<and> even f then f else f + 1)"

definition double_of :: "real \<Rightarrow> real" where
  "double_of x =
     (if x = 0 then 0
      else (let s = 2 powr (of_int \<lfloor>log 2 \<bar>x\<bar>\<rfloor> - 52) in s * of_int (nearest_even (x / s))))"

text \<open>The conversion to an integer drops the fraction.\<close>

definition truncate_double :: "real \<Rightarrow> int" where
  "truncate_double x = (if x \<ge> 0 then \<lfloor>x\<rfloor> else \<lceil>x\<rceil>)"

subsection \<open>The clock\<close>

record systemtime =
  wYear :: nat
  wMonth :: nat
  wDay :: nat
  wHour :: nat
  wMinute :: nat
  wSecond :: nat
  wMilliseconds :: nat

text \<open>What the operating system answers: the frequency of the counter if it has one, its value when the
  clock is set up and now, the system time as high and low double word, and the conversion of a date
  to such a pair.\<close>

record win_os =
  wn_frequency :: "u64 option"
  wn_first :: u64
  wn_counter :: u64
  wn_filetime :: "u32 \<times> u32"
  wn_toFileTime :: "systemtime \<Rightarrow> u32 \<times> u32"

text \<open>The static variables of \<open>clock_gettime\<close>.\<close>

record win_clock =
  wc_initialized :: bool
  wc_usePerformanceCounter :: bool
  wc_offset :: u64
  wc_frequencyToMicroseconds :: real

definition clock_static :: win_clock where
  "clock_static = \<lparr>wc_initialized = False, wc_usePerformanceCounter = False, wc_offset = 0,
                   wc_frequencyToMicroseconds = 0\<rparr>"

definition quad_part :: "u32 \<times> u32 \<Rightarrow> u64" where
  "quad_part f = push_bit 32 (ucast (fst f)) OR ucast (snd f)"

definition getFILETIMEoffset :: "(systemtime \<Rightarrow> u32 \<times> u32) \<Rightarrow> u64" where
  "getFILETIMEoffset toFileTime =
     quad_part (toFileTime \<lparr>wYear = 1970, wMonth = 1, wDay = 1, wHour = 0, wMinute = 0, wSecond = 0,
                            wMilliseconds = 0\<rparr>)"

definition clock_init :: "win_os \<Rightarrow> win_clock \<Rightarrow> win_clock" where
  "clock_init W c =
     (if wc_initialized c then c
      else case wn_frequency W of
             Some f \<Rightarrow> c\<lparr>wc_initialized := True, wc_usePerformanceCounter := True,
                          wc_offset := wn_first W,
                          wc_frequencyToMicroseconds := double_of (double_of (of_int (sint f)) / 1000000)\<rparr>
           | None \<Rightarrow> c\<lparr>wc_initialized := True, wc_usePerformanceCounter := False,
                        wc_offset := getFILETIMEoffset (wn_toFileTime W),
                        wc_frequencyToMicroseconds := 10\<rparr>)"

text \<open>Seconds and microseconds. The cast to \<open>long\<close>, of 32 bits, binds closer than the division. A
  quotient that is not finite or does not fit into 64 bits has no conversion: \<open>None\<close>.\<close>

definition clock_gettime :: "win_os \<Rightarrow> win_clock \<Rightarrow> ((u32 \<times> u32) \<times> win_clock) option" where
  "clock_gettime W c0 =
     (let c = clock_init W c0;
          t = (if wc_usePerformanceCounter c then wn_counter W else quad_part (wn_filetime W));
          elapsed = t - wc_offset c;
          microseconds = double_of (double_of (of_int (sint elapsed)) / wc_frequencyToMicroseconds c);
          us = truncate_double microseconds;
          q = (word_of_int us :: u64);
          tv_sec = word_of_int (sint (ucast q :: u32) sdiv 1000000);
          tv_usec = word_of_int (sint q smod 1000000)
      in if wc_frequencyToMicroseconds c = 0 \<or> us < - (2 ^ 63) \<or> 2 ^ 63 \<le> us then None
         else Some ((tv_sec, tv_usec), c))"

text \<open>\<open>usleep\<close> sets a timer: the due time, negative for a relative one, in units of 100 nanoseconds.\<close>

definition usleep_due :: "u64 \<Rightarrow> u64" where
  "usleep_due usec = - (10 * usec)"

subsection \<open>Rounding\<close>

lemma nearest_even_ge: "of_int a \<le> y \<Longrightarrow> a \<le> nearest_even y"
  unfolding nearest_even_def Let_def by (auto simp: le_floor_iff intro: order_trans [of _ "\<lfloor>y\<rfloor>"])

lemma nearest_even_le: "y \<le> of_int b \<Longrightarrow> nearest_even y \<le> b"
proof -
  assume y: "y \<le> of_int b"
  show ?thesis
  proof (cases "\<lfloor>y\<rfloor> = b")
    case True
    with y have "y = of_int b" using of_int_floor_le [of y] by linarith
    then show ?thesis by (simp add: nearest_even_def Let_def)
  next
    case False
    from y have "\<lfloor>y\<rfloor> \<le> b" by linarith
    with False have "\<lfloor>y\<rfloor> + 1 \<le> b" by linarith
    then show ?thesis unfolding nearest_even_def Let_def by auto
  qed
qed

text \<open>Rounding does not pass an integer, below \<open>2 ^ 53\<close>.\<close>

lemma double_between:
  assumes "of_int m \<le> x" and "x \<le> of_int n" and "\<bar>x\<bar> < 2 ^ 53"
  shows "of_int m \<le> double_of x" and "double_of x \<le> of_int n"
proof -
  let ?e = "\<lfloor>log 2 \<bar>x\<bar>\<rfloor>"
  let ?s = "2 powr (of_int ?e - 52) :: real"
  have "of_int m \<le> double_of x \<and> double_of x \<le> of_int n"
  proof (cases "x = 0")
    case False
    then have "log 2 \<bar>x\<bar> < 53" using assms(3) by (simp add: log_less_iff powr_realpow)
    then have e: "?e \<le> 52" by linarith
    define k where "k = nat (52 - ?e)"
    have "of_int ?e - 52 = - real k" using e by (simp add: k_def)
    then have s: "?s = 1 / 2 ^ k" by (simp add: powr_minus_divide powr_realpow)
    then have d: "double_of x = of_int (nearest_even (x * 2 ^ k)) / 2 ^ k"
      using False by (simp add: double_of_def Let_def)
    have "of_int (m * 2 ^ k) \<le> x * 2 ^ k" "x * 2 ^ k \<le> of_int (n * 2 ^ k)"
      using assms(1,2) by simp_all
    from nearest_even_ge [OF this(1)] nearest_even_le [OF this(2)] have "real_of_int (m * 2 ^ k) \<le> of_int (nearest_even (x * 2 ^ k))"
      "real_of_int (nearest_even (x * 2 ^ k)) \<le> of_int (n * 2 ^ k)" by (simp_all only: of_int_le_iff)
    then show ?thesis by (simp add: d pos_le_divide_eq pos_divide_le_eq)
  qed (use assms in \<open>simp add: double_of_def\<close>)
  then show "of_int m \<le> double_of x" and "double_of x \<le> of_int n" by simp_all
qed

lemma double_of_int: "\<bar>z\<bar> < 2 ^ 53 \<Longrightarrow> double_of (of_int z) = of_int z"
  using double_between [of z "of_int z" z] by (simp add: order_antisym flip: of_int_abs)

subsection \<open>Readings\<close>

lemma sint_u32: "- (2 ^ 31) \<le> sint (w :: u32)" "sint (w :: u32) < 2 ^ 31"
  using sint_ge [of w] sint_lt [of w] by simp_all

lemma sint_back: "- (2 ^ 31) \<le> z \<Longrightarrow> z < 2 ^ 31 \<Longrightarrow> sint (word_of_int z :: u32) = z"
  "- (2 ^ 63) \<le> z \<Longrightarrow> z < 2 ^ 63 \<Longrightarrow> sint (word_of_int z :: u64) = z"
  by (simp_all add: signed_of_int signed_take_bit_int_eq_self)

lemma sint_wrapped: "2 ^ 31 \<le> z \<Longrightarrow> z < 2 ^ 32 \<Longrightarrow> sint (word_of_int z :: u32) = z - 2 ^ 32"
  by (simp add: int_word_sint mod_pos_geq)

lemma low_half: "(ucast (word_of_int z :: u64) :: u32) = word_of_int z"
  by (rule bit_word_eqI) (auto simp: bit_simps)

lemma million_bounds: "- 2147 \<le> sint (w :: u32) sdiv 1000000" "sint (w :: u32) sdiv 1000000 \<le> 2147"
proof -
  have "\<bar>sint w\<bar> \<le> 2147483648" using sint_u32 [of w] by simp
  then have "\<bar>sint w\<bar> div 1000000 \<le> 2147" by linarith
  moreover have "\<bar>sint w sdiv 1000000\<bar> \<le> \<bar>sint w\<bar> div 1000000"
    by (simp add: signed_divide_int_def abs_mult sgn_if)
  ultimately show "- 2147 \<le> sint w sdiv 1000000" "sint w sdiv 1000000 \<le> 2147" by linarith+
qed

text \<open>Seconds the clock can show.\<close>

definition windows_reading :: "int \<Rightarrow> bool" where
  "windows_reading x \<longleftrightarrow> (\<exists>W c0 sec usec c. clock_gettime W c0 = Some ((sec, usec), c) \<and> x = sint sec)"

lemma reading_bounds:
  assumes "windows_reading x"
  shows "- 2147 \<le> x" and "x \<le> 2147"
proof -
  from assms obtain w :: u32 where "x = sint (word_of_int (sint w sdiv 1000000) :: u32)"
    by (auto simp: windows_reading_def clock_gettime_def Let_def split: if_splits)
  moreover note million_bounds [of w]
  ultimately show "- 2147 \<le> x" and "x \<le> 2147" by (simp_all add: sint_back)
qed

text \<open>The quotient, for a clock with a whole number of ticks in a microsecond.\<close>

lemma quotient_bounds:
  fixes n k :: int
  assumes "0 \<le> n" and "n < 2 ^ 53" and "0 < k"
  defines "us \<equiv> truncate_double (double_of (double_of (of_int n) / of_int k))"
  shows "n div k \<le> us" and "us \<le> (n + k - 1) div k" and "0 \<le> us" and "us < 2 ^ 53"
proof -
  let ?x = "real_of_int n / of_int k"
  have d: "double_of (of_int n) = of_int n" using assms(1,2) by (intro double_of_int) simp
  have lo: "of_int (n div k) \<le> ?x" using assms(3) by (simp add: real_of_int_div4)
  have "n \<le> (n + k - 1) div k * k"
    using assms(3) minus_mod_eq_div_mult [of "n + k - 1" k] pos_mod_bound [of k "n + k - 1"] by linarith
  then have "real_of_int n \<le> of_int ((n + k - 1) div k * k)" by (simp only: of_int_le_iff)
  then have hi: "?x \<le> of_int ((n + k - 1) div k)" using assms(3) by (simp add: pos_divide_le_eq)
  have "?x \<le> of_int n" using assms(1,3) by (simp add: divide_le_eq mult_le_cancel_left1)
  then have small: "\<bar>?x\<bar> < 2 ^ 53" using assms(1-3) of_int_less_iff [of n "2 ^ 53", where 'a = real] by simp
  note b = double_between [OF lo hi small]
  have "0 \<le> n div k" using assms(1,3) by (simp add: pos_imp_zdiv_nonneg_iff)
  with b(1) have "0 \<le> double_of ?x" by linarith
  with b show "n div k \<le> us" "us \<le> (n + k - 1) div k" "0 \<le> us"
    by (auto simp: us_def d truncate_double_def le_floor_iff floor_le_iff)
  have "(n + k - 1) div k \<le> n"
  proof (cases "n = 0")
    case True
    with assms(3) show ?thesis by simp
  next
    case False
    then have "0 \<le> (n - 1) * (k - 1)" using assms(1,3) by simp
    then have "n + k - 1 \<le> n * k" by (simp add: algebra_simps)
    from zdiv_mono1 [OF this assms(3)] show ?thesis using assms(3) by simp
  qed
  with \<open>us \<le> (n + k - 1) div k\<close> assms(2) show "us < 2 ^ 53" by linarith
qed

lemma clock_reading:
  fixes k :: int
  assumes "wc_initialized c" and "wc_frequencyToMicroseconds c = of_int k" and "0 < k"
    and "n = sint ((if wc_usePerformanceCounter c then wn_counter W else quad_part (wn_filetime W)) - wc_offset c)"
    and "0 \<le> n" and "n < 2 ^ 53"
  shows "\<exists>us sec usec. clock_gettime W c = Some ((sec, usec), c) \<and>
           n div k \<le> us \<and> us \<le> (n + k - 1) div k \<and> sint usec = us mod 1000000 \<and>
           (us < 2 ^ 31 \<longrightarrow> sint sec = us div 1000000) \<and>
           (2 ^ 31 \<le> us \<and> us < 2 ^ 32 \<longrightarrow> sint sec = - ((2 ^ 32 - us) div 1000000))"
proof -
  define us where "us = truncate_double (double_of (double_of (of_int n) / of_int k))"
  note b = quotient_bounds [OF assms(5,6,3), folded us_def]
  have c: "clock_init W c = c" using assms(1) by (simp add: clock_init_def)
  have q: "sint (word_of_int us :: u64) = us" using b(3,4) by (intro sint_back) simp_all
  let ?sec = "word_of_int (sint (word_of_int us :: u32) sdiv 1000000) :: u32"
  let ?usec = "word_of_int (us smod 1000000) :: u32"
  have "clock_gettime W c = Some ((?sec, ?usec), c)"
    unfolding clock_gettime_def Let_def c assms(2) assms(4) [symmetric] us_def [symmetric] low_half q
    using assms(3) b(3,4) by simp
  moreover have "us smod 1000000 = us mod 1000000" using b(3) by (simp add: smod_mod_positive)
  then have "sint ?usec = us mod 1000000" using pos_mod_bound [of 1000000 us] by (simp add: sint_back)
  moreover have "sint ?sec = sint (word_of_int us :: u32) sdiv 1000000"
    using million_bounds [of "word_of_int us"] by (simp add: sint_back)
  moreover have "sint (word_of_int us :: u32) = us" if "us < 2 ^ 31" using that b(3) by (simp add: sint_back)
  moreover have "us sdiv 1000000 = us div 1000000" using b(3) by (auto simp: signed_divide_int_def sgn_if)
  moreover have "(us - 2 ^ 32) sdiv 1000000 = - ((2 ^ 32 - us) div 1000000)" if "us < 2 ^ 32"
    using that by (simp add: signed_divide_int_def)
  ultimately show ?thesis using b(1,2) sint_wrapped [of us] by (intro exI [of _ us]) auto
qed

lemma clock_frequency:
  fixes k :: int
  assumes "case wn_frequency W of Some f \<Rightarrow> sint f = k * 1000000 \<and> k * 1000000 < 2 ^ 53 | None \<Rightarrow> k = 10" and "0 < k"
  shows "wc_initialized (clock_init W clock_static)"
    and "wc_frequencyToMicroseconds (clock_init W clock_static) = of_int k"
proof -
  have "double_of (double_of (of_int (k * 1000000)) / 1000000) = of_int k" if "k * 1000000 < 2 ^ 53"
    using that assms(2) double_of_int [of "k * 1000000"] double_of_int [of k] by simp
  moreover have "(signed f :: real) = of_int (k * 1000000)" if "sint f = k * 1000000" for f :: u64
    using that by (metis of_int_sint)
  ultimately show "wc_initialized (clock_init W clock_static)"
    "wc_frequencyToMicroseconds (clock_init W clock_static) = of_int k"
    using assms(1) by (auto simp: clock_init_def clock_static_def split: option.splits)
qed

text \<open>C28: The clock on Windows. On a machine whose counter has a whole number of ticks in a microsecond
  (or without a counter, where the system time has ten), a reading up to \<open>2 ^ 53\<close> ticks after the
  offset is exact to the microsecond, and its microseconds part is right; but the seconds are right
  only for \<open>2 ^ 31\<close> microseconds, some 35 minutes: the count is cut to 32 bits before it is divided, so
  after that the seconds are negative and run up to zero again.\<close>

theorem clock_gettime_windows:
  fixes k :: int
  assumes "case wn_frequency W0 of Some f \<Rightarrow> sint f = k * 1000000 \<and> k * 1000000 < 2 ^ 53 | None \<Rightarrow> k = 10"
    and "0 < k" and "c = clock_init W0 clock_static"
    and "n = sint ((if wc_usePerformanceCounter c then wn_counter W else quad_part (wn_filetime W)) - wc_offset c)"
    and "0 \<le> n" and "n < 2 ^ 53"
  shows "\<exists>us sec usec. clock_gettime W c = Some ((sec, usec), c) \<and>
           n div k \<le> us \<and> us \<le> (n + k - 1) div k \<and> sint usec = us mod 1000000 \<and>
           (us < 2 ^ 31 \<longrightarrow> sint sec = us div 1000000) \<and>
           (2 ^ 31 \<le> us \<and> us < 2 ^ 32 \<longrightarrow> sint sec = - ((2 ^ 32 - us) div 1000000))"
  using clock_frequency [OF assms(1,2)] assms(3) by (intro clock_reading assms(2,4-6)) simp_all

text \<open>A counter of 10 MHz that starts at zero, and its value.\<close>

definition win0 :: "u64 \<Rightarrow> win_os" where
  "win0 v = \<lparr>wn_frequency = Some 10000000, wn_first = 0, wn_counter = v, wn_filetime = (0, 0),
             wn_toFileTime = (\<lambda>d. (27111902, 3577643008))\<rparr>"

theorem clock_gettime_windows_witness:
  "\<exists>sec usec c. clock_gettime (win0 25000000010) (clock_init (win0 0) clock_static) = Some ((sec, usec), c) \<and>
     sint usec = 1 \<and> sint sec = - 1794"
proof -
  let ?c = "clock_init (win0 0) clock_static"
  have c: "wc_usePerformanceCounter ?c" "wc_offset ?c = 0" by (simp_all add: clock_init_def clock_static_def win0_def)
  have "25000000010 = sint ((if wc_usePerformanceCounter ?c then wn_counter (win0 25000000010)
      else quad_part (wn_filetime (win0 25000000010))) - wc_offset ?c)"
    by (simp add: c) (simp add: win0_def)
  from clock_gettime_windows [where ?W0.0 = "win0 0" and k = 10, OF _ _ refl this] show ?thesis
    by (auto simp: win0_def)
qed

subsection \<open>The heartbeats\<close>

text \<open>The time saved with the last heartbeat.\<close>

fun saved_beat :: "int \<Rightarrow> main_tick list \<Rightarrow> int" where
  "saved_beat old [] = old"
| "saved_beat old (t # ts) = saved_beat (if mt_now t - old > 60 then mt_saved t else old) ts"

lemma beats_append: "beats old (ts @ ts') = beats old ts @ beats (saved_beat old ts) ts'"
  by (induction ts arbitrary: old) simp_all

text \<open>C27: The heartbeats end on Windows. The seconds never show more than 2147, so once a heartbeat has
  been saved with a time of 2087 or later, that is, after some 35 minutes, the difference to it never
  exceeds 60 again: the daemon sends no further heartbeat, however long it runs.\<close>

theorem windows_heartbeat_ends:
  assumes "guid_laws (en_guid E)" and "caps_layout K" and "\<forall>t\<in>set (ts @ ts'). tick_ok K t"
    and "\<not> co_bQuit c" and "fst (mc_connect (en_mqtt E) (daemon_client (en_mqtt E) utc c))"
    and "\<forall>t\<in>set ts'. windows_reading (mt_now t)" and "2087 \<le> saved_beat (start - 60) ts"
  shows "\<exists>c1 c2. run E K fmt utc created libs work pos start (map Iter ts @ [Stop]) c = Some (RunReturns True c1) \<and>
           run E K fmt utc created libs work pos start (map Iter (ts @ ts') @ [Stop]) c = Some (RunReturns True c2) \<and>
           length (co_sent c2) = length (co_sent c1)"
proof -
  have "mt_now t \<le> saved_beat (start - 60) ts + 60" if "t \<in> set ts'" for t
    using reading_bounds(2) [of "mt_now t"] assms(6,7) that by fastforce
  then have "beats (start - 60) (ts @ ts') = beats (start - 60) ts"
    using beats_none by (auto simp: beats_append)
  moreover from assms(3) have "\<forall>t\<in>set ts. tick_ok K t" by simp
  ultimately show ?thesis
    using run_with_stop [OF assms(1,2) _ assms(4,5), where rest = "[]"] assms(3) by metis
qed

lemma win0_reads:
  assumes "0 \<le> s" and "s < 2 ^ 32"
  shows "windows_reading (if s < 2 ^ 31 then s div 1000000 else - ((2 ^ 32 - s) div 1000000))"
proof -
  let ?c = "clock_init (win0 0) clock_static" and ?W = "win0 (word_of_int (10 * s))"
  have c: "wc_usePerformanceCounter ?c" "wc_offset ?c = 0" "wc_initialized ?c" "wc_frequencyToMicroseconds ?c = of_int 10"
    using clock_frequency [where W = "win0 0" and k = 10] by (simp_all add: clock_init_def clock_static_def win0_def)
  have n: "10 * s = sint ((if wc_usePerformanceCounter ?c then wn_counter ?W else quad_part (wn_filetime ?W)) - wc_offset ?c)"
    using sint_back(2) [of "10 * s"] assms by (simp only: c if_True diff_zero) (simp add: win0_def)
  have "0 < (10 :: int)" "0 \<le> 10 * s" "10 * s < 2 ^ 53" using assms by simp_all
  from clock_reading [OF c(3,4) this(1) n this(2,3)] obtain us sec usec where
    r: "clock_gettime ?W ?c = Some ((sec, usec), ?c)" "10 * s div 10 \<le> us" "us \<le> (10 * s + 10 - 1) div 10"
    "us < 2 ^ 31 \<longrightarrow> sint sec = us div 1000000"
    "2 ^ 31 \<le> us \<and> us < 2 ^ 32 \<longrightarrow> sint sec = - ((2 ^ 32 - us) div 1000000)" by blast
  from r(2,3) have "us = s" by linarith
  with r assms(2) show ?thesis unfolding windows_reading_def by (intro exI [of _ ?W] exI [of _ ?c] exI conjI) auto
qed

theorem windows_heartbeat_ends_witness:
  "\<exists>c1 c2. run env0 codes0 fmt0 None (\<lambda>_. True) (\<lambda>_. lib0) (\<lambda>d. d) (\<lambda>_. (1, 0)) 0
             (map Iter [tick0 2100] @ [Stop]) (CControlObject_new guid0 mqtt0) = Some (RunReturns True c1) \<and>
           run env0 codes0 fmt0 None (\<lambda>_. True) (\<lambda>_. lib0) (\<lambda>d. d) (\<lambda>_. (1, 0)) 0
             (map Iter ([tick0 2100] @ [tick0 2147, tick0 (- 2147)]) @ [Stop]) (CControlObject_new guid0 mqtt0)
             = Some (RunReturns True c2) \<and>
           length (co_sent c2) = length (co_sent c1)"
proof -
  let ?c = "CControlObject_new guid0 mqtt0 :: (_, _, jv, nat) control"
  have "windows_reading 2147" "windows_reading (- 2147)"
    using win0_reads [of 2147000000] win0_reads [of "2 ^ 31"] by simp_all
  moreover have "\<not> co_bQuit ?c" by (simp add: CControlObject_new_def Let_def)
  moreover have "tick_ok codes0 (tick0 n)" "caps_layout codes0" for n
    by (simp_all add: tick0_ok codes0_layout)
  ultimately show ?thesis
    using guid0_laws
    by (intro windows_heartbeat_ends) (simp_all add: lib_simps tick0_def)
qed

subsection \<open>The date of the offset, and sleeping\<close>

text \<open>With the documented conversion of the first of January 1970 the offset is the start of the Unix
  clock.\<close>

lemma getFILETIMEoffset_epoch:
  "(\<And>d. wYear d = 1970 \<Longrightarrow> toFileTime d = (27111902, 3577643008)) \<Longrightarrow>
     uint (getFILETIMEoffset toFileTime) = 116444736000000000"
  by (simp add: getFILETIMEoffset_def quad_part_def)

lemma usleep_due_spec:
  assumes "0 \<le> sint u" and "sint u < 2 ^ 59"
  shows "sint (usleep_due u) = - (10 * sint u)"
proof -
  have "usleep_due u = word_of_int (- (10 * sint u))" by (simp add: usleep_due_def)
  then have "sint (usleep_due u) = sint (word_of_int (- (10 * sint u)) :: u64)" by (rule arg_cong)
  also have "\<dots> = - (10 * sint u)" using assms by (intro sint_back) simp_all
  finally show ?thesis .
qed

end
