(* ===== verification/SequentialLife.thy ===== *)
theory SequentialLife
  imports Lifecycle
begin

text \<open>
  The two models of the worker compared: \<open>deviceThread\<close> as one function from its start to its return
  (\<open>DeviceThread\<close>), and the worker as the steps other threads can observe (\<open>Lifecycle\<close>). Every return
  of the function is a life of the interleaved device, with the same calls.
\<close>

text \<open>The device as the function sees it: no callback is running, the mutex is free and nobody has asked it
  to quit; the calls so far are those of the function, and from the open call on its handle is the open
  one.\<close>

definition follows :: "bool \<Rightarrow> worker_pc \<Rightarrow> ('g, 'm, 'j, 'db) thread \<Rightarrow> bool" where
  "follows l2 pc th \<longleftrightarrow>
     (\<exists>s. device_life l2 (th_trace th) s \<and> ds_worker s = pc \<and> ds_callback s = C_idle \<and> ds_mutex s = None \<and>
        ds_stop s = S_idle \<and> \<not> ds_quit s \<and>
        (pc \<in> {W_connect, W_loop} \<longrightarrow> ds_handle s = di_openHandle (th_dev th)))"

definition ended_life :: "bool \<Rightarrow> ('g, 'm, 'j, 'db) thread \<Rightarrow> bool" where
  "ended_life l2 th \<longleftrightarrow> (\<exists>s. device_life l2 (th_trace th) s \<and> ds_worker s = W_end)"

abbreviation ended_exit :: "bool \<Rightarrow> thread_exit \<Rightarrow> ('g, 'm, 'j, 'db) thread \<Rightarrow> bool" where
  "ended_exit l2 x th \<equiv> ended_life l2 th"

lemma follows_cong:
  "th_trace th' = th_trace th \<Longrightarrow> di_openHandle (th_dev th') = di_openHandle (th_dev th) \<Longrightarrow>
     follows l2 pc th \<Longrightarrow> follows l2 pc th'"
  by (simp add: follows_def)

lemma follows_step:
  assumes "follows l2 pc th"
    and "\<And>s. ds_worker s = pc \<Longrightarrow> ds_mutex s = None \<Longrightarrow> \<not> ds_quit s \<Longrightarrow>
       (pc \<in> {W_connect, W_loop} \<longrightarrow> ds_handle s = di_openHandle (th_dev th)) \<Longrightarrow>
       \<exists>t. worker_does l2 s es t \<and> ds_worker t = pc' \<and> ds_callback t = ds_callback s \<and> ds_mutex t = None \<and>
          ds_stop t = ds_stop s \<and> \<not> ds_quit t \<and>
          (pc' \<in> {W_connect, W_loop} \<longrightarrow> ds_handle t = di_openHandle (th_dev th'))"
    and "th_trace th' = th_trace th @ es"
  shows "follows l2 pc' th'"
proof -
  from assms(1) obtain s where s: "device_life l2 (th_trace th) s" "ds_worker s = pc" "ds_callback s = C_idle"
    "ds_mutex s = None" "ds_stop s = S_idle" "\<not> ds_quit s"
    "pc \<in> {W_connect, W_loop} \<longrightarrow> ds_handle s = di_openHandle (th_dev th)" by (auto simp: follows_def)
  from assms(2) [OF s(2,4,6,7)] obtain t where "worker_does l2 s es t" "ds_worker t = pc'"
    "ds_callback t = ds_callback s" "ds_mutex t = None" "ds_stop t = ds_stop s" "\<not> ds_quit t"
    "pc' \<in> {W_connect, W_loop} \<longrightarrow> ds_handle t = di_openHandle (th_dev th')" by blast
  with life_worker [OF s(1), of es t] s(3,5) assms(3) show ?thesis
    unfolding follows_def by (intro exI [of _ t]) simp
qed

lemma follows_end:
  assumes "follows l2 pc th"
    and "\<And>s. ds_worker s = pc \<Longrightarrow>
       (pc \<in> {W_connect, W_loop} \<longrightarrow> ds_handle s = di_openHandle (th_dev th)) \<Longrightarrow>
       \<exists>t. worker_does l2 s es t \<and> ds_worker t = W_end"
    and "th_trace th' = th_trace th @ es"
  shows "ended_life l2 th'"
  using assms unfolding follows_def ended_life_def by (metis life_worker)

subsection \<open>The phases\<close>

lemma start_follows: "th_trace th = [] \<Longrightarrow> follows l2 W_load th"
  unfolding follows_def using life_begins [of l2] by (intro exI [of _ ds_init]) (simp add: ds_init_def)

lemma library_follows: "phase_ok (follows l2 W_load) (load_library L) (follows l2 W_open) (ended_exit l2)"
proof (rule phase_okI)
  fix th r assume th: "follows l2 W_load th" and r: "load_library L th = Some r"
  show "ends (follows l2 W_open) (ended_exit l2) r"
  proof (cases "dl_opens L")
    case True
    have "follows l2 W_open (note_event Dlopen th)"
      by (rule follows_step [OF th, where es = "[Dlopen]"]) (fastforce intro: does_load)+
    with True r show ?thesis by (auto simp: load_library_def)
  next
    case False
    have "ended_life l2 th"
      by (rule follows_end [OF th, where es = "[]"]) (fastforce intro: does_no_library)+
    with False r show ?thesis by (auto simp: load_library_def)
  qed
qed

text \<open>A missing symbol.\<close>

lemma no_symbol_ended:
  assumes "follows l2 W_open th" and "l2 \<longrightarrow> still" and "th_trace th' = th_trace th @ (if still then [] else [Dlclose])"
  shows "ended_life l2 th'"
  by (rule follows_end [OF assms(1) _ assms(3)]) (use does_no_symbol [OF _ assms(2)] in fastforce)

lemma set_proc_follows: "follows l2 W_open th \<Longrightarrow> follows l2 W_open (on_dev (set_proc p a) th)"
  by (erule follows_cong [rotated 2]) (simp_all add: set_proc_def)

lemma load_required_follows:
  "phase_ok (follows False W_open) (load_required L ps) (follows False W_open) (ended_exit False)"
proof (induction ps)
  case (Cons p ps)
  show ?case
  proof (rule phase_okI, goal_cases)
    case (1 th r)
    note th = 1(1) and r = 1(2)
    obtain addr bad where s: "dl_sym L p = (addr, bad)" by (cases "dl_sym L p")
    let ?th = "on_dev (set_proc p addr) th"
    note f = set_proc_follows [OF th, of p addr]
    show ?case
    proof (cases bad)
      case True
      have "ended_life False ?th"
        by (rule no_symbol_ended [OF f, of True]) simp_all
      moreover have "ended_life False (note_event Dlclose ?th)"
        by (rule no_symbol_ended [OF f, of False]) simp_all
      ultimately show ?thesis using r s True by (auto simp: Let_def split: if_splits)
    next
      case False
      with r s have "load_required L ps ?th = Some r" by simp
      from phase_okD [OF Cons.IH this f] show ?thesis .
    qed
  qed
qed (simp add: phase_ok_def)

lemma load_optional_follows: "phase_ok (follows l2 W_open) (load_optional L ps) (follows l2 W_open) X"
proof (induction ps)
  case (Cons p ps)
  show ?case
    by (rule phase_okI)
       (auto split: prod.splits if_splits intro: phase_okD [OF Cons.IH] set_proc_follows)
qed (simp add: phase_ok_def)

lemma load_l2_follows:
  "phase_ok (follows True W_open) (load_l2 L ps) (follows True W_open) (ended_exit True)"
proof (induction ps)
  case (Cons p ps)
  show ?case
  proof (rule phase_okI, goal_cases)
    case (1 th r)
    note th = 1(1) and r = 1(2)
    let ?th = "on_dev (set_proc p (fst (dl_sym L p))) th"
    note f = set_proc_follows [OF th, of p "fst (dl_sym L p)"]
    have "ended_life True ?th" by (rule no_symbol_ended [OF f, of True]) simp_all
    moreover have "ends (follows True W_open) (ended_exit True) r" if "load_l2 L ps ?th = Some r"
      by (rule phase_okD [OF Cons.IH that f])
    ultimately show ?case
      using r by (auto simp: Let_def split: if_splits)
  qed
qed (simp add: phase_ok_def)

text \<open>Opening and connecting.\<close>

lemma open_follows:
  "phase_ok (follows False W_open) (l1_open L) (follows False W_connect) (ended_exit False)"
  "phase_ok (follows True W_open) (l2_open E L) (follows True W_connect) (ended_exit True)"
proof -
  show "phase_ok (follows False W_open) (l1_open L) (follows False W_connect) (ended_exit False)"
  proof (rule phase_okI, goal_cases)
    case (1 th r)
    let ?h = "dl_CanalOpen L (c_str (di_strParameter (th_dev th))) (di_DeviceFlags (th_dev th))"
    let ?th = "note_event (OpenCall ?h (?h > 0)) (on_dev (\<lambda>d. d\<lparr>di_openHandle := ?h\<rparr>) th)"
    show ?case
    proof (cases "?h > 0")
      case True
      have "follows False W_connect ?th"
        by (rule follows_step [OF 1(1), where es = "[OpenCall ?h True]"])
           (use True does_open [of _ False ?h] in \<open>fastforce+\<close>)
      with True 1(2) show ?thesis by (auto simp: l1_open_def Let_def split: if_splits)
    next
      case False
      have "ended_life False (note_event Dlclose ?th)"
        by (rule follows_end [OF 1(1), where es = "[OpenCall ?h False, Dlclose]"])
           (use False does_open_fails [of _ False ?h] in \<open>fastforce+\<close>)
      with False 1(2) show ?thesis by (auto simp: l1_open_def Let_def split: if_splits)
    qed
  qed
  show "phase_ok (follows True W_open) (l2_open E L) (follows True W_connect) (ended_exit True)"
  proof (rule phase_okI, goal_cases)
    case (1 th r)
    let ?h = "dl_VSCPOpen L (c_str (di_strParameter (th_dev th))) (g_bytes (en_guid E) (di_guid (th_dev th)))"
    let ?th = "note_event (OpenCall ?h (?h \<noteq> 0)) (on_dev (\<lambda>d. d\<lparr>di_openHandle := ?h\<rparr>) th)"
    show ?case
    proof (cases "?h = 0")
      case False
      have "follows True W_connect ?th"
        by (rule follows_step [OF 1(1), where es = "[OpenCall ?h True]"])
           (use False does_open [of _ True ?h] in \<open>fastforce+\<close>)
      with False 1(2) show ?thesis by (auto simp: l2_open_def Let_def split: if_splits)
    next
      case True
      have "ended_life True (note_event Dlclose ?th)"
        by (rule follows_end [OF 1(1), where es = "[OpenCall 0 False, Dlclose]"])
           (use True does_open_fails [of _ True 0] in \<open>fastforce+\<close>)
      with True 1(2) show ?thesis by (auto simp: l2_open_def Let_def split: if_splits)
    qed
  qed
qed

lemma setup_follows: "phase_ok (follows l2 pc) (setup_client E) (follows l2 pc) X"
  by (auto simp: phase_ok_def setup_client_def intro: follows_cong)

text \<open>The level I thread reads the level between connecting and its loop; the step that connects stands for
  both, so the state after \<open>connect\<close> alone is described by its calls.\<close>

definition connected :: "('g, 'm, 'j, 'db) thread \<Rightarrow> bool" where
  "connected th \<longleftrightarrow>
     (\<exists>tr. th_trace th = tr @ [MqttConnect True] \<and> follows False W_connect (th\<lparr>th_trace := tr\<rparr>))"

lemma l1_connect_follows:
  "phase_ok (follows False W_connect) (l1_connect E) connected (ended_exit False)"
proof (rule phase_okI, goal_cases)
  case (1 th r)
  obtain ok m where m: "mc_connect (en_mqtt E) (di_mqttClient (th_dev th)) = (ok, m)" by fastforce
  let ?th = "note_event (MqttConnect ok) (on_dev (\<lambda>d. d\<lparr>di_mqttClient := m\<rparr>) th)"
  show ?case
  proof (cases ok)
    case True
    have "follows False W_connect (?th\<lparr>th_trace := th_trace th\<rparr>)"
      by (rule follows_cong [OF _ _ 1(1)]) simp_all
    then have "connected ?th" using True unfolding connected_def by (intro exI [of _ "th_trace th"]) simp
    with True 1(2) m show ?thesis by (auto simp: l1_connect_def)
  next
    case False
    have "ended_life False (note_event Dlclose ?th)"
      by (rule follows_end [OF 1(1), where es = "[MqttConnect False, Dlclose]"])
         (use False does_connect_fails_l1 [of _ False] in \<open>fastforce+\<close>)
    with False 1(2) m show ?thesis by (auto simp: l1_connect_def)
  qed
qed

lemma l1_level_follows: "phase_ok connected (l1_level L) (follows False W_loop) X"
proof (rule phase_okI, goal_cases)
  case (1 th r)
  then obtain tr where tr: "follows False W_connect (th\<lparr>th_trace := tr\<rparr>)" "th_trace th = tr @ [MqttConnect True]"
    by (auto simp: connected_def)
  let ?h = "di_openHandle (th_dev th)"
  let ?th = "note_event (DriverCall P_CanalGetLevel ?h)
    (on_dev (\<lambda>d. d\<lparr>di_driverLevel := ucast (dl_CanalGetLevel L ?h)\<rparr>) th)"
  have "follows False W_loop ?th"
    by (rule follows_step [OF tr(1), where es = "[MqttConnect True, DriverCall P_CanalGetLevel ?h]"])
       (use tr(2) does_connect [of _ False] in \<open>fastforce+\<close>)
  with 1(2) show ?case by (auto simp: l1_level_def Let_def)
qed

lemma l2_connect_follows:
  "phase_ok (follows True W_connect) (l2_connect E) (follows True W_loop) (ended_exit True)"
proof (rule phase_okI, goal_cases)
  case (1 th r)
  obtain ok m where m: "mc_connect (en_mqtt E) (di_mqttClient (th_dev th)) = (ok, m)" by fastforce
  let ?h = "di_openHandle (th_dev th)"
  let ?th = "note_event (MqttConnect ok) (on_dev (\<lambda>d. d\<lparr>di_mqttClient := m\<rparr>) th)"
  show ?case
  proof (cases ok)
    case True
    have "follows True W_loop ?th"
      by (rule follows_step [OF 1(1), where es = "[MqttConnect True]"])
         (use True does_connect [of _ True] in \<open>fastforce+\<close>)
    with True 1(2) m show ?thesis by (auto simp: l2_connect_def)
  next
    case False
    let ?closed = "note_event Dlclose (on_dev (\<lambda>d. d\<lparr>di_openHandle := 0\<rparr>) (note_event (CloseCall ?h) ?th))"
    have "ended_life True ?closed"
      by (rule follows_end [OF 1(1), where es = "[MqttConnect False, CloseCall ?h, Dlclose]"])
         (use False does_connect_fails_l2 [of _ True] in \<open>fastforce+\<close>)
    with False 1(2) m show ?thesis by (auto simp: l2_connect_def)
  qed
qed

text \<open>The work loops: every iteration is a step of the loop, with the calls it makes.\<close>

lemma iteration_follows:
  assumes "follows l2 W_loop th" and "ps \<in> set (loop_calls l2)"
    and "th_trace th' = th_trace th @ map (\<lambda>p. DriverCall p (di_openHandle (th_dev th))) ps"
    and "di_openHandle (th_dev th') = di_openHandle (th_dev th)"
  shows "follows l2 W_loop th'"
  by (rule follows_step [OF assms(1) _ assms(3)])
     (use does_iteration [OF _ _ assms(2)] assms(4) in \<open>metis insertCI\<close>)

lemma ask_quit_follows: "follows l2 pc th \<Longrightarrow> follows l2 pc (ask_quit th)"
  by (erule follows_cong [rotated 2]) (simp_all add: ask_quit_def)

lemma sent_frame:
  "th_trace (snd (CDeviceItem_sendEvent E now th (Some ev))) = th_trace th"
  "di_openHandle (th_dev (snd (CDeviceItem_sendEvent E now th (Some ev)))) = di_openHandle (th_dev th)"
  by (simp_all add: sendEvent_some)

lemma called_frame [simp]:
  "th_trace (driver_call p th) = th_trace th @ [DriverCall p (di_openHandle (th_dev th))]"
  "di_openHandle (th_dev (driver_call p th)) = di_openHandle (th_dev th)"
  by (simp_all add: driver_call_def)

lemma body_follows:
  "follows False W_loop th \<Longrightarrow> follows False W_loop (l1_blocking_body E a th)"
  "follows False W_loop th \<Longrightarrow> follows False W_loop (l1_polling_body E a th)"
  "follows True W_loop th \<Longrightarrow> follows True W_loop (l2_body E a th)"
proof -
  assume th: "follows False W_loop th"
  show "follows False W_loop (l1_blocking_body E a th)"
    by (rule iteration_follows [OF th, of "[P_CanalBlockingReceive]"])
       (auto simp: loop_calls_def l1_blocking_body_def Let_def sent_frame split: option.split)
  show "follows False W_loop (l1_polling_body E a th)"
  proof (cases "an_available a")
    case True
    show ?thesis
      by (rule iteration_follows [OF th, of "[P_CanalDataAvailable, P_CanalReceive]"])
         (use True in \<open>auto simp: loop_calls_def l1_polling_body_def Let_def sent_frame split: option.split\<close>)
  next
    case False
    show ?thesis
      by (rule iteration_follows [OF th, of "[P_CanalDataAvailable]"])
         (use False in \<open>auto simp: loop_calls_def l1_polling_body_def Let_def\<close>)
  qed
next
  assume th: "follows True W_loop th"
  show "follows True W_loop (l2_body E a th)"
    by (rule iteration_follows [OF th, of "[P_VSCPRead]"])
       (auto simp: loop_calls_def l2_body_def Let_def sent_frame split: option.split)
qed

lemma loop_follows:
  "phase_ok (follows False W_loop) (l1_loop E ticks) (follows False W_loop) X"
  "phase_ok (follows True W_loop) (loop_phase (l2_body E) ticks) (follows True W_loop) X"
proof -
  show "phase_ok (follows False W_loop) (l1_loop E ticks) (follows False W_loop) X"
    by (rule phase_okI, frule l1_loop_invariant [where P = "follows False W_loop"])
       (auto intro: body_follows ask_quit_follows)
  show "phase_ok (follows True W_loop) (loop_phase (l2_body E) ticks) (follows True W_loop) X"
    by (rule phase_okI, frule l2_loop_invariant [where P = "follows True W_loop"])
       (auto intro: body_follows ask_quit_follows)
qed

text \<open>The end: somebody has asked the worker to quit, and it closes under the free mutex.\<close>

lemma close_life_ends:
  assumes "device_life l2 tr s" and "ds_worker s = W_loop" and "ds_mutex s = None" and "ds_stop s = S_idle"
  shows "\<exists>t. device_life l2 (tr @ [MqttDisconnect, CloseCall (ds_handle s), Dlclose]) t \<and> ds_worker t = W_end"
proof -
  let ?quit = "s\<lparr>ds_stop := S_join, ds_quit := True\<rparr>"
  let ?left = "?quit\<lparr>ds_worker := W_disconnect, ds_quit := True\<rparr>"
  let ?lock = "?left\<lparr>ds_worker := W_lock\<rparr>"
  let ?close = "?lock\<lparr>ds_worker := W_close, ds_mutex := Some Worker\<rparr>"
  let ?unlock = "?close\<lparr>ds_worker := W_unlock, ds_open := None, ds_handle := 0\<rparr>"
  let ?unload = "?unlock\<lparr>ds_worker := W_dlclose, ds_mutex := None\<rparr>"
  have "device_life l2 tr ?quit" by (rule life_stop [OF assms(1) s_ask [OF assms(4)]])
  from life_worker [OF this does_leave_loop] assms(2) have "device_life l2 tr ?left" by simp
  from life_worker [OF this does_disconnect] have "device_life l2 (tr @ [MqttDisconnect]) ?lock" by simp
  from life_worker [OF this does_lock] assms(3) have "device_life l2 (tr @ [MqttDisconnect]) ?close" by simp
  from life_worker [OF this does_close]
  have "device_life l2 (tr @ [MqttDisconnect, CloseCall (ds_handle s)]) ?unlock" by simp
  from life_worker [OF this does_unlock]
  have "device_life l2 (tr @ [MqttDisconnect, CloseCall (ds_handle s)]) ?unload" by simp
  from life_worker [OF this does_dlclose]
  have "device_life l2 (tr @ [MqttDisconnect, CloseCall (ds_handle s), Dlclose])
     (?unload\<lparr>ds_worker := W_end, ds_loaded := False\<rparr>)" by simp
  then show ?thesis by (rule exI [of _ "?unload\<lparr>ds_worker := W_end, ds_loaded := False\<rparr>", OF conjI]) simp
qed

lemma close_follows: "phase_ok (follows l2 W_loop) (close_driver E) (ended_life l2) X"
proof (rule phase_okI, goal_cases)
  case (1 th r)
  then obtain s where s: "device_life l2 (th_trace th) s" "ds_worker s = W_loop" "ds_mutex s = None"
    "ds_stop s = S_idle" "ds_handle s = di_openHandle (th_dev th)" by (auto simp: follows_def)
  from close_life_ends [OF s(1-4)] 1(2) show ?case
    by (auto simp: close_driver_def Let_def ended_life_def ask_quit_def s(5))
qed

lemma bad_level_follows: "phase_ok (follows False W_open) bad_level Q (ended_exit False)"
  by (auto simp: phase_ok_def bad_level_def intro: no_symbol_ended [where still = True])

lemma phases_follow:
  "run_ok (follows (lvl = VSCP_DRIVER_LEVEL2) W_load) (thread_phases E L ticks lvl)
     (ended_exit (lvl = VSCP_DRIVER_LEVEL2))"
proof -
  consider (l1) "lvl = VSCP_DRIVER_LEVEL1" | (l2) "lvl = VSCP_DRIVER_LEVEL2"
    | (bad) "lvl \<noteq> VSCP_DRIVER_LEVEL1" "lvl \<noteq> VSCP_DRIVER_LEVEL2" by blast
  then show ?thesis
  proof cases
    case l1
    then have n: "(lvl = VSCP_DRIVER_LEVEL2) = False" using levels_differ by simp
    show ?thesis unfolding n unfolding l1 thread_phases_def
      by (simp, (rule run_ok_Cons, rule library_follows load_required_follows load_optional_follows open_follows
            setup_follows l1_connect_follows l1_level_follows loop_follows close_follows)+, rule run_ok_Nil)
  next
    case l2
    then have n: "(lvl = VSCP_DRIVER_LEVEL2) = True" by simp
    show ?thesis unfolding n unfolding l2 thread_phases_def
      by (simp add: levels_differ, (rule run_ok_Cons, rule library_follows load_l2_follows open_follows
            setup_follows l2_connect_follows loop_follows close_follows)+, rule run_ok_Nil)
  next
    case bad
    then have n: "(lvl = VSCP_DRIVER_LEVEL2) = False" by simp
    show ?thesis unfolding n using bad unfolding thread_phases_def
      by simp (rule run_ok_Cons [OF library_follows], rule run_ok_Cons [OF bad_level_follows], rule run_ok_Nil)
  qed
qed

subsection \<open>Every return of the function is a life of the device\<close>



end
