(* ===== verification/Spec2Isabelle.thy ===== *)
theory Spec2Isabelle
  imports CommandLine EndToEnd Teardown Platforms ClientLog ConfigMeaning MainSignals Process
    Delivery WindowsClock SequentialLife
begin

text \<open>
  The VSCP MQTT daemon (\<open>src/src\<close>): it loads drivers for VSCP hardware from dynamic libraries, runs
  one thread per driver, hands the events the drivers deliver to an MQTT broker and the events the
  broker delivers to the drivers, announces new nodes and sends heartbeats.

  \<^bold>\<open>Parts and theories.\<close> The order is that of the imports; a theory named \<open>...Correct\<close> holds the lemmas
  and properties of the definitions before it.

  \<^item> \<open>Prelude\<close>: the widths of the C++ integers, \<open>std::string\<close> searches, checked stores, first-match
    search, the collections of simplification rules.
  \<^item> \<open>Externals\<close>: the libraries that are not in the repository (\<open>cguid\<close>, \<open>vscpClientMqtt\<close>, the
    \<open>vscp_\<close> helpers, nlohmann json, mustache, mosquitto) as records of operations, with the laws
    the daemon relies on as predicates (\<open>guid_laws\<close>, \<open>json_laws\<close>, \<open>frame_laws\<close>, and \<open>sets_now\<close> for
    \<open>vscp_setEventExToNow\<close>, which is handed each event of the daemon whole). \<open>Instances\<close> gives
    concrete libraries that satisfy them; only witnesses use these.
  \<^item> \<open>DeviceItem\<close>, \<open>DeviceList\<close> (\<open>devicelist.cpp\<close>, \<open>devicelist.h\<close>): the record \<open>device\<close> is
    \<open>CDeviceItem\<close> with the atomic flags \<open>m_bQuit\<close>, \<open>m_bActive\<close>, the open handle, the method
    addresses and the MQTT client; \<open>di_sent\<close> is the history of events given to that client. The list
    is the deque, a pointer into it a position. The locales \<open>driver_control\<close> (start and stop) and
    \<open>driver_registry\<close> (add and find) are what the control object relies on.
  \<^item> \<open>ControlObject\<close> (\<open>controlobject.h\<close>, constructor, token tables and \<open>discovery\<close> of
    \<open>controlobject.cpp\<close>): the record \<open>control\<close>; \<open>co_published\<close> and \<open>co_sent\<close> are histories of what
    mosquitto and the daemon's own client were given. \<open>discovery_registry\<close> is the contract of
    \<open>discovery\<close>, whose section under \<open>m_mutex_discovery\<close> is one atomic step.
  \<^item> \<open>Mutex\<close>, \<open>DiscoveryThreads\<close>: the contract of a lock (\<open>mutex_protocol\<close>), and \<open>discovery\<close> taken
    apart into the statements between its lock and its unlock, with any number of device threads and
    the main thread interleaved over one control object.
  \<^item> \<open>Config\<close> (\<open>readConfiguration\<close>, \<open>readJSON\<close>, \<open>readEncryptionKey\<close>): sections as steps that go on,
    reject the configuration or throw; \<open>JsonUndefined\<close> is the read of a missing key from a constant
    object, which no handler catches.
  \<^item> \<open>Frames\<close>, \<open>WorkLoop\<close>, \<open>DeviceThread\<close> (\<open>devicethread.cpp\<close>, \<open>CDeviceItem::sendEvent\<close>): the event
    translations, the shape of the three work loops with the contract \<open>message_loop\<close>, and
    \<open>deviceThread\<close> as the list of its phases, each of which may end the function. \<open>th_trace\<close> is the
    history of calls into the dynamic library and the client.
  \<^item> \<open>Drivers\<close> (\<open>startDeviceWorkerThreads\<close>, \<open>stopDeviceWorkerThreads\<close>): \<open>pthread_join\<close> waits for the
    rest of the thread function from whatever phase the thread has reached.
  \<^item> \<open>Lifecycle\<close>: worker thread, event callback and \<open>stopDriver\<close> interleaved, as a step relation over
    the shared flag, the handle and the mutex of one device; every step is labelled with the calls it
    makes into the driver library and the client (\<open>worker_does\<close>, \<open>callback_does\<close>), and \<open>device_life\<close>
    collects them. \<open>SequentialLife\<close> compares it with \<open>deviceThread\<close>.
  \<^item> \<open>Heartbeat\<close> (\<open>periodicEvents\<close>, \<open>getMacAddress\<close>, \<open>getIPAddress\<close>), \<open>Init\<close> (\<open>init\<close>), \<open>Startup\<close>
    (\<open>init_mqtt\<close>, \<open>run\<close>, \<open>cleanup\<close>): buffers are byte lists, a store outside of one is \<open>None\<close>;
    the sections of \<open>init\<close> are steps on the process (control object, log sinks, user and group).
  \<^item> \<open>Platforms\<close>: \<open>getMacAddress\<close> on macOS and on Windows (\<open>GetAdapterInfo\<close>), and the GUID at start on each
    of the three platforms.
  \<^item> \<open>Daemon\<close> (\<open>mqttvscpd.cpp\<close>): options, \<open>daemonize\<close>, directories, pid file, signals, \<open>main\<close>; its result
    is how the program ends together with its actions on files. \<open>CommandLine\<close>: the option
    string, with the documented behaviour of \<open>getopt\<close> for any such string, the texts \<open>help\<close>, \<open>copyleft\<close>
    and \<open>-v\<close> write to standard error, and the console messages up to the start of the daemon, as the
    templates and arguments the logger is given. \<open>MainSignals\<close>: \<open>main\<close> from \<open>setupSignalHandlers\<close> to its end
    as a step relation with a signal possible between any two steps, and the global \<open>gpobj\<close> as it is
    at each of them.
  \<^item> \<open>Teardown\<close> (the constructors and destructors of \<open>CControlObject\<close>, \<open>CDeviceList\<close>, \<open>CDeviceItem\<close>): what
    is acquired and released, as lists of resources; the MQTT library, which nothing cleans up, is
    among those acquired. \<open>ClientLog\<close>: the five callbacks of the MQTT
    library, each of which may write one log message.
  \<^item> \<open>Simulation\<close>, \<open>Process\<close>: the whole process from the start of the drivers in \<open>run\<close> to
    \<open>delete gpobj\<close>, as one step relation over one control object: the main thread at its places
    (\<open>main_at\<close>), the worker and the callback of every device (the steps of \<open>Lifecycle\<close>), the calls
    of \<open>discovery\<close> (the steps of \<open>DiscoveryThreads\<close>) and signals. The locale \<open>simulation\<close> is what a
    part of such a system promises: its view of the whole is a run of its own.
  \<^item> \<open>Delivery\<close>: the same process with every iteration of a work loop taken apart (test, read,
    \<open>discovery\<close>, send) and the histories of what each driver has given and each client was handed; a
    further interpretation of \<open>simulation\<close> relates it to \<open>Process\<close>.
  \<^item> \<open>WindowsClock\<close>: \<open>clock_gettime\<close> and \<open>usleep\<close> on Windows, with \<open>double\<close> numbers as rounded reals and a
    \<open>long\<close> of 32 bits.

  \<^bold>\<open>What is shown.\<close> This theory puts the parts together: exit code 0 means a complete life, unless
  only the licence or the version was asked for or the process is the parent of the daemon, and a
  signal leads to it. \<open>ThreadCorrect\<close> and \<open>ThreadDelivery\<close>: the driver library is used by its protocol on
  every path of \<open>deviceThread\<close>, with the paths that leave something open named exactly; the thread
  returns once it is asked to quit; it delivers the translated events it received, all of them and in
  order. \<open>Lifecycle\<close>: no interleaving calls a closed driver or an unloaded library, a stop comes to its
  end, and the calls of every interleaved life are a run of the library's protocol, with one exception
  that is named: a level I worker that cannot connect. \<open>SequentialLife\<close>: every return of the function
  \<open>deviceThread\<close> is such a life, with the same calls. \<open>Drivers\<close>, \<open>StartupCorrect\<close>:
  starting and stopping all drivers, the times of the heartbeats, the state after \<open>run\<close>.
  \<open>ConfigCorrect\<close>, \<open>InitCorrect\<close>: what is accepted and rejected, which drivers come out of it,
  known nodes over a restart; \<open>ConfigSpec\<close>: the meaning of a driver list, duplicate names and MQTT
  blocks included, as a function the reader implements; \<open>ConfigMeaning\<close>: which configurations are
  accepted and every field of the control object as a function of the values in the configuration.
  \<open>HeartbeatCorrect\<close>: the bytes of the four periodic events.
  \<open>DaemonCorrect\<close>: options, directories, log sinks and the pid file. \<open>DiscoveryThreads\<close>: calls of
  \<open>discovery\<close> from several threads act one after the other in the order of every thread, at most one
  is in the section and the section is always left, a node is announced once whatever the
  interleaving, and what the other threads do to the control object does not show at a driver; so
  the sequential \<open>deviceThread\<close> and the reports in the schedule of \<open>run\<close> stand for the threads.
  \<open>EventTypes\<close>: every event that leaves has a complete GUID and the data its size states. \<open>EndToEnd\<close>:
  a driver that the configuration reader accepts delivers. \<open>CommandLine\<close>: what every command
  line of known options does, however it is written. \<open>Teardown\<close>: the end of \<open>main\<close> releases each
  resource but the MQTT library once, unless the client delivers after the stop. \<open>MainSignals\<close>: at which points of \<open>main\<close> a signal is
  taken and at which it writes through an invalid pointer, and that no signal taken is lost.
  \<open>Process\<close>: in every interleaving of all threads no worker and no call of \<open>discovery\<close> outlives the
  control object, what its deletion does is told by the callbacks then under way, the process can always
  be shut down, and its views are runs of \<open>DiscoveryThreads\<close> and \<open>Lifecycle\<close>, so that their
  theorems hold of the process. \<open>Delivery\<close>: in every interleaving each client is handed what its driver
  gave, as \<open>deviceThread\<close> alone would, after \<open>discovery\<close> has seen it, no event gets stuck, and a worker
  asked to quit reads at most once more. \<open>WindowsClock\<close>: the seconds are right for 35 minutes only, after
  which the heartbeats end. \<open>Platforms\<close>: one hardware address gives one GUID on Linux and macOS,
  and none on Windows. Several properties state
  that the code does not do what a comment, a name or the documentation says; the text before each of
  them tells.

  \<^bold>\<open>Schedules.\<close> A work loop runs along a finite schedule (\<open>tick list\<close>): the answers of the surroundings
  for each iteration, and the instants at which another thread or a signal asks it to quit. A loop
  that is still working at the end of its schedule has the result \<open>None\<close>, never a default. A schedule
  with a \<open>Stop\<close> in it is always enough: \<open>deviceThread_returns\<close>, \<open>join_returns\<close> and
  \<open>heartbeat_schedule\<close> show that the loops end then, whatever comes before. No other definition
  needs fuel; \<open>mkdir_loop\<close> ends by a measure.

  \<^bold>\<open>Not modelled.\<close> The missing daemon functions on Windows; log texts and log patterns other than those
  of the MQTT callbacks and of the start of \<open>main\<close>; the waiting of \<open>usleep\<close> and \<open>sd_notify\<close>; fields and declarations nobody reads
  (the input queue, \<open>bJsonMeasurementAdd\<close>, debug flags); exceptions thrown by the MQTT libraries in
  \<open>run\<close>; what \<open>getopt\<close> itself writes about a bad option. \<open>unsigned long\<close> has 64 bits (32 in
  \<open>WindowsClock\<close>), hosts are little-endian. In \<open>Process\<close> and \<open>Delivery\<close> the threads are interleaved at
  the statements through which they can affect each other: the flags, the mutexes, \<open>discovery\<close>, the calls
  of a driver and of a client; what an MQTT client does in threads of its own is its library's.

  \<^bold>\<open>Plan.\<close> The program's own code is modelled; what remains would refine models that exist: the
  events the broker delivers to a driver as a history of \<open>Delivery\<close> beside those the driver delivers,
  and the byte-level layout of \<open>vscpEvent\<close> in memory.
\<close>

section \<open>From the command line to the exit code\<close>

text \<open>A configuration that \<open>init\<close> has accepted, on the control object \<open>main\<close> has just made.\<close>

lemma accepted_devices:
  fixes c1 :: "('g, 'm, 'j, 'db) control"
  assumes "readJSON J G M CE j ((pr_ctl (main_process G M ids s))\<lparr>co_rootFolder := folder\<rparr>) = (Inr True, c1)"
  shows "list_all (ready_driver (ce_exists CE)) (co_deviceList c1) \<and> \<not> co_bQuit c1"
proof -
  let ?c = "(pr_ctl (main_process G M ids s))\<lparr>co_rootFolder := folder\<rparr> :: ('g, 'm, 'j, 'db) control"
  have n: "co_deviceList ?c = []" "\<not> co_bQuit ?c"
    by (simp_all add: main_process_def CControlObject_new_def Let_def)
  have "list_all (ready_driver (ce_exists CE)) (co_deviceList (snd (readJSON J G M CE j ?c)))"
    by (rule readJSON_keeps_ready) (use n(1) in simp)
  with readJSON_keeps_quit [of J G M CE j ?c] n assms show ?thesis by simp
qed

text \<open>What the operating system may answer about the machine's addresses.\<close>

definition host_ok :: "os_api \<Rightarrow> bool" where
  "host_ok S \<longleftrightarrow>
     length (os_junk S) = 16 \<and> (\<forall>mac. os_hwaddr S = Some mac \<longrightarrow> length mac = 6)
     \<and> (\<forall>as. os_host S = Some as \<longrightarrow> length as < 16)"

lemma init_from_main:
  fixes p :: "('g, 'm, 'j, 'db) process"
  assumes "init J G M CE parse S Q cfg folder (main_process G M ids s) = (Inr True, p)"
    and "guid_laws G" and "host_ok S"
  shows "\<exists>j (c1 :: ('g, 'm, 'j, 'db) control). parse cfg = Some j \<and>
           readJSON J G M CE j ((pr_ctl (main_process G M ids s))\<lparr>co_rootFolder := folder\<rparr>) = (Inr True, c1) \<and>
           cfg_part (pr_ctl p) = cfg_part c1 \<and> \<not> g_is_null G (co_guid (pr_ctl p)) \<and>
           list_all (ready_driver (ce_exists CE)) (co_deviceList c1) \<and> \<not> co_bQuit (pr_ctl p)"
proof -
  have h: "length (os_junk S) = 16" "\<forall>mac. os_hwaddr S = Some mac \<longrightarrow> length mac = 6"
    "\<forall>as. os_host S = Some as \<longrightarrow> length as < 16"
    using assms(3) by (simp_all add: host_ok_def)
  from init_accepted [OF assms(1,2) h] obtain j and c1 :: "('g, 'm, 'j, 'db) control" where r: "parse cfg = Some j"
    "readJSON J G M CE j ((pr_ctl (main_process G M ids s))\<lparr>co_rootFolder := folder\<rparr>) = (Inr True, c1)"
    "cfg_part (pr_ctl p) = cfg_part c1" "\<not> g_is_null G (co_guid (pr_ctl p))"
    by blast
  with accepted_devices [OF r(2)] show ?thesis by (auto simp: cfg_part_def)
qed

text \<open>With such a configuration and a broker, the process of all threads starts as \<open>Process\<close> assumes.\<close>

lemma accepted_idle:
  fixes p :: "('g, 'm, 'j, 'db) process"
  assumes "init J G M CE parse S Q cfg folder (main_process G M ids s) = (Inr True, p)"
    and "guid_laws G" and "host_ok S" and "init_mqtt G M fmt render utc (pr_ctl p) = (True, c)"
  shows "all_idle c"
proof -
  from init_from_main [OF assms(1-3)] obtain c1 :: "('g, 'm, 'j, 'db) control" where
    "cfg_part (pr_ctl p) = cfg_part c1" "list_all (ready_driver (ce_exists CE)) (co_deviceList c1)" by blast
  moreover have "co_deviceList c = co_deviceList (pr_ctl p)"
    using init_mqtt_frame [of G M fmt render utc "pr_ctl p"] assms(4) by simp
  ultimately show ?thesis by (auto simp: all_idle_def cfg_part_def list_all_iff ready_driver_def)
qed

text \<open>C1: What exit code 0 means. There are three ways to it. The licence or the version was asked for, by a
  \<open>-g\<close> or \<open>-v\<close> before any option that ends the program with another code; or this process is the parent
  that a daemonised start leaves behind; in both cases no file has been touched and no configuration
  read. Or the daemon has lived a complete life: its configuration file was parsed and accepted, every
  driver in it could be started (it was enabled, its file existed, it was idle), the daemon had a
  GUID, its settings were the accepted ones, its log file could be opened, \<open>run\<close> returned true, and
  afterwards no driver thread is left: the drivers are those of the configuration in their order, each
  stopped, each enabled one told to quit; and the files were touched in the order given.\<close>

theorem daemon_clean_exit:
  fixes E :: "('g, 'm, 'j, 'c, 'db) thread_env"
  assumes "guid_laws (en_guid E)" and "host_ok S" and "\<forall>d. worker_frame d (work d)"
    and "daemon_main hex OS (init (en_json E) (en_guid E) (en_mqtt E) CE parse S Q)
           (run E K fmt utc created libs work pos start ticks) (en_guid E) (en_mqtt E) ids args
         = (Exits 0, acts)"
  shows "(\<exists>o1 a. find (\<lambda>(o1, _). o1 \<notin> set ''scdrk'') args = Some (o1, a) \<and> o1 \<in> set ''gv'' \<and> acts = []) \<or>
     (\<exists>s. parse_options hex args default_options = Inr s \<and>
       (\<not> op_standalone s \<and> mo_fork OS = ForkParent \<and> acts = [] \<or>
        (op_standalone s \<or> mo_fork OS = ForkChild \<and> 0 \<le> mo_setsid OS) \<and>
        (\<exists>j (c1 :: ('g, 'm, 'j, 'db) control) c2 c3.
           parse (op_cfgfile s) = Some j \<and>
           readJSON (en_json E) (en_guid E) (en_mqtt E) CE j
             ((pr_ctl (main_process (en_guid E) (en_mqtt E) ids s))\<lparr>co_rootFolder := op_rootFolder s\<rparr>)
             = (Inr True, c1) \<and>
           list_all (ready_driver (ce_exists CE)) (co_deviceList c1) \<and>
           cfg_part c2 = cfg_part c1 \<and> \<not> g_is_null (en_guid E) (co_guid c2) \<and>
           mo_log_file OS (c_str (lg_path_to_log_file (co_log c2))) \<and>
           run E K fmt utc created libs work pos start ticks c2 = Some (RunReturns True c3) \<and>
           map di_strName (co_deviceList c3) = map di_strName (co_deviceList c1) \<and>
           (\<forall>d\<in>set (co_deviceList c3). \<not> di_bThreadStarted d \<and> (di_bEnable d \<longrightarrow> di_bQuit d)) \<and>
           acts = main_pid OS s (mo_setsid OS) @ main_chdir OS s @ [Unlink ''/var/run/vscp/vscpd.pid''])))"
  using assms(4)
proof (cases rule: main_exits_0_cases)
  case (message o1 a)
  have "(\<lambda>(o1, _ :: string). o1 \<notin> set ''scdrk'') = (\<lambda>(o1, _). \<not> goes_on o1)" by (auto simp: goes_on_def)
  with message show ?thesis by metis
next
  case (parent s)
  then show ?thesis by blast
next
  case (life s p c3)
  from init_from_main [OF life(3) assms(1,2)] obtain j and c1 :: "('g, 'm, 'j, 'db) control" where
    c1: "parse (op_cfgfile s) = Some j"
    "readJSON (en_json E) (en_guid E) (en_mqtt E) CE j
       ((pr_ctl (main_process (en_guid E) (en_mqtt E) ids s))\<lparr>co_rootFolder := op_rootFolder s\<rparr>)
       = (Inr True, c1)"
    "cfg_part (pr_ctl p) = cfg_part c1" "\<not> g_is_null (en_guid E) (co_guid (pr_ctl p))"
    "list_all (ready_driver (ce_exists CE)) (co_deviceList c1)" by blast
  from c1(3) have d: "co_deviceList (pr_ctl p) = co_deviceList c1" by (simp add: cfg_part_def)
  have "\<forall>d\<in>set (co_deviceList (pr_ctl p)). \<not> di_bThreadStarted d"
    using c1(5) by (auto simp: d list_all_iff ready_driver_def)
  note stopped = run_leaves_stopped [OF this assms(3) life(5), unfolded d]
  show ?thesis
    by (rule disjI2, rule exI [of _ s], rule conjI [OF life(1)], rule disjI2, rule conjI [OF life(2)],
        rule exI [of _ j], rule exI [of _ c1], rule exI [of _ "pr_ctl p"], rule exI [of _ c3])
       (use c1 life stopped in simp)
qed

lemma main_shuts_down:
  assumes "parse_options hex args default_options = Inr s"
    and "daemonize (op_standalone s) (mo_fork OS) (mo_setsid OS) = D_Runs sid"
    and "guid_laws (en_guid E)" and "host_ok S" and "caps_layout K" and "\<forall>t\<in>set ts. tick_ok K t"
    and "init (en_json E) (en_guid E) (en_mqtt E) CE parse S Q (op_cfgfile s) (op_rootFolder s)
           (main_process (en_guid E) (en_mqtt E) ids s) = (Inr True, p)"
    and "mo_log_file OS (c_str (lg_path_to_log_file (co_log (pr_ctl p))))"
    and "fst (mc_connect (en_mqtt E) (daemon_client (en_mqtt E) utc (pr_ctl p)))"
  shows "\<exists>acts. daemon_main hex OS (init (en_json E) (en_guid E) (en_mqtt E) CE parse S Q)
           (run E K fmt utc created libs work pos start (map Iter ts @ Stop # rest))
           (en_guid E) (en_mqtt E) ids args = (Exits 0, acts)"
proof -
  from init_from_main [OF assms(7,3,4)] have "\<not> co_bQuit (pr_ctl p)" by blast
  from run_with_stop [OF assms(3,5,6) this assms(9)] obtain c' where
    r: "run E K fmt utc created libs work pos start (map Iter ts @ Stop # rest) (pr_ctl p)
          = Some (RunReturns True c')" by blast
  show ?thesis by (rule main_exits_0I [OF assms(1,2)]) (fact assms(7,8) r)+
qed

text \<open>C2: The daemon can be run and shut down: with a configuration that \<open>init\<close> accepts, a log file that
  can be opened, a client that connects and heartbeats within their buffers, a signal at any time,
  after any number of iterations of the main loop and whatever the drivers report, ends it with
  exit code 0.\<close>

theorem daemon_shuts_down:
  assumes "parse_options hex args default_options = Inr s"
    and "daemonize (op_standalone s) (mo_fork OS) (mo_setsid OS) = D_Runs sid"
    and "guid_laws (en_guid E)" and "host_ok S" and "caps_layout K" and "\<forall>t\<in>set ts. tick_ok K t"
    and "init (en_json E) (en_guid E) (en_mqtt E) CE parse S Q (op_cfgfile s) (op_rootFolder s)
           (main_process (en_guid E) (en_mqtt E) ids s) = (Inr True, p)"
    and "mo_log_file OS (c_str (lg_path_to_log_file (co_log (pr_ctl p))))"
    and "fst (mc_connect (en_mqtt E) (daemon_client (en_mqtt E) utc (pr_ctl p)))"
  shows "\<exists>acts. daemon_main hex OS (init (en_json E) (en_guid E) (en_mqtt E) CE parse S Q)
           (run E K fmt utc created libs work pos start (map Iter ts @ Stop # rest))
           (en_guid E) (en_mqtt E) ids args = (Exits 0, acts)"
  by (rule main_shuts_down [OF assms])

text \<open>A run in the foreground: one iteration of the main loop with a heartbeat, then a signal.\<close>

definition main_os0 :: main_os where
  "main_os0 = \<lparr>mo_fork = ForkParent, mo_setsid = 0, mo_pid_writable = True, mo_chdir = (\<lambda>_. True),
     mo_log_file = (\<lambda>_. True), mo_mkdir = (\<lambda>_ _. MkMade), mo_dirs = []\<rparr>"

abbreviation main0 where
  "main0 \<equiv> daemon_main (\<lambda>k n s. (0, k)) main_os0
     (init json0 guid0 mqtt0 ce0 (\<lambda>_. Some cfg0) os0 (sql0 []))
     (run env0 codes0 fmt0 None (\<lambda>_. True) (\<lambda>_. lib0) (\<lambda>d. d) (\<lambda>_. (1, 0)) 1000
       [Iter (tick0 1001), Stop]) guid0 mqtt0 (0, 0) [(CHR ''s'', [])]"

lemma main0_facts:
  "parse_options (\<lambda>k n s. (0, k)) [(CHR ''s'', [])] default_options
     = Inr (default_options\<lparr>op_standalone := True\<rparr>)"
  "daemonize (op_standalone (default_options\<lparr>op_standalone := True\<rparr>)) (mo_fork main_os0)
     (mo_setsid main_os0) = D_Runs 0"
  "guid_laws (en_guid env0)" "host_ok os0" "caps_layout codes0"
  "\<forall>t\<in>set [tick0 1001]. tick_ok codes0 t" "mo_log_file main_os0 path"
  using guid0_laws
  by (auto simp: daemonize_def host_ok_def os0_def tick0_ok codes0_layout main_os0_def lib_simps)

lemma init_main0:
  "\<exists>p :: (_, _, _, nat) process. init (en_json env0) (en_guid env0) (en_mqtt env0) ce0 (\<lambda>_. Some cfg0) os0 (sql0 [])
     cfg folder (main_process (en_guid env0) (en_mqtt env0) (0, 0) s) = (Inr True, p)"
  using init0 by (simp add: lib_simps)

lemma connect0: "fst (mc_connect (en_mqtt env0) m)"
  by (simp add: lib_simps)

lemma env0_api: "en_json env0 = json0" "en_guid env0 = guid0" "en_mqtt env0 = mqtt0"
  by (simp_all add: lib_simps)

theorem daemon_shuts_down_witness: "\<exists>acts. main0 = (Exits 0, acts)"
proof -
  obtain p where p: "init (en_json env0) (en_guid env0) (en_mqtt env0) ce0 (\<lambda>_. Some cfg0) os0 (sql0 [])
      (op_cfgfile (default_options\<lparr>op_standalone := True\<rparr>)) (op_rootFolder (default_options\<lparr>op_standalone := True\<rparr>))
      (main_process (en_guid env0) (en_mqtt env0) (0, 0) (default_options\<lparr>op_standalone := True\<rparr>)) = (Inr True, p)"
    using init_main0 by blast
  from daemon_shuts_down [OF main0_facts(1-6) p main0_facts(7) connect0, where rest = "[]"]
  show ?thesis unfolding env0_api by simp
qed

theorem daemon_clean_exit_witness:
  "\<exists>c2 c3. run env0 codes0 fmt0 None (\<lambda>_. True) (\<lambda>_. lib0) (\<lambda>d. d) (\<lambda>_. (1, 0)) 1000
              [Iter (tick0 1001), Stop] c2 = Some (RunReturns True c3) \<and>
           co_strServerName c2 = ''S'' \<and> co_deviceList c3 = []"
proof -
  obtain p where p: "init (en_json env0) (en_guid env0) (en_mqtt env0) ce0 (\<lambda>_. Some cfg0) os0 (sql0 [])
      (op_cfgfile (default_options\<lparr>op_standalone := True\<rparr>)) (op_rootFolder (default_options\<lparr>op_standalone := True\<rparr>))
      (main_process (en_guid env0) (en_mqtt env0) (0, 0) (default_options\<lparr>op_standalone := True\<rparr>)) = (Inr True, p)"
    using init_main0 by blast
  from main_shuts_down [OF main0_facts(1-6) p main0_facts(7) connect0, where rest = "[]" and fmt = fmt0
      and utc = None and created = "\<lambda>_. True" and libs = "\<lambda>_. lib0" and work = "\<lambda>d. d"
      and pos = "\<lambda>_. (1, 0)" and start = 1000]
  obtain acts where "daemon_main (\<lambda>k n s. (0, k)) main_os0
      (init (en_json env0) (en_guid env0) (en_mqtt env0) ce0 (\<lambda>_. Some cfg0) os0 (sql0 []))
      (run env0 codes0 fmt0 None (\<lambda>_. True) (\<lambda>_. lib0) (\<lambda>d. d) (\<lambda>_. (1, 0)) 1000 [Iter (tick0 1001), Stop])
      (en_guid env0) (en_mqtt env0) (0, 0) [(CHR ''s'', [])] = (Exits 0, acts)"
    by auto
  from daemon_clean_exit [OF main0_facts(3,4) _ this] show ?thesis
    by (auto simp: env0_api readJSON0 cfg_part_def main_process_def CControlObject_new_def Let_def
        worker_frame_def main0_facts(1) main_os0_def)
qed

end
